(* ===== verification/Awg_Prelude.thy ===== *)
theory Awg_Prelude
  imports Main "HOL-Library.Word"
begin

text \<open>
  Shared vocabulary of the development: the widths of Go's integers, big-endian
  16-bit fields as \<open>encoding/binary\<close> reads and writes them, bytes against
  characters, results of fallible operations as sums (\<open>Inl\<close> the error), and
  the collections of rewrite rules the component theories use.

  A Go string is a sequence of bytes, and an Isabelle \<open>char\<close> is a byte, so Go
  strings are modelled by \<open>string\<close> throughout.
\<close>

unbundle bit_operations_syntax

type_synonym byte = "8 word"
type_synonym u16 = "16 word"
type_synonym u64 = "64 word"
type_synonym i64 = "64 word"

named_theorems wire_simps \<open>byte layout of the SOCKS5 messages\<close>
named_theorems netip_simps \<open>the address predicates of net/netip\<close>
named_theorems frame_simps \<open>fields an operation leaves alone\<close>

text \<open>Congruence rules for rewriting inside the branches of a case distinction.\<close>

lemmas case_congs = option.case_cong prod.case_cong sum.case_cong list.case_cong bool.case_cong if_cong

section \<open>Results\<close>

definition rbind :: "'e + 'a \<Rightarrow> ('a \<Rightarrow> 'e + 'b) \<Rightarrow> 'e + 'b" where
  "rbind r f = (case r of Inl e \<Rightarrow> Inl e | Inr x \<Rightarrow> f x)"

lemma rbind_simps [simp]: "rbind (Inl e) f = Inl e" "rbind (Inr x) f = f x"
  by (simp_all add: rbind_def)

lemma rbind_Inr_iff: "rbind r f = Inr y \<longleftrightarrow> (\<exists>x. r = Inr x \<and> f x = Inr y)"
  by (cases r) auto

lemma rbind_InrE [elim]:
  assumes "rbind r f = Inr y"
  obtains x where "r = Inr x" and "f x = Inr y"
  using assms by (auto simp: rbind_Inr_iff)

text \<open>A loop that stops at the first error, as \<open>for ... { if err != nil { return err } }\<close> does.\<close>

fun each :: "('a \<Rightarrow> 'e + unit) \<Rightarrow> 'a list \<Rightarrow> 'e + unit" where
  "each f [] = Inr ()"
| "each f (x # xs) = rbind (f x) (\<lambda>_. each f xs)"

lemma each_Inr_iff: "each f xs = Inr () \<longleftrightarrow> (\<forall>x\<in>set xs. f x = Inr ())"
  by (induction xs) (auto simp: rbind_Inr_iff)

lemma each_Inl_in: "each f xs = Inl e \<Longrightarrow> \<exists>x\<in>set xs. f x = Inl e"
  by (induction xs) (auto simp: rbind_def split: sum.splits)

section \<open>Bytes, characters and big-endian fields\<close>

text \<open>\<open>chr n\<close> is the character with code \<open>n mod 256\<close>, written so that it evaluates.\<close>

definition chr :: "nat \<Rightarrow> char" where
  "chr n = Char (odd n) (odd (n div 2)) (odd (n div 4)) (odd (n div 8))
     (odd (n div 16)) (odd (n div 32)) (odd (n div 64)) (odd (n div 128))"

lemma chr_char_of: "chr n = char_of n"
  by (simp add: chr_def char_of_def bit_iff_odd)

abbreviation ord :: "char \<Rightarrow> nat" where
  "ord c \<equiv> of_char c"

lemma ord_chr [simp]: "n < 256 \<Longrightarrow> ord (chr n) = n"
  by (simp add: chr_char_of)

lemma chr_ord [simp]: "chr (ord c) = c"
  by (simp add: chr_char_of)

definition string_of_bytes :: "byte list \<Rightarrow> string" where
  "string_of_bytes bs = map (\<lambda>b. chr (unat b)) bs"

definition bytes_of_string :: "string \<Rightarrow> byte list" where
  "bytes_of_string s = map (\<lambda>c. word_of_nat (ord c)) s"

lemma length_string_of_bytes [simp]: "length (string_of_bytes bs) = length bs"
  by (simp add: string_of_bytes_def)

lemma length_bytes_of_string [simp]: "length (bytes_of_string s) = length s"
  by (simp add: bytes_of_string_def)

lemma unat_byte_less [simp]: "unat (b :: byte) < 256"
  using unsigned_less [of b] by simp

lemma string_of_bytes_of_string [simp]: "string_of_bytes (bytes_of_string s) = s"
  by (induction s) (simp_all add: string_of_bytes_def bytes_of_string_def unat_of_nat take_bit_eq_mod)

lemma bytes_of_string_of_bytes [simp]: "bytes_of_string (string_of_bytes bs) = bs"
  by (induction bs) (simp_all add: string_of_bytes_def bytes_of_string_def)

definition be16 :: "byte \<Rightarrow> byte \<Rightarrow> u16" where
  "be16 hi lo = push_bit 8 (ucast hi) OR ucast lo"

definition put16 :: "u16 \<Rightarrow> byte list" where
  "put16 p = [ucast (drop_bit 8 p), ucast p]"

lemma length_put16 [simp]: "length (put16 p) = 2"
  by (simp add: put16_def)

lemma be16_put16 [simp]: "be16 (ucast (drop_bit 8 p)) (ucast p) = p"
  unfolding be16_def by (rule bit_word_eqI) (auto simp: bit_simps)

lemma put16_be16 [simp]: "put16 (be16 hi lo) = [hi, lo]"
  unfolding put16_def be16_def
  by (auto intro!: bit_word_eqI simp: bit_simps) (use bit_imp_le_length in fastforce)

lemma put16_eq_iff [simp]: "put16 p = put16 q \<longleftrightarrow> p = q"
  by (metis be16_put16 list.inject put16_def)

section \<open>Lists\<close>

lemma take_drop_split: "n \<le> length xs \<Longrightarrow> \<exists>ys zs. xs = ys @ zs \<and> length ys = n"
  by (metis append_take_drop_id length_take min.absorb2)

lemma drop_suffix: "n \<le> length xs \<Longrightarrow> m \<le> n \<Longrightarrow> \<exists>h. xs = h @ drop n xs \<and> m \<le> length h"
  by (rule exI [of _ "take n xs"]) simp

lemma length_eq_2: "length xs = 2 \<longleftrightarrow> (\<exists>a b. xs = [a, b])"
  by (auto simp: numeral_2_eq_2 length_Suc_conv)

lemma length_eq_4: "length xs = 4 \<longleftrightarrow> (\<exists>a b c d. xs = [a, b, c, d])"
  by (auto simp: eval_nat_numeral length_Suc_conv)


section \<open>Transition systems\<close>

inductive reachable :: "('s \<Rightarrow> bool) \<Rightarrow> ('s \<Rightarrow> 's \<Rightarrow> bool) \<Rightarrow> 's \<Rightarrow> bool"
  for init :: "'s \<Rightarrow> bool" and step :: "'s \<Rightarrow> 's \<Rightarrow> bool" where
  base: "init s \<Longrightarrow> reachable init step s"
| more: "reachable init step s \<Longrightarrow> step s t \<Longrightarrow> reachable init step t"

text \<open>
  The contract of an invariant: it holds initially and every step keeps it. What a
  system gets in return is that it holds in every reachable state.
\<close>

locale invariant =
  fixes init :: "'s \<Rightarrow> bool" and step :: "'s \<Rightarrow> 's \<Rightarrow> bool" and inv :: "'s \<Rightarrow> bool"
  assumes init_inv: "init s \<Longrightarrow> inv s"
    and step_inv: "step s t \<Longrightarrow> inv s \<Longrightarrow> inv t"
begin

lemma reachable_inv: "reachable init step s \<Longrightarrow> inv s"
  by (induction rule: reachable.induct) (auto intro: init_inv step_inv)

lemma reachable_star: "step\<^sup>*\<^sup>* s t \<Longrightarrow> reachable init step s \<Longrightarrow> reachable init step t"
  by (induction rule: rtranclp_induct) (auto intro: reachable.more)

end

text \<open>
  The contract of a refinement: an abstraction maps initial states to initial states and,
  under an invariant, steps to steps of the specification. In return every reachable
  state is mapped to a reachable state of the specification.
\<close>

locale simulation = invariant init step inv
  for init :: "'s \<Rightarrow> bool" and step :: "'s \<Rightarrow> 's \<Rightarrow> bool" and inv :: "'s \<Rightarrow> bool" +
  fixes ainit :: "'a \<Rightarrow> bool" and astep :: "'a \<Rightarrow> 'a \<Rightarrow> bool" and absf :: "'s \<Rightarrow> 'a"
  assumes init_sim: "init s \<Longrightarrow> ainit (absf s)"
    and step_sim: "step s t \<Longrightarrow> inv s \<Longrightarrow> astep (absf s) (absf t)"
begin

lemma reachable_sim: "reachable init step s \<Longrightarrow> reachable ainit astep (absf s)"
  by (induction rule: reachable.induct) (auto intro: reachable.intros init_sim step_sim reachable_inv)

end

end
