(* ===== verification/Go_Strings.thy ===== *)
theory Go_Strings
  imports Awg_Prelude
begin

text \<open>
  The part of Go's standard library the program's text handling rests on:
  \<open>strings\<close> (TrimSpace, ToLower, Split, Cut, Contains, ...), \<open>strconv\<close>
  (ParseUint, ParseInt, Atoi and decimal printing) and \<open>base64.StdEncoding\<close>.

  \<open>TrimSpace\<close> removes the UTF-8 encodings of every rune for which
  \<open>unicode.IsSpace\<close> holds. \<open>ToLower\<close> lowers ASCII letters and the two other
  runes whose lower case is ASCII (U+0130 to \<open>i\<close>, U+212A to \<open>k\<close>); every other
  non-ASCII rune is left as it is, which cannot matter to a comparison with the
  ASCII literals of the program, because its lower case is not ASCII either.
\<close>

section \<open>strings\<close>

definition ascii_space :: "char \<Rightarrow> bool" where
  "ascii_space c \<longleftrightarrow> c = CHR 0x09 \<or> c = CHR 0x0A \<or> c = CHR 0x0B \<or> c = CHR 0x0C
     \<or> c = CHR 0x0D \<or> c = CHR 0x20"

definition uspace2 :: "char \<Rightarrow> char \<Rightarrow> bool" where
  "uspace2 a b \<longleftrightarrow> a = CHR 0xC2 \<and> (b = CHR 0x85 \<or> b = CHR 0xA0)"

definition uspace3 :: "char \<Rightarrow> char \<Rightarrow> char \<Rightarrow> bool" where
  "uspace3 a b c \<longleftrightarrow>
     (a = CHR 0xE1 \<and> b = CHR 0x9A \<and> c = CHR 0x80)
   \<or> (a = CHR 0xE2 \<and> b = CHR 0x80 \<and>
        ((128 \<le> ord c \<and> ord c \<le> 138) \<or> c = CHR 0xA8 \<or> c = CHR 0xA9 \<or> c = CHR 0xAF))
   \<or> (a = CHR 0xE2 \<and> b = CHR 0x81 \<and> c = CHR 0x9F)
   \<or> (a = CHR 0xE3 \<and> b = CHR 0x80 \<and> c = CHR 0x80)"

fun trim_by :: "(char \<Rightarrow> char \<Rightarrow> bool) \<Rightarrow> (char \<Rightarrow> char \<Rightarrow> char \<Rightarrow> bool) \<Rightarrow> string \<Rightarrow> string" where
  "trim_by p q [] = []"
| "trim_by p q [a] = (if ascii_space a then [] else [a])"
| "trim_by p q [a, b] =
     (if ascii_space a then trim_by p q [b] else if p a b then [] else [a, b])"
| "trim_by p q (a # b # c # s) =
     (if ascii_space a then trim_by p q (b # c # s)
      else if p a b then trim_by p q (c # s)
      else if q a b c then trim_by p q s
      else a # b # c # s)"

definition TrimSpace :: "string \<Rightarrow> string" where
  "TrimSpace s =
     rev (trim_by (\<lambda>b a. uspace2 a b) (\<lambda>c b a. uspace3 a b c) (rev (trim_by uspace2 uspace3 s)))"

text \<open>A string of printable ASCII characters other than the space is its own trim.\<close>

definition plain :: "char \<Rightarrow> bool" where
  "plain c \<longleftrightarrow> 33 \<le> ord c \<and> ord c < 127"

lemma plain_not_space: "plain c \<Longrightarrow> \<not> ascii_space c"
  by (auto simp: plain_def ascii_space_def)

lemma trim_by_head:
  assumes "\<not> ascii_space a" and "\<And>x. \<not> p a x" and "\<And>x y. \<not> q a x y"
  shows "trim_by p q (a # s) = a # s"
proof (cases s)
  case (Cons b t)
  with assms show ?thesis by (cases t) auto
qed (use assms in auto)

lemma TrimSpace_plain:
  assumes "s \<noteq> []" "plain (hd s)" "plain (last s)"
  shows "TrimSpace s = s"
proof -
  have "trim_by uspace2 uspace3 s = s"
  proof (cases s)
    case (Cons a t)
    then show ?thesis using assms
      by (auto intro!: trim_by_head simp: plain_not_space uspace2_def uspace3_def plain_def)
  qed (use assms in simp)
  moreover have "trim_by (\<lambda>b a. uspace2 a b) (\<lambda>c b a. uspace3 a b c) (rev s) = rev s"
  proof (cases s rule: rev_cases)
    case (snoc t a)
    then show ?thesis using assms
      by (auto intro!: trim_by_head simp: plain_not_space uspace2_def uspace3_def plain_def)
  qed (use assms in simp)
  ultimately show ?thesis by (simp add: TrimSpace_def)
qed

definition ascii_lower :: "char \<Rightarrow> char" where
  "ascii_lower c = (if 65 \<le> ord c \<and> ord c \<le> 90 then chr (ord c + 32) else c)"

fun ToLower :: "string \<Rightarrow> string" where
  "ToLower [] = []"
| "ToLower (a # s) =
     (case s of
        b # c # t \<Rightarrow>
          if a = CHR 0xE2 \<and> b = CHR 0x84 \<and> c = CHR 0xAA then CHR ''k'' # ToLower t
          else if a = CHR 0xC4 \<and> b = CHR 0xB0 then CHR ''i'' # ToLower (c # t)
          else ascii_lower a # ToLower s
      | [b] \<Rightarrow> if a = CHR 0xC4 \<and> b = CHR 0xB0 then [CHR ''i''] else ascii_lower a # ToLower s
      | [] \<Rightarrow> [ascii_lower a])"

definition EqualFold_ascii :: "string \<Rightarrow> string \<Rightarrow> bool" where
  "EqualFold_ascii s t \<longleftrightarrow> map ascii_lower s = map ascii_lower t"

fun split_on :: "char \<Rightarrow> string \<Rightarrow> string list" where
  "split_on d [] = [[]]"
| "split_on d (c # s) =
     (if c = d then [] # split_on d s
      else (case split_on d s of [] \<Rightarrow> [[c]] | w # ws \<Rightarrow> (c # w) # ws))"

lemma split_on_not_Nil [simp]: "split_on d s \<noteq> []"
  by (induction s) (auto split: list.splits)

lemma split_on_no_sep: "d \<notin> set s \<Longrightarrow> split_on d s = [s]"
  by (induction s) auto

lemma split_on_append_sep: "d \<notin> set s \<Longrightarrow> split_on d (s @ d # t) = s # split_on d t"
  by (induction s) auto

lemma split_on_no_sep_in: "w \<in> set (split_on d s) \<Longrightarrow> d \<notin> set w"
  by (induction s arbitrary: w) (auto split: if_splits list.splits)

text \<open>\<open>strings.Cut\<close> around one character: before, after and whether it was found.\<close>

fun Cut :: "char \<Rightarrow> string \<Rightarrow> (string \<times> string) option" where
  "Cut d [] = None"
| "Cut d (c # s) =
     (if c = d then Some ([], s) else map_option (\<lambda>(a, b). (c # a, b)) (Cut d s))"

lemma Cut_None_iff: "Cut d s = None \<longleftrightarrow> d \<notin> set s"
  by (induction s) auto

lemma Cut_Some: "Cut d s = Some (a, b) \<Longrightarrow> s = a @ d # b \<and> d \<notin> set a"
  by (induction s arbitrary: a) (auto split: if_splits)

lemma Cut_append: "d \<notin> set a \<Longrightarrow> Cut d (a @ d # b) = Some (a, b)"
  by (induction a) auto

text \<open>Splitting at the last occurrence, as the code does with \<open>LastIndexByte\<close>.\<close>

definition CutLast :: "char \<Rightarrow> string \<Rightarrow> (string \<times> string) option" where
  "CutLast d s = map_option (\<lambda>(a, b). (rev b, rev a)) (Cut d (rev s))"

lemma CutLast_append: "d \<notin> set b \<Longrightarrow> CutLast d (a @ d # b) = Some (a, b)"
  by (simp add: CutLast_def Cut_append [of d "rev b" "rev a", simplified])

lemma CutLast_Some: "CutLast d s = Some (a, b) \<Longrightarrow> s = a @ d # b \<and> d \<notin> set b"
proof -
  assume "CutLast d s = Some (a, b)"
  then have "rev s = rev b @ d # rev a \<and> d \<notin> set b"
    by (auto simp: CutLast_def dest!: Cut_Some)
  then show ?thesis by (metis append.assoc append_Cons append_Nil rev_append rev_rev_ident rev_singleton_conv rev.simps(2))
qed

fun HasPrefix :: "'a list \<Rightarrow> 'a list \<Rightarrow> bool" where
  "HasPrefix s [] = True"
| "HasPrefix [] (p # ps) = False"
| "HasPrefix (c # s) (p # ps) = (c = p \<and> HasPrefix s ps)"

definition HasSuffix :: "'a list \<Rightarrow> 'a list \<Rightarrow> bool" where
  "HasSuffix s p = HasPrefix (rev s) (rev p)"

fun Contains :: "'a list \<Rightarrow> 'a list \<Rightarrow> bool" where
  "Contains [] p = (p = [])"
| "Contains (c # s) p = (HasPrefix (c # s) p \<or> Contains s p)"

lemma HasPrefix_iff: "HasPrefix s p \<longleftrightarrow> (\<exists>t. s = p @ t)"
  by (induction s p rule: HasPrefix.induct) auto

lemma HasPrefix_append [simp]: "HasPrefix (p @ t) p"
  by (auto simp: HasPrefix_iff)

lemma Contains_iff: "Contains s p \<longleftrightarrow> (\<exists>a b. s = a @ p @ b)"
proof (induction s)
  case (Cons c s)
  have "(\<exists>a b. c # s = a @ p @ b) \<longleftrightarrow> (\<exists>b. c # s = p @ b) \<or> (\<exists>a b. s = a @ p @ b)"
    by (metis append_Cons append_Nil append_eq_Cons_conv)
  then show ?case using Cons.IH by (simp add: HasPrefix_iff)
qed auto

definition ContainsAny :: "string \<Rightarrow> string \<Rightarrow> bool" where
  "ContainsAny s cs \<longleftrightarrow> (\<exists>c\<in>set s. c \<in> set cs)"

definition Trim :: "string \<Rightarrow> string \<Rightarrow> string" where
  "Trim s cs = rev (dropWhile (\<lambda>c. c \<in> set cs) (rev (dropWhile (\<lambda>c. c \<in> set cs) s)))"

fun Join :: "string \<Rightarrow> string list \<Rightarrow> string" where
  "Join sep [] = []"
| "Join sep [s] = s"
| "Join sep (s # t # ss) = s @ sep @ Join sep (t # ss)"

lemma split_on_Join_lines:
  "\<forall>l\<in>set ls. d \<notin> set l \<Longrightarrow> split_on d (Join [d] ls) = (if ls = [] then [[]] else ls)"
  by (induction ls rule: induct_list012) (auto simp: split_on_no_sep split_on_append_sep)

section \<open>strconv\<close>

datatype num_err = ErrSyntax | ErrRange

definition is_digit :: "char \<Rightarrow> bool" where
  "is_digit c \<longleftrightarrow> 48 \<le> ord c \<and> ord c \<le> 57"

text \<open>
  \<open>ParseUint(s, 10, bits)\<close> returns a value with every error: 0 with a syntax
  error, the largest value with a range error. Callers that drop the error use it.
\<close>

fun parse_digits :: "nat \<Rightarrow> nat \<Rightarrow> string \<Rightarrow> num_err option \<times> nat" where
  "parse_digits mx n [] = (None, n)"
| "parse_digits mx n (c # s) =
     (if \<not> is_digit c then (Some ErrSyntax, 0)
      else if n * 10 + (ord c - 48) > mx then (Some ErrRange, mx)
      else parse_digits mx (n * 10 + (ord c - 48)) s)"

definition ParseUint :: "string \<Rightarrow> nat \<Rightarrow> num_err option \<times> nat" where
  "ParseUint s bits = (if s = [] then (Some ErrSyntax, 0) else parse_digits (2 ^ bits - 1) 0 s)"

definition uint_opt :: "string \<Rightarrow> nat \<Rightarrow> nat option" where
  "uint_opt s bits = (case ParseUint s bits of (None, n) \<Rightarrow> Some n | (Some _, _) \<Rightarrow> None)"

definition ParseInt :: "string \<Rightarrow> num_err option \<times> int" where
  "ParseInt s =
     (case s of
        [] \<Rightarrow> (Some ErrSyntax, 0)
      | c # t \<Rightarrow>
          let neg = (c = CHR ''-'');
              r = (if c = CHR ''-'' \<or> c = CHR ''+'' then t else s)
          in (case ParseUint r 64 of
                (Some ErrSyntax, _) \<Rightarrow> (Some ErrSyntax, 0)
              | (_, un) \<Rightarrow>
                  if \<not> neg \<and> un \<ge> 2 ^ 63 then (Some ErrRange, 2 ^ 63 - 1)
                  else if neg \<and> un > 2 ^ 63 then (Some ErrRange, - (2 ^ 63))
                  else (None, if neg then - int un else int un)))"

definition Atoi :: "string \<Rightarrow> num_err option \<times> int" where
  "Atoi s = ParseInt s"

definition int_opt :: "string \<Rightarrow> int option" where
  "int_opt s = (case Atoi s of (None, n) \<Rightarrow> Some n | (Some _, _) \<Rightarrow> None)"

fun dec :: "nat \<Rightarrow> string" where
  "dec n = (if n < 10 then [chr (48 + n)] else dec (n div 10) @ [chr (48 + n mod 10)])"

declare dec.simps [simp del]

lemma dec_not_Nil [simp]: "dec n \<noteq> []"
  by (subst dec.simps) simp

lemma dec_digits: "c \<in> set (dec n) \<Longrightarrow> is_digit c"
proof (induction n rule: dec.induct)
  case (1 n)
  show ?case
  proof (cases "n < 10")
    case True
    with 1 show ?thesis by (subst (asm) dec.simps) (auto simp: is_digit_def)
  next
    case False
    have "n mod 10 < 10" by simp
    with False 1 show ?thesis by (subst (asm) dec.simps) (auto simp: is_digit_def)
  qed
qed

lemma digit_plain: "is_digit c \<Longrightarrow> plain c"
  by (auto simp: is_digit_def plain_def)

lemma parse_digits_bound: "n \<le> mx \<Longrightarrow> snd (parse_digits mx n s) \<le> mx"
  by (induction s arbitrary: n) auto

lemma uint_opt_bound:
  assumes "uint_opt s bits = Some n"
  shows "n < 2 ^ bits"
proof -
  from assms have "n = snd (parse_digits (2 ^ bits - 1) 0 s)"
    by (auto simp: uint_opt_def ParseUint_def split: if_splits prod.splits option.splits)
  also have "\<dots> \<le> 2 ^ bits - 1" by (rule parse_digits_bound) simp
  finally show ?thesis by (simp add: Nat.le_diff_conv2 less_eq_Suc_le)
qed

lemma le_mult10: "(a :: nat) \<le> a * 10 + b"
  by simp

lemma parse_digits_step:
  "d < 10 \<Longrightarrow> n * 10 + d \<le> mx \<Longrightarrow> parse_digits mx n (chr (48 + d) # s) = parse_digits mx (n * 10 + d) s"
  by (simp add: is_digit_def)

lemma parse_digits_dec:
  "k * 10 ^ length (dec n) + n \<le> mx \<Longrightarrow>
     parse_digits mx k (dec n @ s) = parse_digits mx (k * 10 ^ length (dec n) + n) s"
proof (induction n arbitrary: k s rule: dec.induct)
  case (1 n)
  show ?case
  proof (cases "n < 10")
    case True
    with 1 show ?thesis by (simp add: dec.simps [of n] is_digit_def)
  next
    case False
    let ?m = "n div 10" and ?d = "n mod 10"
    have n: "n = ?m * 10 + ?d" by simp
    have d: "?d < 10" by simp
    from False have dn: "dec n = dec ?m @ [chr (48 + ?d)]" by (simp add: dec.simps [of n])
    let ?k = "k * 10 ^ length (dec ?m) + ?m"
    have step: "?k * 10 + ?d = k * 10 ^ length (dec n) + n"
      using n by (simp add: dn algebra_simps)
    from "1.prems" have le': "?k * 10 + ?d \<le> mx" by (simp only: step)
    have le: "?k \<le> mx" by (rule order_trans [OF le_mult10 le'])
    have "parse_digits mx k (dec n @ s) = parse_digits mx ?k (chr (48 + ?d) # s)"
      using "1.IH" [OF False le] by (simp add: dn)
    also have "\<dots> = parse_digits mx (?k * 10 + ?d) s"
      by (rule parse_digits_step [OF d le'])
    finally show ?thesis by (simp only: step)
  qed
qed

text \<open>Printing a number in decimal and parsing it back gives the number.\<close>

lemma ParseUint_dec:
  assumes "n < 2 ^ bits"
  shows "ParseUint (dec n) bits = (None, n)"
proof -
  have "n \<le> 2 ^ bits - 1" using assms by linarith
  then show ?thesis
    using parse_digits_dec [of 0 n "2 ^ bits - 1" "[]"] by (simp add: ParseUint_def)
qed

lemma uint_opt_dec: "n < 2 ^ bits \<Longrightarrow> uint_opt (dec n) bits = Some n"
  by (simp add: uint_opt_def ParseUint_dec)

section \<open>base64.StdEncoding\<close>

definition b64_val :: "char \<Rightarrow> nat option" where
  "b64_val c =
     (let n = ord c in
      if 65 \<le> n \<and> n \<le> 90 then Some (n - 65)
      else if 97 \<le> n \<and> n \<le> 122 then Some (n - 71)
      else if 48 \<le> n \<and> n \<le> 57 then Some (n + 4)
      else if n = 43 then Some 62
      else if n = 47 then Some 63
      else None)"

text \<open>
  Quanta of four characters; \<open>=\<close> pads the last quantum only and nothing follows
  it. The decoder is not strict: unused low bits of a padded quantum are dropped.
\<close>

fun b64_quanta :: "string \<Rightarrow> byte list option" where
  "b64_quanta [] = Some []"
| "b64_quanta (a # b # c # d # s) =
     (case (b64_val a, b64_val b) of
        (Some va, Some vb) \<Rightarrow>
          if c = CHR ''='' then
            (if d = CHR ''='' \<and> s = [] then Some [word_of_nat (va * 4 + vb div 16)] else None)
          else (case b64_val c of
              None \<Rightarrow> None
            | Some vc \<Rightarrow>
                if d = CHR ''='' then
                  (if s = [] then Some [word_of_nat (va * 4 + vb div 16), word_of_nat (vb * 16 + vc div 4)]
                   else None)
                else (case b64_val d of
                    None \<Rightarrow> None
                  | Some vd \<Rightarrow>
                      map_option (\<lambda>r. [word_of_nat (va * 4 + vb div 16), word_of_nat (vb * 16 + vc div 4),
                        word_of_nat (vc * 64 + vd)] @ r) (b64_quanta s)))
      | _ \<Rightarrow> None)"
| "b64_quanta _ = None"

definition DecodeBase64 :: "string \<Rightarrow> byte list option" where
  "DecodeBase64 s = b64_quanta (filter (\<lambda>c. c \<noteq> CHR 0x0D \<and> c \<noteq> CHR 0x0A) s)"

lemma b64_quanta_length:
  "b64_quanta s = Some bs \<Longrightarrow>
     \<exists>k. length s = 4 * k \<and> length bs \<le> 3 * k \<and> 3 * k \<le> length bs + 2"
proof (induction s arbitrary: bs rule: b64_quanta.induct)
  case (2 a b c d s)
  from "2.prems" have "s = [] \<and> (length bs = 1 \<or> length bs = 2)
      \<or> (\<exists>r. b64_quanta s = Some r \<and> length bs = length r + 3)"
    by (auto split: option.splits if_splits)
  then show ?case
  proof
    assume "\<exists>r. b64_quanta s = Some r \<and> length bs = length r + 3"
    then obtain r where r: "b64_quanta s = Some r" and l: "length bs = length r + 3" by blast
    have "\<exists>k. length s = 4 * k \<and> length r \<le> 3 * k \<and> 3 * k \<le> length r + 2"
      using 2 r by (auto split: option.splits if_splits)
    then obtain k where "length s = 4 * k" "length r \<le> 3 * k" "3 * k \<le> length r + 2" by blast
    then show ?thesis by (intro exI [of _ "Suc k"]) (simp add: l)
  qed (auto intro!: exI [of _ 1])
qed auto

lemma DecodeBase64_length:
  assumes "DecodeBase64 s = Some bs"
  shows "length (filter (\<lambda>c. c \<noteq> CHR 0x0D \<and> c \<noteq> CHR 0x0A) s) = 4 * ((length bs + 2) div 3)"
proof -
  from b64_quanta_length [OF assms [unfolded DecodeBase64_def]]
  obtain k where k: "length (filter (\<lambda>c. c \<noteq> CHR 0x0D \<and> c \<noteq> CHR 0x0A) s) = 4 * k"
    and "length bs \<le> 3 * k" "3 * k \<le> length bs + 2" by blast
  then have "(length bs + 2) div 3 = k" by linarith
  with k show ?thesis by simp
qed

end
