(* ===== verification/Netip.thy ===== *)
theory Netip
  imports Go_Strings
begin

text \<open>
  Go's \<open>net/netip\<close>: addresses, address and port pairs, prefixes, their textual
  forms and the predicates the program's guards are made of. An IPv4 address
  carries 4 bytes, an IPv6 address 16 bytes and a zone (empty for none); \<open>Addr0\<close>
  is the zero \<open>netip.Addr\<close>. Parsers return \<open>None\<close> for every parse error.
\<close>

datatype Addr = Addr0 | Addr4 "byte list" | Addr6 "byte list" string

record AddrPort =
  ap_addr :: Addr
  ap_port :: u16

definition AddrPort0 :: AddrPort where
  "AddrPort0 = \<lparr>ap_addr = Addr0, ap_port = 0\<rparr>"

definition AddrPortFrom :: "Addr \<Rightarrow> u16 \<Rightarrow> AddrPort" where
  "AddrPortFrom a p = \<lparr>ap_addr = a, ap_port = p\<rparr>"

lemma AddrPortFrom_sel [simp]: "ap_addr (AddrPortFrom a p) = a" "ap_port (AddrPortFrom a p) = p"
  by (simp_all add: AddrPortFrom_def)

section \<open>Constructors and predicates\<close>

definition IPv4Unspecified :: Addr where
  "IPv4Unspecified = Addr4 [0, 0, 0, 0]"

definition IPv6Unspecified :: Addr where
  "IPv6Unspecified = Addr6 [0, 0, 0, 0, 0, 0, 0, 0, 0, 0, 0, 0, 0, 0, 0, 0] []"

fun wf_addr :: "Addr \<Rightarrow> bool" where
  "wf_addr Addr0 = True"
| "wf_addr (Addr4 bs) = (length bs = 4)"
| "wf_addr (Addr6 bs z) = (length bs = 16)"

fun IsValid :: "Addr \<Rightarrow> bool" where
  "IsValid Addr0 = False"
| "IsValid _ = True"

fun Is4 :: "Addr \<Rightarrow> bool" where
  "Is4 (Addr4 _) = True"
| "Is4 _ = False"

fun Is6 :: "Addr \<Rightarrow> bool" where
  "Is6 (Addr6 _ _) = True"
| "Is6 _ = False"

fun Is4In6 :: "Addr \<Rightarrow> bool" where
  "Is4In6 (Addr6 bs _) = (take 12 bs = [0, 0, 0, 0, 0, 0, 0, 0, 0, 0, 255, 255])"
| "Is4In6 _ = False"

fun Unmap :: "Addr \<Rightarrow> Addr" where
  "Unmap (Addr6 bs z) = (if Is4In6 (Addr6 bs z) then Addr4 (drop 12 bs) else Addr6 bs z)"
| "Unmap a = a"

definition v4_loopback :: "byte list \<Rightarrow> bool" where
  "v4_loopback bs \<longleftrightarrow> (case bs of b # _ \<Rightarrow> b = 127 | [] \<Rightarrow> False)"

fun IsLoopback :: "Addr \<Rightarrow> bool" where
  "IsLoopback Addr0 = False"
| "IsLoopback (Addr4 bs) = v4_loopback bs"
| "IsLoopback (Addr6 bs z) =
     (if Is4In6 (Addr6 bs z) then v4_loopback (drop 12 bs)
      else bs = [0, 0, 0, 0, 0, 0, 0, 0, 0, 0, 0, 0, 0, 0, 0, 1])"

definition IsUnspecified :: "Addr \<Rightarrow> bool" where
  "IsUnspecified a \<longleftrightarrow> a = IPv4Unspecified \<or> a = IPv6Unspecified"

definition AddrFromSlice :: "byte list \<Rightarrow> Addr option" where
  "AddrFromSlice bs =
     (if length bs = 4 then Some (Addr4 bs)
      else if length bs = 16 then Some (Addr6 bs [])
      else None)"

fun WithZone :: "Addr \<Rightarrow> string \<Rightarrow> Addr" where
  "WithZone (Addr6 bs _) z = Addr6 bs z"
| "WithZone a _ = a"

text \<open>\<open>As4\<close> and \<open>As16\<close>; \<open>As16\<close> of an IPv4 address is its mapped form.\<close>

fun As16 :: "Addr \<Rightarrow> byte list" where
  "As16 Addr0 = replicate 16 0"
| "As16 (Addr4 bs) = [0, 0, 0, 0, 0, 0, 0, 0, 0, 0, 255, 255] @ bs"
| "As16 (Addr6 bs _) = bs"

fun As4 :: "Addr \<Rightarrow> byte list" where
  "As4 (Addr4 bs) = bs"
| "As4 (Addr6 bs _) = drop 12 bs"
| "As4 Addr0 = []"

lemma Unmap_cases: "Unmap a = a \<or> (\<exists>bs z. a = Addr6 bs z \<and> Is4In6 a \<and> Unmap a = Addr4 (drop 12 bs))"
  by (cases a) auto

lemma Unmap_Unmap [simp]: "Unmap (Unmap a) = Unmap a"
  by (cases a) auto

lemma Unmap_not_4In6 [simp]: "\<not> Is4In6 (Unmap a)"
  by (cases a) auto

lemma wf_Unmap [simp, intro]: "wf_addr a \<Longrightarrow> wf_addr (Unmap a)"
  by (cases a) auto

lemma IsValid_Unmap [simp]: "IsValid (Unmap a) = IsValid a"
  by (cases a) auto

lemma IsLoopback_Unmap [simp]: "IsLoopback (Unmap a) = IsLoopback a"
  by (cases a) auto

lemma Is6_Unmap_4: "Is4 (Unmap a) \<Longrightarrow> \<not> Is6 (Unmap a)"
  by (cases "Unmap a") auto

lemma IsLoopback_not_unspecified: "IsLoopback a \<Longrightarrow> \<not> IsUnspecified a"
  by (auto simp: IsUnspecified_def IPv4Unspecified_def IPv6Unspecified_def v4_loopback_def)

lemma IsLoopback_IsValid: "IsLoopback a \<Longrightarrow> IsValid a"
  by (cases a) auto

section \<open>Parsing\<close>

definition digit_val :: "char \<Rightarrow> nat" where
  "digit_val c = ord c - 48"

text \<open>
  \<open>parseIPv4Fields\<close>: the previous character, the value and the number of digits
  of the current octet, the octets read so far and the rest of the text.
\<close>

fun ipv4_fields :: "char option \<Rightarrow> nat \<Rightarrow> nat \<Rightarrow> byte list \<Rightarrow> string \<Rightarrow> byte list option" where
  "ipv4_fields prev v dl fs [] = (if length fs < 3 then None else Some (fs @ [word_of_nat v]))"
| "ipv4_fields prev v dl fs (c # s) =
     (if is_digit c then
        (if dl = 1 \<and> v = 0 then None
         else if v * 10 + digit_val c > 255 then None
         else ipv4_fields (Some c) (v * 10 + digit_val c) (dl + 1) fs s)
      else if c = CHR ''.'' then
        (if prev = None \<or> s = [] \<or> prev = Some (CHR ''.'') then None
         else if length fs = 3 then None
         else ipv4_fields (Some c) 0 0 (fs @ [word_of_nat v]) s)
      else None)"

definition parseIPv4 :: "string \<Rightarrow> Addr option" where
  "parseIPv4 s = map_option Addr4 (ipv4_fields None 0 0 [] s)"

definition hex_val :: "char \<Rightarrow> nat option" where
  "hex_val c =
     (let n = ord c in
      if 48 \<le> n \<and> n \<le> 57 then Some (n - 48)
      else if 97 \<le> n \<and> n \<le> 102 then Some (n - 87)
      else if 65 \<le> n \<and> n \<le> 70 then Some (n - 55)
      else None)"

text \<open>One group of hexadecimal digits: how many, their value and the rest.\<close>

fun hex_group :: "nat \<Rightarrow> nat \<Rightarrow> string \<Rightarrow> (nat \<times> nat \<times> string) option" where
  "hex_group off acc [] = Some (off, acc, [])"
| "hex_group off acc (c # s) =
     (case hex_val c of
        None \<Rightarrow> Some (off, acc, c # s)
      | Some d \<Rightarrow>
          if off > 3 then None
          else if acc * 16 + d > 65535 then None
          else hex_group (off + 1) (acc * 16 + d) s)"

text \<open>
  The loop of \<open>parseIPv6\<close>: the text left, the bytes so far, the position of the
  ellipsis. It returns what is left of the text with the bytes and the ellipsis.
\<close>

function ipv6_loop :: "string \<Rightarrow> byte list \<Rightarrow> nat option \<Rightarrow> (string \<times> byte list \<times> nat option) option" where
  "ipv6_loop s ip el =
     (if length ip \<ge> 16 then Some (s, ip, el)
      else case hex_group 0 0 s of
          None \<Rightarrow> None
        | Some (off, acc, r) \<Rightarrow>
            if off = 0 then None
            else if r \<noteq> [] \<and> hd r = CHR ''.'' then
              (if el = None \<and> length ip \<noteq> 12 then None
               else if length ip + 4 > 16 then None
               else (case ipv4_fields None 0 0 [] s of
                   None \<Rightarrow> None
                 | Some f \<Rightarrow> Some ([], ip @ f, el)))
            else
              (let ip' = ip @ [word_of_nat (acc div 256), word_of_nat acc] in
               case r of
                 [] \<Rightarrow> Some ([], ip', el)
               | c # t \<Rightarrow>
                   if c \<noteq> CHR '':'' then None
                   else if t = [] then None
                   else if hd t = CHR '':'' then
                     (if el \<noteq> None then None
                      else if tl t = [] then Some ([], ip', Some (length ip'))
                      else ipv6_loop (tl t) ip' (Some (length ip')))
                   else ipv6_loop t ip' el))"
  by pat_completeness auto
termination
  by (relation "measure (\<lambda>(s, ip, el). 16 - length ip)") auto

declare ipv6_loop.simps [simp del]

definition ipv6_bytes :: "string \<Rightarrow> byte list option" where
  "ipv6_bytes s =
     (let lead = HasPrefix s ''::''; s' = (if lead then drop 2 s else s) in
      if lead \<and> s' = [] then Some (replicate 16 0)
      else case ipv6_loop s' [] (if lead then Some 0 else None) of
          None \<Rightarrow> None
        | Some (r, ip, el) \<Rightarrow>
            if r \<noteq> [] then None
            else if length ip < 16 then
              (case el of
                 None \<Rightarrow> None
               | Some e \<Rightarrow> Some (take e ip @ replicate (16 - length ip) 0 @ drop e ip))
            else if el \<noteq> None then None
            else Some ip)"

definition parseIPv6 :: "string \<Rightarrow> Addr option" where
  "parseIPv6 s =
     (case Cut (CHR ''%'') s of
        None \<Rightarrow> map_option (\<lambda>ip. Addr6 ip []) (ipv6_bytes s)
      | Some (h, z) \<Rightarrow>
          if z = [] then None else map_option (\<lambda>ip. Addr6 ip z) (ipv6_bytes h))"

fun scan_kind :: "string \<Rightarrow> char option" where
  "scan_kind [] = None"
| "scan_kind (c # s) =
     (if c = CHR ''.'' \<or> c = CHR '':'' \<or> c = CHR ''%'' then Some c else scan_kind s)"

definition ParseAddr :: "string \<Rightarrow> Addr option" where
  "ParseAddr s =
     (case scan_kind s of
        None \<Rightarrow> None
      | Some c \<Rightarrow>
          if c = CHR ''.'' then parseIPv4 s
          else if c = CHR '':'' then parseIPv6 s
          else None)"

definition splitAddrPort :: "string \<Rightarrow> (string \<times> string \<times> bool) option" where
  "splitAddrPort s =
     (case CutLast (CHR '':'') s of
        None \<Rightarrow> None
      | Some (ip, port) \<Rightarrow>
          if ip = [] \<or> port = [] then None
          else if hd ip = CHR ''['' then
            (if length ip < 2 \<or> last ip \<noteq> CHR '']'' then None
             else Some (butlast (tl ip), port, True))
          else Some (ip, port, False))"

definition ParseAddrPort :: "string \<Rightarrow> AddrPort option" where
  "ParseAddrPort s =
     (case splitAddrPort s of
        None \<Rightarrow> None
      | Some (ip, port, v6) \<Rightarrow>
          (case uint_opt port 16 of
             None \<Rightarrow> None
           | Some p \<Rightarrow>
               (case ParseAddr ip of
                  None \<Rightarrow> None
                | Some a \<Rightarrow>
                    if v6 \<and> Is4 a then None
                    else if \<not> v6 \<and> Is6 a then None
                    else Some (AddrPortFrom a (word_of_nat p)))))"

text \<open>\<open>net.SplitHostPort\<close>.\<close>

definition SplitHostPort :: "string \<Rightarrow> (string \<times> string) option" where
  "SplitHostPort s =
     (case CutLast (CHR '':'') s of
        None \<Rightarrow> None
      | Some (pre, port) \<Rightarrow>
          if hd s = CHR ''['' then
            (case Cut (CHR '']'') s of
               None \<Rightarrow> None
             | Some (h, rest) \<Rightarrow>
                 if pre \<noteq> h @ '']'' then None
                 else if CHR ''['' \<in> set (tl s) \<or> CHR '']'' \<in> set rest then None
                 else Some (tl h, port))
          else if CHR '':'' \<in> set pre then None
          else if CHR ''['' \<in> set s \<or> CHR '']'' \<in> set s then None
          else Some (pre, port))"

section \<open>Prefixes\<close>

record Prefix =
  px_addr :: Addr
  px_bits :: "nat option"

definition BitLen :: "Addr \<Rightarrow> nat" where
  "BitLen a = (if Is4 a then 32 else if Is6 a then 128 else 0)"

definition PrefixFrom :: "Addr \<Rightarrow> int \<Rightarrow> Prefix" where
  "PrefixFrom a n =
     \<lparr>px_addr = WithZone a [],
      px_bits = (if IsValid a \<and> 0 \<le> n \<and> n \<le> int (BitLen a) then Some (nat n) else None)\<rparr>"

definition prefix_valid :: "Prefix \<Rightarrow> bool" where
  "prefix_valid p \<longleftrightarrow> px_bits p \<noteq> None"

definition ParsePrefix :: "string \<Rightarrow> Prefix option" where
  "ParsePrefix s =
     (case CutLast (CHR ''/'') s of
        None \<Rightarrow> None
      | Some (h, b) \<Rightarrow>
          (case ParseAddr h of
             None \<Rightarrow> None
           | Some a \<Rightarrow>
               if (case a of Addr6 _ z \<Rightarrow> z \<noteq> [] | _ \<Rightarrow> False) then None
               else if length b > 1 \<and> \<not> (49 \<le> ord (hd b) \<and> ord (hd b) \<le> 57) then None
               else (case int_opt b of
                   None \<Rightarrow> None
                 | Some n \<Rightarrow> if n < 0 \<or> n > int (BitLen a) then None else Some (PrefixFrom a n))))"

section \<open>Printing\<close>

definition string4 :: "byte list \<Rightarrow> string" where
  "string4 bs = Join ''.'' (map (\<lambda>b. dec (unat b)) bs)"

definition hex_digit :: "nat \<Rightarrow> char" where
  "hex_digit n = (if n < 10 then chr (48 + n) else chr (87 + n))"

fun hex :: "nat \<Rightarrow> string" where
  "hex n = (if n < 16 then [hex_digit n] else hex (n div 16) @ [hex_digit (n mod 16)])"

declare hex.simps [simp del]

fun groups :: "byte list \<Rightarrow> nat list" where
  "groups (a # b # bs) = (unat a * 256 + unat b) # groups bs"
| "groups _ = []"

text \<open>The longest run of at least two zero groups, the first of equal ones.\<close>

definition zero_run :: "nat list \<Rightarrow> nat \<Rightarrow> nat" where
  "zero_run gs i = length (takeWhile (\<lambda>g. g = 0) (drop i gs))"

definition best_run :: "nat list \<Rightarrow> (nat \<times> nat) option" where
  "best_run gs =
     fold (\<lambda>i best.
        let l = zero_run gs i in
        if l \<ge> 2 \<and> l > (case best of None \<Rightarrow> 0 | Some (s, e) \<Rightarrow> e - s) then Some (i, i + l) else best)
      [0..<8] None"

definition string6 :: "byte list \<Rightarrow> string" where
  "string6 bs =
     (let gs = groups bs in
      case best_run gs of
        None \<Rightarrow> Join '':'' (map hex gs)
      | Some (s, e) \<Rightarrow> Join '':'' (map hex (take s gs)) @ ''::'' @ Join '':'' (map hex (drop e gs)))"

fun Addr_String :: "Addr \<Rightarrow> string" where
  "Addr_String Addr0 = ''invalid IP''"
| "Addr_String (Addr4 bs) = string4 bs"
| "Addr_String (Addr6 bs z) =
     (if Is4In6 (Addr6 bs z) then ''::ffff:'' @ string4 (drop 12 bs) else string6 bs)
     @ (if z = [] then [] else ''%'' @ z)"

definition AddrPort_String :: "AddrPort \<Rightarrow> string" where
  "AddrPort_String p =
     (case ap_addr p of
        Addr0 \<Rightarrow> ''invalid AddrPort''
      | Addr4 bs \<Rightarrow> string4 bs @ '':'' @ dec (unat (ap_port p))
      | Addr6 bs z \<Rightarrow> ''['' @ Addr_String (Addr6 bs z) @ '']:'' @ dec (unat (ap_port p)))"

section \<open>What the parsers return is well formed\<close>

lemma ipv4_fields_length:
  "ipv4_fields prev v dl fs s = Some r \<Longrightarrow> length fs \<le> 3 \<Longrightarrow> length r = 4"
  by (induction prev v dl fs s rule: ipv4_fields.induct) (auto split: if_splits)

definition loop_inv :: "byte list \<Rightarrow> nat option \<Rightarrow> bool" where
  "loop_inv ip el \<longleftrightarrow> even (length ip) \<and> length ip \<le> 16 \<and> (\<forall>e. el = Some e \<longrightarrow> e \<le> length ip)"

lemma loop_inv_group:
  assumes "loop_inv ip el" and "length ip < 16"
  shows "loop_inv (ip @ [a, b]) el" and "loop_inv (ip @ [a, b]) (Some (length ip + 2))"
proof -
  have "length ip + 2 \<le> 16" using assms by (auto simp: loop_inv_def elim!: evenE)
  with assms(1) show "loop_inv (ip @ [a, b]) el" "loop_inv (ip @ [a, b]) (Some (length ip + 2))"
    by (auto simp: loop_inv_def)
qed

lemma ipv6_loop_inv:
  "ipv6_loop s ip el = Some (r, ip', el') \<Longrightarrow> loop_inv ip el \<Longrightarrow> loop_inv ip' el'"
proof (induction s ip el rule: ipv6_loop.induct)
  case (1 s ip el)
  note step = "1.prems"(1) [unfolded ipv6_loop.simps [of s ip el]]
  show ?case
  proof (cases "length ip \<ge> 16")
    case True
    with step "1.prems"(2) show ?thesis by simp
  next
    case False
    then have grp: "loop_inv (ip @ [a, b]) el" "loop_inv (ip @ [a, b]) (Some (length ip + 2))" for a b
      using "1.prems"(2) loop_inv_group by auto
    from False step obtain off acc t where h: "hex_group 0 0 s = Some (off, acc, t)" and "off \<noteq> 0"
      by (auto split: option.splits if_splits)
    let ?ip = "ip @ [word_of_nat (acc div 256), word_of_nat acc]"
    show ?thesis
    proof (cases "t \<noteq> [] \<and> hd t = CHR ''.''")
      case True
      with False step h show ?thesis using "1.prems"(2)
        by (auto simp: loop_inv_def dest: ipv4_fields_length split: if_splits option.splits)
    next
      case no_dot: False
      show ?thesis
      proof (cases t)
        case Nil
        with False step h no_dot grp(1) show ?thesis by (auto split: if_splits)
      next
        case (Cons c u)
        from False step h no_dot Cons grp show ?thesis
          using "1.IH" [OF False h] by (auto simp: Let_def split: if_splits)
      qed
    qed
  qed
qed

lemma ipv6_bytes_length: "ipv6_bytes s = Some ip \<Longrightarrow> length ip = 16"
  by (auto simp: ipv6_bytes_def Let_def loop_inv_def dest!: ipv6_loop_inv
      split: if_splits option.splits)

lemma ParseAddr_wf: "ParseAddr s = Some a \<Longrightarrow> wf_addr a \<and> IsValid a"
  by (auto simp: ParseAddr_def parseIPv4_def parseIPv6_def
      dest!: ipv4_fields_length ipv6_bytes_length split: option.splits if_splits)

lemma ParseAddrPort_wf: "ParseAddrPort s = Some p \<Longrightarrow> wf_addr (ap_addr p) \<and> IsValid (ap_addr p)"
  by (auto simp: ParseAddrPort_def dest!: ParseAddr_wf split: option.splits if_splits)

section \<open>Round trip of IPv4 addresses\<close>

lemma ipv4_fields_dec:
  "n < 256 \<Longrightarrow> ipv4_fields prev 0 0 fs (dec n @ s)
     = ipv4_fields (Some (last (dec n))) n (length (dec n)) fs s"
proof (induction n arbitrary: s rule: dec.induct)
  case (1 n)
  show ?case
  proof (cases "n < 10")
    case True
    then show ?thesis by (simp add: dec.simps [of n] is_digit_def digit_val_def)
  next
    case False
    have d: "n mod 10 < 10" by simp
    then have dig: "is_digit (chr (48 + n mod 10))" "digit_val (chr (48 + n mod 10)) = n mod 10"
      by (simp_all add: is_digit_def digit_val_def del: mod_less_divisor)
    have n: "n div 10 * 10 + n mod 10 = n" by simp
    from False have dn: "dec n = dec (n div 10) @ [chr (48 + n mod 10)]" by (simp add: dec.simps [of n])
    have nz: "n div 10 \<noteq> 0" using False by simp
    have "n div 10 < 256" using "1.prems" by simp
    then have "ipv4_fields prev 0 0 fs (dec n @ s)
        = ipv4_fields (Some (last (dec (n div 10)))) (n div 10) (length (dec (n div 10))) fs
            (chr (48 + n mod 10) # s)"
      using "1.IH" [OF False] by (simp add: dn)
    also have "\<dots> = ipv4_fields (Some (chr (48 + n mod 10))) n (length (dec (n div 10)) + 1) fs s"
      using nz "1.prems" by (simp add: dig n)
    finally show ?thesis by (simp add: dn)
  qed
qed

lemma last_dec_digit: "is_digit (last (dec n))"
  by (rule dec_digits [of _ n]) simp

lemma ipv4_fields_dot:
  assumes "n < 256" "length fs < 3" "s \<noteq> []"
  shows "ipv4_fields prev 0 0 fs (dec n @ CHR ''.'' # s)
     = ipv4_fields (Some (CHR ''.'')) 0 0 (fs @ [word_of_nat n]) s"
  using assms last_dec_digit [of n]
  by (auto simp: ipv4_fields_dec is_digit_def)

lemma scan_kind_append: "scan_kind s = None \<Longrightarrow> scan_kind (s @ t) = scan_kind t"
  by (induction s) (auto split: if_splits)

lemma scan_kind_dec: "scan_kind (dec n) = None"
proof -
  have "\<forall>c\<in>set s. is_digit c \<Longrightarrow> scan_kind s = None" for s
    by (induction s) (auto simp: is_digit_def)
  then show ?thesis using dec_digits by blast
qed

lemma ParseAddr_string4:
  assumes "length bs = 4"
  shows "ParseAddr (string4 bs) = Some (Addr4 bs)"
proof -
  from assms obtain a b c d where bs: "bs = [a, b, c, d]" by (auto simp: length_eq_4)
  have s: "string4 bs = dec (unat a) @ CHR ''.'' # dec (unat b) @ CHR ''.'' # dec (unat c) @ CHR ''.'' # dec (unat d)"
    by (simp add: string4_def bs)
  have "scan_kind (string4 bs) = Some (CHR ''.'')"
    by (simp add: s scan_kind_append scan_kind_dec)
  moreover have "ipv4_fields None 0 0 [] (string4 bs) = Some [a, b, c, d]"
    using ipv4_fields_dec [of "unat d" _ _ "[]"] by (simp add: s ipv4_fields_dot)
  ultimately show ?thesis by (simp add: ParseAddr_def parseIPv4_def bs)
qed

lemma ParseAddrPort_v4:
  assumes "length bs = 4"
  shows "ParseAddrPort (AddrPort_String (AddrPortFrom (Addr4 bs) p)) = Some (AddrPortFrom (Addr4 bs) p)"
proof -
  have nd: "CHR '':'' \<notin> set (dec n)" for n using dec_digits by (force simp: is_digit_def)
  have hd4: "string4 bs \<noteq> [] \<and> hd (string4 bs) \<noteq> CHR ''[''"
  proof -
    from assms obtain a r where "bs = a # r" by (cases bs) auto
    moreover have "hd (dec (unat a)) \<noteq> CHR ''[''"
      using dec_digits [of "hd (dec (unat a))" "unat a"] by (auto simp: is_digit_def)
    ultimately show ?thesis by (cases r) (auto simp: string4_def)
  qed
  have "splitAddrPort (string4 bs @ '':'' @ dec (unat p)) = Some (string4 bs, dec (unat p), False)"
    using hd4 by (simp add: splitAddrPort_def CutLast_append nd)
  moreover have "unat p < 2 ^ 16" using unsigned_less [of p] by simp
  ultimately show ?thesis
    by (simp add: ParseAddrPort_def AddrPort_String_def uint_opt_dec ParseAddr_string4 assms)
qed


text \<open>Evaluation of the parsers on concrete IPv4 texts.\<close>

lemmas netip_eval = CutLast_def uint_opt_def ParseUint_def is_digit_def digit_val_def ParseAddr_def parseIPv4_def
  v4_loopback_def

end
