(* ===== verification/Service_Conflict.thy ===== *)
theory Service_Conflict
  imports Netip
begin

text \<open>
  Conflict detection (\<open>internal/service/conflict.go\<close>): which adapter of the machine holds
  one of the tunnel's own addresses.
\<close>

record hostAddress =
  h_Adapter :: string
  h_Addr :: Addr

text \<open>
  What \<open>net.Interfaces\<close> reports: the name of an interface, whether it is up, and the
  result of \<open>Addrs\<close>, whose elements are IP networks or something else.
\<close>

datatype ifc_addr = IPNet "byte list" | OtherAddr

record net_interface =
  ni_Name :: string
  ni_Up :: bool
  ni_Addrs :: "ifc_addr list option"

fun ifc_addresses :: "string \<Rightarrow> ifc_addr list \<Rightarrow> hostAddress list" where
  "ifc_addresses name [] = []"
| "ifc_addresses name (OtherAddr # as) = ifc_addresses name as"
| "ifc_addresses name (IPNet ip # as) =
     (case AddrFromSlice ip of
        None \<Rightarrow> ifc_addresses name as
      | Some a \<Rightarrow> \<lparr>h_Adapter = name, h_Addr = Unmap a\<rparr> # ifc_addresses name as)"

fun systemHostAddresses :: "net_interface list \<Rightarrow> hostAddress list" where
  "systemHostAddresses [] = []"
| "systemHostAddresses (i # is) =
     (if \<not> ni_Up i then systemHostAddresses is
      else (case ni_Addrs i of
          None \<Rightarrow> systemHostAddresses is
        | Some as \<Rightarrow> ifc_addresses (ni_Name i) as @ systemHostAddresses is))"

fun host_with :: "Addr \<Rightarrow> hostAddress list \<Rightarrow> hostAddress option" where
  "host_with want [] = None"
| "host_with want (h # hs) = (if h_Addr h = want then Some h else host_with want hs)"

fun configConflict :: "Prefix list \<Rightarrow> hostAddress list \<Rightarrow> hostAddress option" where
  "configConflict [] host = None"
| "configConflict (p # ps) host =
     (let want = Unmap (px_addr p) in
      if \<not> IsValid want \<or> IsUnspecified want \<or> IsLoopback want then configConflict ps host
      else (case host_with want host of
          Some h \<Rightarrow> Some h
        | None \<Rightarrow> configConflict ps host))"

section \<open>What a conflict is\<close>

text \<open>The addresses of the tunnel that identify it on the machine.\<close>

definition own_addresses :: "Prefix list \<Rightarrow> Addr set" where
  "own_addresses ps = {a. \<exists>p\<in>set ps. a = Unmap (px_addr p) \<and> IsValid a \<and> \<not> IsUnspecified a \<and> \<not> IsLoopback a}"

lemma host_with_iff: "host_with want hs = None \<longleftrightarrow> want \<notin> h_Addr ` set hs"
  by (induction hs) auto

lemma host_with_Some: "host_with want hs = Some h \<Longrightarrow> h \<in> set hs \<and> h_Addr h = want"
  by (induction hs) (auto split: if_splits)

lemma own_addresses_Cons:
  "own_addresses (p # ps) =
     (let want = Unmap (px_addr p) in
      if \<not> IsValid want \<or> IsUnspecified want \<or> IsLoopback want then own_addresses ps else insert want (own_addresses ps))"
  by (auto simp: own_addresses_def Let_def)

lemma configConflict_None: "configConflict ps host = None \<longleftrightarrow> own_addresses ps \<inter> h_Addr ` set host = {}"
proof (induction ps)
  case (Cons p ps)
  then show ?case
    using host_with_iff [of "Unmap (px_addr p)" host]
    by (cases "host_with (Unmap (px_addr p)) host") (auto simp: own_addresses_Cons Let_def simp del: image_iff)
qed (simp add: own_addresses_def)

lemma configConflict_Some:
  "configConflict ps host = Some h \<Longrightarrow> h \<in> set host \<and> h_Addr h \<in> own_addresses ps"
  by (induction ps) (auto simp: own_addresses_Cons Let_def split: option.splits if_splits dest!: host_with_Some)

lemma systemHostAddresses_unmapped:
  "h \<in> set (systemHostAddresses is) \<Longrightarrow>
     \<exists>i as ip a. i \<in> set is \<and> ni_Up i \<and> ni_Addrs i = Some as \<and> IPNet ip \<in> set as \<and> AddrFromSlice ip = Some a \<and>
       h = \<lparr>h_Adapter = ni_Name i, h_Addr = Unmap a\<rparr>"
proof (induction "is")
  case (Cons i "is")
  have "h \<in> set (ifc_addresses name as) \<Longrightarrow>
      \<exists>ip a. IPNet ip \<in> set as \<and> AddrFromSlice ip = Some a \<and> h = \<lparr>h_Adapter = name, h_Addr = Unmap a\<rparr>" for name as
    by (induction name as rule: ifc_addresses.induct) (auto split: option.splits)
  with Cons show ?case by (fastforce split: if_splits option.splits)
qed simp

end
