(* ===== verification/Awg_Errors.thy ===== *)
theory Awg_Errors
  imports Netip
begin

text \<open>
  Go error values, as far as the program inspects them: which sentinels
  \<open>errors.Is\<close> finds in the chain, the \<open>net.DNSError\<close> \<open>errors.As\<close> finds, whether a
  \<open>Timeout()\<close> method in the chain answers true, and the text of \<open>Error()\<close>. A
  \<open>nil\<close> error is \<open>None\<close> of \<open>goerr option\<close>.
\<close>

datatype sentinel =
    ErrTunnelDown | ErrNotReady | ErrNoDNS | ErrNoRoute
  | DeadlineExceeded | Canceled

record dns_error =
  de_notfound :: bool
  de_timeout :: bool
  de_err :: string

record goerr =
  e_chain :: "sentinel list"
  e_dns :: "dns_error option"
  e_timeout :: bool
  e_msg :: string

definition errors_New :: "string \<Rightarrow> goerr" where
  "errors_New msg = \<lparr>e_chain = [], e_dns = None, e_timeout = False, e_msg = msg\<rparr>"

text \<open>\<open>fmt.Errorf("prefix%w", err)\<close>: the chain of \<open>err\<close> under a longer text.\<close>

definition Errorf_w :: "string \<Rightarrow> goerr \<Rightarrow> goerr" where
  "Errorf_w pre e = e\<lparr>e_msg := pre @ e_msg e\<rparr>"

definition errors_Is :: "goerr \<Rightarrow> sentinel \<Rightarrow> bool" where
  "errors_Is e s \<longleftrightarrow> s \<in> set (e_chain e)"

lemma errors_Is_wrap [simp]: "errors_Is (Errorf_w p e) s = errors_Is e s"
  by (simp add: Errorf_w_def errors_Is_def)

lemma errors_Is_New [simp]: "\<not> errors_Is (errors_New m) s"
  by (simp add: errors_New_def errors_Is_def)

fun sentinel_msg :: "sentinel \<Rightarrow> string" where
  "sentinel_msg ErrTunnelDown = ''the AmneziaWG tunnel is not running''"
| "sentinel_msg ErrNotReady = ''the AmneziaWG handshake has not completed''"
| "sentinel_msg ErrNoDNS = ''the configuration names no DNS server, so a hostname cannot be resolved inside the tunnel''"
| "sentinel_msg ErrNoRoute = ''the tunnel carries no address of that family''"
| "sentinel_msg DeadlineExceeded = ''context deadline exceeded''"
| "sentinel_msg Canceled = ''context canceled''"

definition sentinel_err :: "sentinel \<Rightarrow> goerr" where
  "sentinel_err s = \<lparr>e_chain = [s], e_dns = None, e_timeout = (s = DeadlineExceeded), e_msg = sentinel_msg s\<rparr>"

lemma errors_Is_sentinel [simp]: "errors_Is (sentinel_err s) t \<longleftrightarrow> t = s"
  by (auto simp: sentinel_err_def errors_Is_def)

end
