(* ===== verification/Awg_Stats.thy ===== *)
theory Awg_Stats
  imports Awg_Errors
begin

text \<open>
  Reading the state of the device (\<open>internal/awg/stats.go\<close>): the UAPI document as
  text and the statistics made of it, without the secrets.
\<close>

text \<open>Times are nanoseconds since 1970; \<open>None\<close> is the zero \<open>time.Time\<close>.\<close>

record PeerStats =
  ps_PublicKey :: string
  ps_Endpoint :: string
  ps_LastHandshake :: "int option"
  ps_TxBytes :: nat
  ps_RxBytes :: nat
  ps_Keepalive :: string
  ps_AllowedIPs :: "string list"

record awg_Stats =
  as_ListenPort :: int
  as_AWGParams :: "string \<rightharpoonup> string"
  as_Peers :: "PeerStats list"
  as_Endpoint :: string
  as_LastHandshake :: "int option"
  as_TxBytes :: nat
  as_RxBytes :: nat

definition secretUAPIKeys :: "string list" where
  "secretUAPIKeys = [''private_key'', ''preshared_key'', ''header_protection_key'']"

definition awgUAPIKeys :: "string list" where
  "awgUAPIKeys = [''jc'', ''jmin'', ''jmax'', ''s1'', ''s2'', ''s3'', ''s4'', ''h1'', ''h2'', ''h3'', ''h4'',
     ''i1'', ''i2'', ''i3'', ''i4'', ''i5'', ''content_padding_addition'', ''rekey_after_time'', ''rekey_timeout'',
     ''reject_after_time'', ''keepalive_timeout'', ''max_handshake_attempts'', ''random_trailers'', ''disable_cookies'']"

section \<open>Parsing\<close>

record uapi_st =
  x_port :: int
  x_params :: "string \<rightharpoonup> string"
  x_peers :: "PeerStats list"
  x_cur :: "PeerStats option"
  x_sec :: int
  x_nsec :: int

definition newPeer :: "string \<Rightarrow> PeerStats" where
  "newPeer k = \<lparr>ps_PublicKey = k, ps_Endpoint = [], ps_LastHandshake = None, ps_TxBytes = 0, ps_RxBytes = 0,
     ps_Keepalive = [], ps_AllowedIPs = []\<rparr>"

definition uapi_flush :: "uapi_st \<Rightarrow> uapi_st" where
  "uapi_flush st =
     (case x_cur st of
        None \<Rightarrow> st
      | Some c \<Rightarrow>
          (let c' = (if x_sec st > 0 \<or> x_nsec st > 0
                     then c\<lparr>ps_LastHandshake := Some (x_sec st * 1000000000 + x_nsec st)\<rparr> else c)
           in st\<lparr>x_peers := x_peers st @ [c'], x_cur := None, x_sec := 0, x_nsec := 0\<rparr>))"

definition on_cur :: "(PeerStats \<Rightarrow> PeerStats) \<Rightarrow> uapi_st \<Rightarrow> uapi_st" where
  "on_cur f st = st\<lparr>x_cur := map_option f (x_cur st)\<rparr>"

text \<open>The value of a number is kept also when parsing it reports an error.\<close>

definition uapi_key :: "string \<Rightarrow> string \<Rightarrow> uapi_st \<Rightarrow> string + uapi_st" where
  "uapi_key key value st =
     (if key = ''errno'' then (if value \<noteq> ''0'' then Inl value else Inr st)
      else if key = ''listen_port'' then Inr (st\<lparr>x_port := snd (Atoi value)\<rparr>)
      else if key = ''public_key'' then Inr ((uapi_flush st)\<lparr>x_cur := Some (newPeer value)\<rparr>)
      else if key = ''endpoint'' then Inr (on_cur (\<lambda>c. c\<lparr>ps_Endpoint := value\<rparr>) st)
      else if key = ''last_handshake_time_sec'' then Inr (st\<lparr>x_sec := snd (ParseInt value)\<rparr>)
      else if key = ''last_handshake_time_nsec'' then Inr (st\<lparr>x_nsec := snd (ParseInt value)\<rparr>)
      else if key = ''tx_bytes'' then Inr (on_cur (\<lambda>c. c\<lparr>ps_TxBytes := snd (ParseUint value 64)\<rparr>) st)
      else if key = ''rx_bytes'' then Inr (on_cur (\<lambda>c. c\<lparr>ps_RxBytes := snd (ParseUint value 64)\<rparr>) st)
      else if key = ''persistent_keepalive_interval'' then Inr (on_cur (\<lambda>c. c\<lparr>ps_Keepalive := value\<rparr>) st)
      else if key = ''allowed_ip'' then Inr (on_cur (\<lambda>c. c\<lparr>ps_AllowedIPs := ps_AllowedIPs c @ [value]\<rparr>) st)
      else if key \<in> set awgUAPIKeys then Inr (st\<lparr>x_params := (x_params st)(key \<mapsto> value)\<rparr>)
      else Inr st)"

definition uapi_line :: "string \<Rightarrow> uapi_st \<Rightarrow> string + uapi_st" where
  "uapi_line raw st =
     (let line = TrimSpace raw in
      if line = [] then Inr st
      else (case Cut (CHR ''='') line of
          None \<Rightarrow> Inr st
        | Some (key, value) \<Rightarrow>
            if key \<in> set secretUAPIKeys then Inr st else uapi_key key value st))"

fun uapi_lines :: "string list \<Rightarrow> uapi_st \<Rightarrow> string + uapi_st" where
  "uapi_lines [] st = Inr st"
| "uapi_lines (l # ls) st = rbind (uapi_line l st) (uapi_lines ls)"

definition uapi_init :: uapi_st where
  "uapi_init = \<lparr>x_port = 0, x_params = Map.empty, x_peers = [], x_cur = None, x_sec = 0, x_nsec = 0\<rparr>"

definition uapi_result :: "uapi_st \<Rightarrow> awg_Stats" where
  "uapi_result st0 =
     (let st = uapi_flush st0;
          s = \<lparr>as_ListenPort = x_port st, as_AWGParams = x_params st, as_Peers = x_peers st, as_Endpoint = [],
               as_LastHandshake = None, as_TxBytes = 0, as_RxBytes = 0\<rparr>
      in case x_peers st of
           [] \<Rightarrow> s
         | p # _ \<Rightarrow> s\<lparr>as_Endpoint := ps_Endpoint p, as_LastHandshake := ps_LastHandshake p,
                      as_TxBytes := ps_TxBytes p, as_RxBytes := ps_RxBytes p\<rparr>)"

text \<open>An \<open>errno\<close> line other than zero is the only error; it is returned with its value.\<close>

definition parseUAPIGet :: "string \<Rightarrow> string + awg_Stats" where
  "parseUAPIGet raw =
     rbind (uapi_lines (split_on (CHR 0x0A) raw) uapi_init) (\<lambda>st. Inr (uapi_result st))"

section \<open>No secret is read\<close>

definition secret_line :: "string \<Rightarrow> bool" where
  "secret_line l \<longleftrightarrow> (case Cut (CHR ''='') (TrimSpace l) of None \<Rightarrow> False | Some (k, _) \<Rightarrow> k \<in> set secretUAPIKeys)"

text \<open>The document without its secret lines.\<close>

definition without_secrets :: "string \<Rightarrow> string" where
  "without_secrets raw = Join [CHR 0x0A] (filter (\<lambda>l. \<not> secret_line l) (split_on (CHR 0x0A) raw))"

lemma uapi_line_secret: "secret_line l \<Longrightarrow> uapi_line l st = Inr st"
  by (auto simp: secret_line_def uapi_line_def Let_def split: option.splits)

lemma uapi_lines_filter: "uapi_lines (filter (\<lambda>l. \<not> secret_line l) ls) st = uapi_lines ls st"
proof (induction ls arbitrary: st)
  case (Cons l ls)
  show ?case
  proof (cases "secret_line l")
    case True
    with Cons.IH show ?thesis by (simp add: uapi_line_secret)
  next
    case False
    then show ?thesis by (cases "uapi_line l st") (simp_all add: Cons.IH)
  qed
qed simp

lemma uapi_empty_line: "uapi_lines [[]] st = Inr st"
  by (simp add: uapi_line_def TrimSpace_def)

text \<open>
  no secret leaves the device through the statistics. The result is a function of
  the document without its \<open>private_key\<close>, \<open>preshared_key\<close> and \<open>header_protection_key\<close>
  lines: documents that differ only in these give the same statistics, or the same
  error.
\<close>

theorem stats_ignore_secrets: "parseUAPIGet raw = parseUAPIGet (without_secrets raw)"
proof -
  let ?ls = "filter (\<lambda>l. \<not> secret_line l) (split_on (CHR 0x0A) raw)"
  have "\<forall>l\<in>set ?ls. CHR 0x0A \<notin> set l" by (auto dest: split_on_no_sep_in)
  then have "split_on (CHR 0x0A) (without_secrets raw) = (if ?ls = [] then [[]] else ?ls)"
    unfolding without_secrets_def by (rule split_on_Join_lines)
  then have "uapi_lines (split_on (CHR 0x0A) (without_secrets raw)) uapi_init = uapi_lines ?ls uapi_init"
    using uapi_empty_line by (auto split: if_splits)
  then show ?thesis unfolding parseUAPIGet_def by (simp only: uapi_lines_filter)
qed

end
