(* ===== verification/Config_Params.thy ===== *)
theory Config_Params
  imports Awg_Errors
begin

text \<open>
  The keys a tunnel configuration may have and the syntax of their values
  (\<open>internal/config/params.go\<close> and the value helpers of \<open>internal/config/tunnel.go\<close>).
  Errors are values of \<open>cfg_err\<close>, one constructor per message of the code.
\<close>

section \<open>The policy tables\<close>

datatype paramKind =
  kindOther | kindUint16 | kindRangeU32 | kindRangeU16 | kindBool | kindKeyBase64 | kindObfChain

record supportedParam =
  sp_kind :: paramKind
  sp_awg :: bool

definition param :: "paramKind \<Rightarrow> supportedParam" where
  "param k = \<lparr>sp_kind = k, sp_awg = False\<rparr>"

definition awg_param :: "paramKind \<Rightarrow> supportedParam" where
  "awg_param k = \<lparr>sp_kind = k, sp_awg = True\<rparr>"

definition interfaceTable :: "(string \<times> supportedParam) list" where
  "interfaceTable =
    [(''privatekey'', param kindKeyBase64), (''listenport'', param kindUint16), (''mtu'', param kindOther),
     (''address'', param kindOther), (''dns'', param kindOther), (''table'', param kindOther),
     (''jc'', awg_param kindUint16), (''jmin'', awg_param kindUint16), (''jmax'', awg_param kindUint16),
     (''s1'', awg_param kindUint16), (''s2'', awg_param kindUint16), (''s3'', awg_param kindUint16),
     (''s4'', awg_param kindUint16),
     (''h1'', awg_param kindRangeU32), (''h2'', awg_param kindRangeU32), (''h3'', awg_param kindRangeU32),
     (''h4'', awg_param kindRangeU32),
     (''i1'', awg_param kindObfChain), (''i2'', awg_param kindObfChain), (''i3'', awg_param kindObfChain),
     (''i4'', awg_param kindObfChain), (''i5'', awg_param kindObfChain),
     (''headerprotectionkey'', awg_param kindKeyBase64), (''contentpaddingaddition'', awg_param kindRangeU16),
     (''rekeyaftertime'', awg_param kindRangeU16), (''rekeytimeout'', awg_param kindRangeU16),
     (''rejectaftertime'', awg_param kindRangeU16), (''keepalivetimeout'', awg_param kindRangeU16),
     (''maxhandshakeattempts'', awg_param kindRangeU16),
     (''randomtrailers'', awg_param kindBool), (''disablecookies'', awg_param kindBool)]"

definition interfaceParams :: "string \<Rightarrow> supportedParam option" where
  "interfaceParams k = map_of interfaceTable k"

definition peerParams :: "string \<Rightarrow> supportedParam option" where
  "peerParams k = map_of
    [(''publickey'', param kindKeyBase64), (''presharedkey'', param kindKeyBase64), (''allowedips'', param kindOther),
     (''persistentkeepalive'', param kindOther), (''endpoint'', param kindOther)] k"

definition scriptHookKeys :: "string list" where
  "scriptHookKeys = [''preup'', ''postup'', ''predown'', ''postdown'']"

definition emptyValueAllowed :: "string list" where
  "emptyValueAllowed = [''i1'', ''i2'', ''i3'', ''i4'', ''i5'', ''headerprotectionkey'', ''contentpaddingaddition'',
     ''rekeyaftertime'', ''rekeytimeout'', ''rejectaftertime'', ''keepalivetimeout'', ''maxhandshakeattempts'',
     ''randomtrailers'', ''disablecookies'']"

datatype generation = Gen3 | Gen15 | Gen1 | PlainWireGuard

definition awgGeneration :: "string list \<Rightarrow> generation" where
  "awgGeneration keys =
     (let has = (\<lambda>names. \<exists>n\<in>set names. n \<in> set keys) in
      if has [''i1'', ''i2'', ''i3'', ''i4'', ''i5'', ''headerprotectionkey'', ''contentpaddingaddition'',
              ''rekeyaftertime'', ''rekeytimeout'', ''rejectaftertime'', ''keepalivetimeout'',
              ''maxhandshakeattempts'', ''randomtrailers'', ''disablecookies'']
      then Gen3
      else if has [''s3'', ''s4''] then Gen15
      else if has [''jc'', ''jmin'', ''jmax'', ''s1'', ''s2'', ''h1'', ''h2'', ''h3'', ''h4''] then Gen1
      else PlainWireGuard)"

definition normalizeKey :: "string \<Rightarrow> string" where
  "normalizeKey k = ToLower (TrimSpace k)"

section \<open>Errors\<close>

datatype range_err = MalformedRange | BadLower string | BadUpper string | RangeOrder nat nat

datatype list_err = EmptyElement | BadCIDR string | BadPrefixLen string | BadIP string | BadDNSEntry string

datatype endpoint_err =
  PortMissing | BadPort string | HostEmpty | NoClosingBracket | BadIPv6 string | Unbracketed | BadHost string

datatype key_err = KeyBase64 | KeyLength nat

section \<open>Value syntax\<close>

definition ParseUintRange :: "string \<Rightarrow> nat \<Rightarrow> range_err + nat \<times> nat" where
  "ParseUintRange s bits =
     (case split_on (CHR ''-'') (TrimSpace s) of
        [a] \<Rightarrow>
          (case uint_opt (TrimSpace a) bits of
             None \<Rightarrow> Inl (BadLower a)
           | Some lo \<Rightarrow> Inr (lo, lo))
      | [a, b] \<Rightarrow>
          (case uint_opt (TrimSpace a) bits of
             None \<Rightarrow> Inl (BadLower a)
           | Some lo \<Rightarrow>
               (case uint_opt (TrimSpace b) bits of
                  None \<Rightarrow> Inl (BadUpper b)
                | Some hi \<Rightarrow> if hi < lo then Inl (RangeOrder hi lo) else Inr (lo, hi)))
      | _ \<Rightarrow> Inl MalformedRange)"

definition ParseAWGBool :: "string \<Rightarrow> bool option" where
  "ParseAWGBool s =
     (let v = ToLower (TrimSpace s) in
      if v \<in> set [''on'', ''1'', ''true'', ''t'', ''yes''] then Some True
      else if v \<in> set [''off'', ''0'', ''false'', ''f'', ''no''] then Some False
      else None)"

definition validateBase64Key :: "string \<Rightarrow> key_err + unit" where
  "validateBase64Key s =
     (case DecodeBase64 s of
        None \<Rightarrow> Inl KeyBase64
      | Some decoded \<Rightarrow> if length decoded \<noteq> 32 then Inl (KeyLength (length decoded)) else Inr ())"

definition validateCIDR :: "string \<Rightarrow> list_err + unit" where
  "validateCIDR raw =
     (let part = TrimSpace raw in
      if part = [] then Inl EmptyElement
      else if CHR ''/'' \<in> set part then
        (case ParsePrefix part of
           None \<Rightarrow> Inl (BadCIDR part)
         | Some p \<Rightarrow>
             if Is4 (px_addr p) \<and> (case px_bits p of Some n \<Rightarrow> n > 32 | None \<Rightarrow> False)
             then Inl (BadPrefixLen part) else Inr ())
      else (case ParseAddr part of None \<Rightarrow> Inl (BadIP part) | Some _ \<Rightarrow> Inr ()))"

definition validateCIDRList :: "string \<Rightarrow> list_err + unit" where
  "validateCIDRList s = each validateCIDR (split_on (CHR '','') s)"

definition validateDNS :: "string \<Rightarrow> list_err + unit" where
  "validateDNS raw =
     (let part = TrimSpace raw in
      if part = [] then Inl EmptyElement
      else (case ParseAddr part of
          Some _ \<Rightarrow> Inr ()
        | None \<Rightarrow> if ContainsAny part [CHR '' '', CHR 0x09] then Inl (BadDNSEntry part) else Inr ()))"

definition validateDNSList :: "string \<Rightarrow> list_err + unit" where
  "validateDNSList s = each validateDNS (split_on (CHR '','') s)"

text \<open>\<open>LastIndexByte(inner, '%')\<close> above zero: the zone is cut off, unless the text starts with it.\<close>

definition drop_zone :: "string \<Rightarrow> string" where
  "drop_zone inner =
     (case CutLast (CHR ''%'') inner of
        Some (h, _) \<Rightarrow> if h \<noteq> [] then h else inner
      | None \<Rightarrow> inner)"

definition validateEndpoint :: "string \<Rightarrow> endpoint_err + unit" where
  "validateEndpoint s =
     (case CutLast (CHR '':'') s of
        None \<Rightarrow> Inl PortMissing
      | Some (host, portStr) \<Rightarrow>
          if (case uint_opt portStr 16 of None \<Rightarrow> True | Some port \<Rightarrow> port = 0) then Inl (BadPort portStr)
          else if host = [] then Inl HostEmpty
          else if HasPrefix host ''['' then
            (if \<not> HasSuffix host '']'' then Inl NoClosingBracket
             else
               (let inner = drop_zone (butlast (tl host)) in
                case ParseAddr inner of None \<Rightarrow> Inl (BadIPv6 inner) | Some _ \<Rightarrow> Inr ()))
          else if CHR '':'' \<in> set host then Inl Unbracketed
          else (case ParseAddr host of
              Some _ \<Rightarrow> Inr ()
            | None \<Rightarrow>
                if length host > 253 \<or> ContainsAny host [CHR '' '', CHR 0x09, CHR ''/'', CHR 0x5C]
                then Inl (BadHost host) else Inr ()))"

section \<open>MTU\<close>

definition DefaultMTU :: int where "DefaultMTU = 1420"
definition MinSafeMTU :: int where "MinSafeMTU = 1280"

definition SafeMTU :: "int \<Rightarrow> int \<Rightarrow> int" where
  "SafeMTU s4 contentPaddingMax =
     (let mtu = DefaultMTU - s4 - contentPaddingMax in
      if mtu < MinSafeMTU then MinSafeMTU else mtu)"

section \<open>Properties\<close>

text \<open>
  The size on the path of a full packet: the tunnel packet with 32 bytes of transport
  overhead and the obfuscation, in UDP (8) over IPv6 (40).
\<close>

definition outer_size :: "int \<Rightarrow> int \<Rightarrow> int \<Rightarrow> int" where
  "outer_size mtu s4 padding = 40 + 8 + 32 + s4 + padding + mtu"

text \<open>
  \<open>SafeMTU\<close> is exact as long as the obfuscation takes at most 140 bytes: packets
  of that MTU fit a 1500 byte path with any padding up to the bound, and one byte
  more does not. Beyond 140 bytes the floor of 1280 wins and a full packet does not
  fit the path.
\<close>

theorem SafeMTU_exact:
  "(s4 + cpa \<le> 140 \<longrightarrow> outer_size (SafeMTU s4 cpa) s4 cpa = 1500) \<and>
   (s4 + cpa > 140 \<longrightarrow> SafeMTU s4 cpa = 1280 \<and> outer_size (SafeMTU s4 cpa) s4 cpa > 1500)"
  by (simp add: SafeMTU_def outer_size_def DefaultMTU_def MinSafeMTU_def Let_def)

theorem SafeMTU_exact_witness:
  "outer_size (SafeMTU 43 0) 43 0 = 1500 \<and> SafeMTU 43 0 = 1377 \<and> outer_size (SafeMTU 200 0) 200 0 > 1500"
  using SafeMTU_exact [of 43 0] SafeMTU_exact [of 200 0]
  by (simp add: SafeMTU_def DefaultMTU_def MinSafeMTU_def)

lemma ParseUintRange_bounds:
  "ParseUintRange s bits = Inr (lo, hi) \<Longrightarrow> lo \<le> hi \<and> hi < 2 ^ bits"
  by (auto simp: ParseUintRange_def dest!: uint_opt_bound split: list.splits option.splits if_splits)

lemma plain_dec: "plain (hd (dec n))" "plain (last (dec n))"
  using dec_digits [of "hd (dec n)" n] dec_digits [of "last (dec n)" n] by (auto intro: digit_plain)

lemma TrimSpace_dec [simp]: "TrimSpace (dec n) = dec n"
  by (intro TrimSpace_plain) (auto simp: plain_dec)

lemma TrimSpace_range [simp]: "TrimSpace (dec lo @ CHR ''-'' # dec hi) = dec lo @ CHR ''-'' # dec hi"
  by (intro TrimSpace_plain) (auto simp: plain_dec)

lemma dash_not_dec: "CHR ''-'' \<notin> set (dec n)"
  using dec_digits [of "CHR ''-''" n] by (auto simp: is_digit_def)

text \<open>
  the range syntax round trips. A printed pair of numbers that fit the width
  parses to exactly that pair when it is in order, a printed single number parses to
  the range of that number alone, and a pair out of order is refused.
\<close>

theorem ParseUintRange_print:
  assumes "lo < 2 ^ bits" and "hi < 2 ^ bits"
  shows "ParseUintRange (dec lo @ ''-'' @ dec hi) bits = (if lo \<le> hi then Inr (lo, hi) else Inl (RangeOrder hi lo)) \<and>
    ParseUintRange (dec lo) bits = Inr (lo, lo)"
  using assms dash_not_dec
  by (simp add: ParseUintRange_def split_on_append_sep split_on_no_sep uint_opt_dec)

theorem ParseUintRange_print_witness:
  "ParseUintRange (dec 5 @ ''-'' @ dec 4294967295) 32 = Inr (5, 4294967295)"
  using ParseUintRange_print [of 5 32 4294967295] by simp

end
