(* ===== verification/Config_Scan.thy ===== *)
theory Config_Scan
  imports Config_Params
begin

text \<open>
  The structural scan of a tunnel configuration and the strict validation in front
  of the upstream parser (\<open>scanConfig\<close>, \<open>validateScan\<close>, \<open>validateValue\<close> and
  \<open>validateInterfaceSemantics\<close> of \<open>internal/config/tunnel.go\<close>).
\<close>

section \<open>Data\<close>

record kv =
  k_key :: string
  k_value :: string
  k_line :: nat

text \<open>\<open>interfaceKeys\<close> of the code is the set of the keys of \<open>iface\<close>, which it is built with.\<close>

record configScan =
  cs_iface :: "kv list"
  cs_peers :: "kv list list"

definition interfaceKeys :: "configScan \<Rightarrow> string list" where
  "interfaceKeys s = map k_key (cs_iface s)"

datatype cfg_err =
    UnknownSection nat string | OutsideSection nat string | NoEquals nat string | NoInterface
  | HookKey nat string | UnsupportedParam nat string | Duplicate nat string nat | NoValue nat string
  | UnsupportedPeerParam nat string | DuplicatePeer nat nat string
  | BadUint16 nat string string | BadRange nat string string range_err | BadBool nat string string
  | BadKey nat string key_err | BadAddress nat list_err | BadAllowedIPs nat list_err | BadDNS nat list_err
  | BadEndpoint nat string endpoint_err | BadKeepalive nat string | BadMTU nat string | TableUnsupported nat string
  | JminJmaxMissing | JminAboveJmax nat nat | JmaxZero
  | HeaderOverlap string nat nat string nat nat | PrefixTooSmall string string

datatype warning =
    WarnRangeU16 nat string string | WarnJunkUnused | WarnHeadersMissing "string list"
  | WarnMTULowered int int int | WarnMTUHigh int int
  | WarnLocalDNS "Addr list" | WarnDNSIgnored "Addr list" | WarnDNSSearch "string list" | WarnNoDNS | WarnPeers nat

section \<open>Scanning\<close>

datatype sect = NoSection | InInterface | InPeer

record scan_st =
  sc_iface :: "kv list"
  sc_peers :: "kv list list"
  sc_section :: sect
  sc_current :: "kv list"

definition flushPeer :: "scan_st \<Rightarrow> scan_st" where
  "flushPeer st =
     st\<lparr>sc_peers := (if sc_section st = InPeer then sc_peers st @ [sc_current st] else sc_peers st),
        sc_current := []\<rparr>"

text \<open>The regular expression for a section header: \<open>^\[(.+)\]$\<close>.\<close>

definition sectionRe :: "string \<Rightarrow> string option" where
  "sectionRe line =
     (if length line \<ge> 3 \<and> hd line = CHR ''['' \<and> last line = CHR '']'' then Some (butlast (tl line)) else None)"

definition scan_line :: "nat \<Rightarrow> string \<Rightarrow> scan_st \<Rightarrow> cfg_err + scan_st" where
  "scan_line lineNo raw st =
     (let line = TrimSpace (takeWhile (\<lambda>c. c \<noteq> CHR ''#'') raw) in
      if line = [] then Inr st
      else (case sectionRe line of
          Some m \<Rightarrow>
            (let name = ToLower (TrimSpace m) in
             if name = ''interface'' then Inr ((flushPeer st)\<lparr>sc_section := InInterface\<rparr>)
             else if name = ''peer'' then Inr ((flushPeer st)\<lparr>sc_section := InPeer\<rparr>)
             else Inl (UnknownSection lineNo m))
        | None \<Rightarrow>
            if sc_section st = NoSection then Inl (OutsideSection lineNo line)
            else (case Cut (CHR ''='') line of
                None \<Rightarrow> Inl (NoEquals lineNo line)
              | Some (key, value) \<Rightarrow>
                  (let e = \<lparr>k_key = normalizeKey key, k_value = TrimSpace value, k_line = lineNo\<rparr> in
                   if sc_section st = InInterface then Inr (st\<lparr>sc_iface := sc_iface st @ [e]\<rparr>)
                   else Inr (st\<lparr>sc_current := sc_current st @ [e]\<rparr>)))))"

fun scan_lines :: "nat \<Rightarrow> string list \<Rightarrow> scan_st \<Rightarrow> cfg_err + scan_st" where
  "scan_lines n [] st = Inr st"
| "scan_lines n (l # ls) st = rbind (scan_line n l st) (scan_lines (n + 1) ls)"

definition scan_init :: scan_st where
  "scan_init = \<lparr>sc_iface = [], sc_peers = [], sc_section = NoSection, sc_current = []\<rparr>"

definition scanConfig :: "string \<Rightarrow> cfg_err + configScan" where
  "scanConfig text =
     rbind (scan_lines 1 (split_on (CHR 0x0A) text) scan_init) (\<lambda>st.
       let st' = flushPeer st in
       if sc_iface st' = [] then Inl NoInterface
       else Inr \<lparr>cs_iface = sc_iface st', cs_peers = sc_peers st'\<rparr>)"

section \<open>Validating values\<close>

definition mapErr :: "('e \<Rightarrow> 'f) \<Rightarrow> 'e + 'a \<Rightarrow> 'f + 'a" where
  "mapErr f r = (case r of Inl e \<Rightarrow> Inl (f e) | Inr x \<Rightarrow> Inr x)"

definition validateOther :: "kv \<Rightarrow> cfg_err + unit" where
  "validateOther e =
     (if k_key e = ''address'' then mapErr (BadAddress (k_line e)) (validateCIDRList (k_value e))
      else if k_key e = ''allowedips'' then mapErr (BadAllowedIPs (k_line e)) (validateCIDRList (k_value e))
      else if k_key e = ''dns'' then mapErr (BadDNS (k_line e)) (validateDNSList (k_value e))
      else if k_key e = ''endpoint'' then mapErr (BadEndpoint (k_line e) (k_value e)) (validateEndpoint (k_value e))
      else if k_key e = ''persistentkeepalive'' then
        (if k_value e \<noteq> ''off'' \<and> k_value e \<noteq> ''(off)'' \<and>
            (case uint_opt (k_value e) 64 of None \<Rightarrow> True | Some v \<Rightarrow> v > 65535)
         then Inl (BadKeepalive (k_line e) (k_value e)) else Inr ())
      else if k_key e = ''mtu'' then
        (if (case int_opt (k_value e) of None \<Rightarrow> True | Some v \<Rightarrow> v < 576 \<or> v > 65535)
         then Inl (BadMTU (k_line e) (k_value e)) else Inr ())
      else if k_key e = ''table'' then
        (if ToLower (k_value e) \<noteq> ''off'' then Inl (TableUnsupported (k_line e) (k_value e)) else Inr ())
      else Inr ())"

definition validateValue :: "kv \<Rightarrow> supportedParam \<Rightarrow> cfg_err + warning list" where
  "validateValue e p =
     (case sp_kind p of
        kindUint16 \<Rightarrow>
          if (case uint_opt (k_value e) 64 of None \<Rightarrow> True | Some v \<Rightarrow> v > 65535)
          then Inl (BadUint16 (k_line e) (k_key e) (k_value e)) else Inr []
      | kindRangeU32 \<Rightarrow>
          rbind (mapErr (BadRange (k_line e) (k_key e) (k_value e)) (ParseUintRange (k_value e) 32)) (\<lambda>_. Inr [])
      | kindRangeU16 \<Rightarrow>
          rbind (mapErr (BadRange (k_line e) (k_key e) (k_value e)) (ParseUintRange (k_value e) 32)) (\<lambda>(lo, hi).
            Inr (if hi > 65535 \<or> lo > 65535 then [WarnRangeU16 (k_line e) (k_key e) (k_value e)] else []))
      | kindBool \<Rightarrow>
          (case ParseAWGBool (k_value e) of
             None \<Rightarrow> Inl (BadBool (k_line e) (k_key e) (k_value e)) | Some _ \<Rightarrow> Inr [])
      | kindKeyBase64 \<Rightarrow> rbind (mapErr (BadKey (k_line e) (k_key e)) (validateBase64Key (k_value e))) (\<lambda>_. Inr [])
      | kindObfChain \<Rightarrow> Inr []
      | kindOther \<Rightarrow> rbind (validateOther e) (\<lambda>_. Inr []))"

section \<open>Relations between parameters\<close>

fun kv_get :: "kv list \<Rightarrow> string \<Rightarrow> string option" where
  "kv_get [] key = None"
| "kv_get (e # es) key = (if k_key e = key then (if k_value e \<noteq> [] then Some (k_value e) else None) else kv_get es key)"

definition kv_num :: "kv list \<Rightarrow> string \<Rightarrow> nat option" where
  "kv_num es key = (case kv_get es key of None \<Rightarrow> None | Some v \<Rightarrow> uint_opt v 64)"

definition checkJunk :: "kv list \<Rightarrow> cfg_err + warning list" where
  "checkJunk es =
     (let jc = kv_num es ''jc''; jmin = kv_num es ''jmin''; jmax = kv_num es ''jmax'';
          w = (if (jmin \<noteq> None \<or> jmax \<noteq> None) \<and> (jc = None \<or> jc = Some 0) then [WarnJunkUnused] else [])
      in if jc \<noteq> None \<and> jc \<noteq> Some 0 then
           (case (jmin, jmax) of
              (Some mn, Some mx) \<Rightarrow>
                if mn > mx then Inl (JminAboveJmax mn mx)
                else if mx = 0 then Inl JmaxZero
                else Inr w
            | _ \<Rightarrow> Inl JminJmaxMissing)
         else Inr w)"

type_synonym hdr = "string \<times> nat \<times> nat"

fun headers :: "kv list \<Rightarrow> string list \<Rightarrow> hdr list" where
  "headers es [] = []"
| "headers es (name # ns) =
     (case kv_get es name of
        None \<Rightarrow> headers es ns
      | Some v \<Rightarrow>
          (case ParseUintRange v 32 of
             Inl _ \<Rightarrow> headers es ns
           | Inr (lo, hi) \<Rightarrow> (name, lo, hi) # headers es ns))"

definition overlap :: "hdr \<Rightarrow> hdr \<Rightarrow> bool" where
  "overlap a b \<longleftrightarrow> fst (snd a) \<le> snd (snd b) \<and> fst (snd b) \<le> snd (snd a)"

definition overlap_err :: "hdr \<Rightarrow> hdr \<Rightarrow> cfg_err" where
  "overlap_err a b = HeaderOverlap (fst a) (fst (snd a)) (snd (snd a)) (fst b) (fst (snd b)) (snd (snd b))"

fun checkOverlap :: "hdr list \<Rightarrow> cfg_err + unit" where
  "checkOverlap [] = Inr ()"
| "checkOverlap (a # hs) =
     rbind (each (\<lambda>b. if overlap a b then Inl (overlap_err a b) else Inr ()) hs) (\<lambda>_. checkOverlap hs)"

definition headerNames :: "string list" where
  "headerNames = [''h1'', ''h2'', ''h3'', ''h4'']"

definition headersMissing :: "hdr list \<Rightarrow> warning list" where
  "headersMissing hs =
     (if length hs > 0 \<and> length hs < 4
      then [WarnHeadersMissing (filter (\<lambda>n. n \<notin> fst ` set hs) headerNames)] else [])"

definition headerCipherNonceSize :: nat where "headerCipherNonceSize = 12"

definition checkPrefix :: "kv list \<Rightarrow> string \<Rightarrow> cfg_err + unit" where
  "checkPrefix es name =
     (if (case kv_num es name of None \<Rightarrow> True | Some v \<Rightarrow> v < headerCipherNonceSize)
      then Inl (PrefixTooSmall name (case kv_get es name of None \<Rightarrow> ''unset'' | Some cur \<Rightarrow> cur))
      else Inr ())"

definition checkHeaderProtection :: "kv list \<Rightarrow> cfg_err + unit" where
  "checkHeaderProtection es =
     (if kv_get es ''headerprotectionkey'' \<noteq> None then each (checkPrefix es) [''s1'', ''s2'', ''s3'', ''s4'']
      else Inr ())"

definition validateInterfaceSemantics :: "kv list \<Rightarrow> cfg_err + warning list" where
  "validateInterfaceSemantics es =
     rbind (checkJunk es) (\<lambda>w1.
       let hs = headers es headerNames in
       rbind (checkOverlap hs) (\<lambda>_.
         rbind (checkHeaderProtection es) (\<lambda>_. Inr (w1 @ headersMissing hs))))"

section \<open>Validating the whole scan\<close>

text \<open>
  \<open>seen[key] > 0\<close> of the code is \<open>seen key \<noteq> None\<close> here: the lines it stores are
  numbered from one.
\<close>

fun check_iface :: "(string \<rightharpoonup> nat) \<Rightarrow> kv list \<Rightarrow> cfg_err + warning list" where
  "check_iface seen [] = Inr []"
| "check_iface seen (e # es) =
     (if k_key e \<in> set scriptHookKeys then Inl (HookKey (k_line e) (k_key e))
      else (case interfaceParams (k_key e) of
          None \<Rightarrow> Inl (UnsupportedParam (k_line e) (k_key e))
        | Some p \<Rightarrow>
            (case seen (k_key e) of
               Some l \<Rightarrow> Inl (Duplicate (k_line e) (k_key e) l)
             | None \<Rightarrow>
                 if k_value e = [] then
                   (if k_key e \<notin> set emptyValueAllowed then Inl (NoValue (k_line e) (k_key e))
                    else check_iface (seen(k_key e \<mapsto> k_line e)) es)
                 else
                   rbind (validateValue e p) (\<lambda>w.
                     rbind (check_iface (seen(k_key e \<mapsto> k_line e)) es) (\<lambda>ws. Inr (w @ ws))))))"

fun check_peer :: "nat \<Rightarrow> string list \<Rightarrow> kv list \<Rightarrow> cfg_err + unit" where
  "check_peer pi pseen [] = Inr ()"
| "check_peer pi pseen (e # es) =
     (case peerParams (k_key e) of
        None \<Rightarrow> Inl (UnsupportedPeerParam (k_line e) (k_key e))
      | Some p \<Rightarrow>
          if k_key e \<in> set pseen then Inl (DuplicatePeer (k_line e) (pi + 1) (k_key e))
          else if k_value e = [] then Inl (NoValue (k_line e) (k_key e))
          else rbind (validateValue e p) (\<lambda>_. check_peer pi (k_key e # pseen) es))"

fun check_peers :: "nat \<Rightarrow> kv list list \<Rightarrow> cfg_err + unit" where
  "check_peers pi [] = Inr ()"
| "check_peers pi (p # ps) = rbind (check_peer pi [] p) (\<lambda>_. check_peers (pi + 1) ps)"

definition validateScan :: "configScan \<Rightarrow> cfg_err + warning list" where
  "validateScan s =
     rbind (check_iface Map.empty (cs_iface s)) (\<lambda>w1.
       rbind (validateInterfaceSemantics (cs_iface s)) (\<lambda>w2.
         rbind (check_peers 0 (cs_peers s)) (\<lambda>_. Inr (w1 @ w2))))"


section \<open>What validation guarantees\<close>

lemma mapErr_simps [simp]: "mapErr f (Inl e) = Inl (f e)" "mapErr f (Inr x) = Inr x"
  by (simp_all add: mapErr_def)

lemma mapErr_Inr_iff [simp]: "mapErr f r = Inr x \<longleftrightarrow> r = Inr x"
  by (cases r) (auto simp: mapErr_def)

text \<open>An entry the policy allows: a known key, and a value of its kind or an allowed empty one.\<close>

definition iface_ok :: "kv \<Rightarrow> bool" where
  "iface_ok e \<longleftrightarrow> k_key e \<notin> set scriptHookKeys \<and>
     (\<exists>p. interfaceParams (k_key e) = Some p \<and>
        (if k_value e = [] then k_key e \<in> set emptyValueAllowed else \<exists>w. validateValue e p = Inr w))"

definition peer_ok :: "kv \<Rightarrow> bool" where
  "peer_ok e \<longleftrightarrow> k_value e \<noteq> [] \<and> (\<exists>p w. peerParams (k_key e) = Some p \<and> validateValue e p = Inr w)"

lemma check_iface_ok:
  "check_iface seen es = Inr ws \<Longrightarrow>
     distinct (map k_key es) \<and> (\<forall>e\<in>set es. iface_ok e \<and> seen (k_key e) = None)"
proof (induction es arbitrary: seen ws)
  case (Cons e es)
  then obtain p where p: "k_key e \<notin> set scriptHookKeys" "interfaceParams (k_key e) = Some p" "seen (k_key e) = None"
    by (auto split: if_splits option.splits)
  have ok: "iface_ok e" and "\<exists>ws. check_iface (seen(k_key e \<mapsto> k_line e)) es = Inr ws"
    using Cons.prems p by (auto simp: iface_ok_def rbind_Inr_iff split: if_splits)
  then obtain ws' where "check_iface (seen(k_key e \<mapsto> k_line e)) es = Inr ws'" by blast
  from Cons.IH [OF this] show ?case using ok p by (auto split: if_splits)
qed simp

lemma check_peer_ok:
  "check_peer pi pseen es = Inr () \<Longrightarrow>
     distinct (map k_key es) \<and> (\<forall>e\<in>set es. peer_ok e \<and> k_key e \<notin> set pseen)"
proof (induction pi pseen es rule: check_peer.induct)
  case (2 pi pseen e es)
  then obtain p w where "peerParams (k_key e) = Some p" "k_key e \<notin> set pseen" "k_value e \<noteq> []"
    "validateValue e p = Inr w" "check_peer pi (k_key e # pseen) es = Inr ()"
    by (auto simp: rbind_Inr_iff split: if_splits option.splits)
  with 2(1) show ?case by (auto simp: peer_ok_def)
qed simp

lemma check_peers_ok:
  "check_peers pi ps = Inr () \<Longrightarrow> \<forall>p\<in>set ps. distinct (map k_key p) \<and> (\<forall>e\<in>set p. peer_ok e)"
  by (induction pi ps rule: check_peers.induct) (auto simp: rbind_Inr_iff dest!: check_peer_ok)

lemma validateScan_parts:
  assumes "validateScan s = Inr ws"
  shows "\<exists>w. check_iface Map.empty (cs_iface s) = Inr w" and "\<exists>w. validateInterfaceSemantics (cs_iface s) = Inr w"
    and "check_peers 0 (cs_peers s) = Inr ()"
  using assms by (auto simp: validateScan_def rbind_Inr_iff)

text \<open>
  C36: nothing unknown gets past the scan. In an accepted configuration no key is a
  script hook, every \<open>[Interface]\<close> and \<open>[Peer]\<close> key is one the upstream honours, no
  key occurs twice in a section, and every value has the syntax of its kind, where
  only the keys that may be unset are empty.
\<close>

theorem validateScan_policy:
  assumes "validateScan s = Inr ws"
  shows "distinct (map k_key (cs_iface s)) \<and> (\<forall>e\<in>set (cs_iface s). iface_ok e) \<and>
    (\<forall>p\<in>set (cs_peers s). distinct (map k_key p) \<and> (\<forall>e\<in>set p. peer_ok e))"
  using check_iface_ok check_peers_ok validateScan_parts [OF assms] by blast

definition demo_kv :: "string \<Rightarrow> string \<Rightarrow> nat \<Rightarrow> kv" where
  "demo_kv k v n = \<lparr>k_key = k, k_value = v, k_line = n\<rparr>"

definition demo_scan :: configScan where
  "demo_scan =
     \<lparr>cs_iface = [demo_kv ''jc'' ''4'' 2, demo_kv ''jmin'' ''10'' 3, demo_kv ''jmax'' ''50'' 4,
        demo_kv ''h1'' ''5-9'' 5, demo_kv ''h2'' ''10'' 6, demo_kv ''i1'' [] 7],
      cs_peers = [[demo_kv ''persistentkeepalive'' ''25'' 9]]\<rparr>"

lemmas scan_eval = validateScan_def validateInterfaceSemantics_def checkJunk_def checkHeaderProtection_def kv_num_def
  headerNames_def headersMissing_def scriptHookKeys_def emptyValueAllowed_def interfaceParams_def interfaceTable_def
  peerParams_def param_def awg_param_def validateValue_def validateOther_def uint_opt_def ParseUint_def is_digit_def
  ParseUintRange_def mapErr_def overlap_def demo_kv_def demo_scan_def TrimSpace_def ascii_space_def uspace2_def uspace3_def

lemma demo_scan_ok: "validateScan demo_scan = Inr [WarnHeadersMissing [''h3'', ''h4'']]"
  by (simp add: scan_eval)

theorem validateScan_policy_witness:
  "validateScan demo_scan = Inr [WarnHeadersMissing [''h3'', ''h4'']] \<and> iface_ok (demo_kv ''jmax'' ''50'' 4) \<and>
   peer_ok (demo_kv ''persistentkeepalive'' ''25'' 9)"
  using validateScan_policy [OF demo_scan_ok] demo_scan_ok by (simp add: demo_scan_def)

subsection \<open>Relations\<close>

lemma overlap_sym: "overlap a b \<longleftrightarrow> overlap b a"
  by (auto simp: overlap_def)

lemma checkOverlap_ok:
  "checkOverlap hs = Inr () \<Longrightarrow> a \<in> set hs \<Longrightarrow> b \<in> set hs \<Longrightarrow> a \<noteq> b \<Longrightarrow> \<not> overlap a b"
proof (induction hs)
  case (Cons x hs)
  from Cons.prems(1) have "\<forall>b\<in>set hs. \<not> overlap x b" "checkOverlap hs = Inr ()"
    by (auto simp: rbind_Inr_iff each_Inr_iff split: if_splits)
  with Cons.IH Cons.prems(2-4) show ?case by (metis overlap_sym set_ConsD)
qed simp

lemma headers_in:
  "kv_get es name = Some v \<Longrightarrow> ParseUintRange v 32 = Inr (lo, hi) \<Longrightarrow> name \<in> set ns \<Longrightarrow> (name, lo, hi) \<in> set (headers es ns)"
  by (induction ns) (auto split: option.splits sum.splits)

text \<open>The message type range of a header key, if it is set.\<close>

definition header_range :: "kv list \<Rightarrow> string \<Rightarrow> nat set" where
  "header_range es name =
     (case kv_get es name of
        None \<Rightarrow> {}
      | Some v \<Rightarrow> (case ParseUintRange v 32 of Inl _ \<Rightarrow> {} | Inr (lo, hi) \<Rightarrow> {lo..hi}))"

lemma semantics_ranges:
  assumes ok: "checkOverlap (headers es headerNames) = Inr ()"
    and n: "a \<in> set headerNames" "b \<in> set headerNames" "a \<noteq> b"
  shows "header_range es a \<inter> header_range es b = {}"
proof (cases "\<exists>va vb la ha lb hb. kv_get es a = Some va \<and> kv_get es b = Some vb \<and>
    ParseUintRange va 32 = Inr (la, ha) \<and> ParseUintRange vb 32 = Inr (lb, hb)")
  case True
  then obtain va vb la ha lb hb where g: "kv_get es a = Some va" "kv_get es b = Some vb"
    "ParseUintRange va 32 = Inr (la, ha)" "ParseUintRange vb 32 = Inr (lb, hb)" by blast
  have "\<not> overlap (a, la, ha) (b, lb, hb)"
    using headers_in [OF g(1,3) n(1)] headers_in [OF g(2,4) n(2)] n(3) by (intro checkOverlap_ok [OF ok]) auto
  then show ?thesis using g by (auto simp: header_range_def overlap_def)
next
  case False
  then show ?thesis by (auto simp: header_range_def split: option.splits sum.splits)
qed

text \<open>
  the relations between AmneziaWG parameters hold in an accepted configuration:
  with junk packets on, Jmin and Jmax are set, in order and not zero (upstream
  computes Jmax - Jmin on an unsigned width); the message type ranges H1 to H4 are
  pairwise disjoint; and with header protection on, S1 to S4 are at least as long
  as the nonce.
\<close>

theorem validateScan_relations:
  assumes "validateScan s = Inr ws"
  shows "(\<forall>jc. kv_num (cs_iface s) ''jc'' = Some jc \<longrightarrow> 0 < jc \<longrightarrow>
      (\<exists>mn mx. kv_num (cs_iface s) ''jmin'' = Some mn \<and> kv_num (cs_iface s) ''jmax'' = Some mx \<and> mn \<le> mx \<and> 0 < mx)) \<and>
    (\<forall>a\<in>set headerNames. \<forall>b\<in>set headerNames. a \<noteq> b \<longrightarrow> header_range (cs_iface s) a \<inter> header_range (cs_iface s) b = {}) \<and>
    (kv_get (cs_iface s) ''headerprotectionkey'' \<noteq> None \<longrightarrow>
      (\<forall>n\<in>{''s1'', ''s2'', ''s3'', ''s4''}. \<exists>v. kv_num (cs_iface s) n = Some v \<and> 12 \<le> v))"
proof -
  let ?es = "cs_iface s"
  from validateScan_parts(2) [OF assms] obtain w where w: "validateInterfaceSemantics ?es = Inr w" by blast
  then obtain w1 where j: "checkJunk ?es = Inr w1" and o: "checkOverlap (headers ?es headerNames) = Inr ()"
    and h: "checkHeaderProtection ?es = Inr ()"
    by (auto simp: validateInterfaceSemantics_def rbind_Inr_iff Let_def)
  have "\<exists>mn mx. kv_num ?es ''jmin'' = Some mn \<and> kv_num ?es ''jmax'' = Some mx \<and> mn \<le> mx \<and> 0 < mx"
    if "kv_num ?es ''jc'' = Some jc" "0 < jc" for jc
    using j that by (auto simp: checkJunk_def Let_def split: option.splits if_splits)
  moreover have "\<exists>v. kv_num ?es n = Some v \<and> 12 \<le> v"
    if "kv_get ?es ''headerprotectionkey'' \<noteq> None" "n \<in> {''s1'', ''s2'', ''s3'', ''s4''}" for n
  proof -
    have "checkPrefix ?es n = Inr ()"
      using h that by (auto simp: checkHeaderProtection_def rbind_Inr_iff)
    then show ?thesis by (auto simp: checkPrefix_def headerCipherNonceSize_def split: if_splits option.splits)
  qed
  ultimately show ?thesis using semantics_ranges [OF o] by blast
qed


theorem validateScan_relations_witness:
  "validateScan demo_scan = Inr [WarnHeadersMissing [''h3'', ''h4'']] \<and>
   header_range (cs_iface demo_scan) ''h1'' \<inter> header_range (cs_iface demo_scan) ''h2'' = {} \<and>
   (\<exists>mn mx. kv_num (cs_iface demo_scan) ''jmin'' = Some mn \<and> kv_num (cs_iface demo_scan) ''jmax'' = Some mx \<and> mn \<le> mx)"
proof -
  have "kv_num (cs_iface demo_scan) ''jc'' = Some 4" by (simp add: scan_eval)
  with validateScan_relations [OF demo_scan_ok] demo_scan_ok show ?thesis
    by (auto simp: headerNames_def)
qed


section \<open>Scanning a printed configuration\<close>

text \<open>
  Keys in lower case and values of printable characters without a blank; \<open>=\<close> does not
  occur in a key, \<open>#\<close> in neither, and a key does not look like a section header.
\<close>

definition print_ok :: "string \<times> string \<Rightarrow> bool" where
  "print_ok kv \<longleftrightarrow> fst kv \<noteq> [] \<and> snd kv \<noteq> [] \<and> hd (fst kv) \<noteq> CHR ''['' \<and>
     (\<forall>c\<in>set (fst kv). plain c \<and> c \<noteq> CHR ''='' \<and> c \<noteq> CHR ''#'' \<and> ascii_lower c = c) \<and>
     (\<forall>c\<in>set (snd kv). plain c \<and> c \<noteq> CHR ''#'')"

definition print_kv :: "string \<times> string \<Rightarrow> string" where
  "print_kv kv = fst kv @ ''='' @ snd kv"

definition print_lines :: "(string \<times> string) list \<Rightarrow> (string \<times> string) list list \<Rightarrow> string list" where
  "print_lines ifs ps =
     (''[Interface]'' # map print_kv ifs) @ concat (map (\<lambda>p. ''[Peer]'' # map print_kv p) ps)"

definition print_config :: "(string \<times> string) list \<Rightarrow> (string \<times> string) list list \<Rightarrow> string" where
  "print_config ifs ps = Join [CHR 0x0A] (print_lines ifs ps)"

definition kv_pair :: "kv \<Rightarrow> string \<times> string" where
  "kv_pair e = (k_key e, k_value e)"

lemma ToLower_lower: "\<forall>c\<in>set s. plain c \<and> ascii_lower c = c \<Longrightarrow> ToLower s = s"
  by (induction s rule: ToLower.induct) (auto simp: plain_def split: list.splits)

lemma print_kv_trim: "print_ok kv \<Longrightarrow> TrimSpace (print_kv kv) = print_kv kv"
  by (intro TrimSpace_plain) (auto simp: print_ok_def print_kv_def)

lemma scan_line_kv:
  assumes "print_ok kv" and "sc_section st \<noteq> NoSection"
  shows "\<exists>e. kv_pair e = kv \<and> scan_line n (print_kv kv) st =
    Inr (if sc_section st = InInterface then st\<lparr>sc_iface := sc_iface st @ [e]\<rparr> else st\<lparr>sc_current := sc_current st @ [e]\<rparr>)"
proof -
  let ?k = "fst kv" and ?v = "snd kv"
  have no_hash: "takeWhile (\<lambda>c. c \<noteq> CHR ''#'') (print_kv kv) = print_kv kv"
    using assms(1) by (intro takeWhile_eq_all_conv [THEN iffD2]) (auto simp: print_ok_def print_kv_def)
  have not_sect: "sectionRe (print_kv kv) = None"
    using assms(1) by (cases ?k) (auto simp: sectionRe_def print_ok_def print_kv_def)
  have cut: "Cut (CHR ''='') (print_kv kv) = Some (?k, ?v)"
    unfolding print_kv_def using assms(1) Cut_append [of "CHR ''=''" ?k ?v] by (auto simp: print_ok_def)
  have key: "normalizeKey ?k = ?k" "TrimSpace ?v = ?v"
    using assms(1) TrimSpace_plain [of ?k] TrimSpace_plain [of ?v] ToLower_lower [of ?k]
    by (auto simp: print_ok_def normalizeKey_def)
  have line: "TrimSpace (takeWhile (\<lambda>c. c \<noteq> CHR ''#'') (print_kv kv)) = print_kv kv"
    by (simp only: no_hash print_kv_trim [OF assms(1)])
  have "print_kv kv \<noteq> []" by (simp add: print_kv_def)
  then show ?thesis
    unfolding scan_line_def line Let_def using not_sect cut key assms(2)
    by (intro exI [of _ "\<lparr>k_key = ?k, k_value = ?v, k_line = n\<rparr>"]) (simp add: kv_pair_def case_prod_beta)
qed

lemma scan_line_Interface:
  "scan_line n ''[Interface]'' st = Inr ((flushPeer st)\<lparr>sc_section := InInterface\<rparr>)"
  by (simp add: scan_line_def sectionRe_def TrimSpace_def ascii_space_def uspace2_def uspace3_def ascii_lower_def chr_def)

lemma scan_line_Peer:
  "scan_line n ''[Peer]'' st = Inr ((flushPeer st)\<lparr>sc_section := InPeer\<rparr>)"
  by (simp add: scan_line_def sectionRe_def TrimSpace_def ascii_space_def uspace2_def uspace3_def ascii_lower_def chr_def)

lemma scan_lines_append:
  "scan_lines n (xs @ ys) st = rbind (scan_lines n xs st) (scan_lines (n + length xs) ys)"
proof (induction xs arbitrary: n st)
  case (Cons x xs)
  show ?case by (cases "scan_line n x st") (simp_all add: Cons.IH)
qed simp

lemma scan_kvs_iface:
  "\<forall>kv\<in>set kvs. print_ok kv \<Longrightarrow> sc_section st = InInterface \<Longrightarrow>
     \<exists>es. map kv_pair es = kvs \<and> scan_lines n (map print_kv kvs) st = Inr (st\<lparr>sc_iface := sc_iface st @ es\<rparr>)"
proof (induction kvs arbitrary: n st)
  case (Cons kv kvs)
  obtain e where e: "kv_pair e = kv" "scan_line n (print_kv kv) st = Inr (st\<lparr>sc_iface := sc_iface st @ [e]\<rparr>)"
    using scan_line_kv [of kv st n] Cons.prems by auto
  obtain es where "map kv_pair es = kvs"
    "scan_lines (n + 1) (map print_kv kvs) (st\<lparr>sc_iface := sc_iface st @ [e]\<rparr>) = Inr (st\<lparr>sc_iface := sc_iface st @ e # es\<rparr>)"
    using Cons.IH [of "st\<lparr>sc_iface := sc_iface st @ [e]\<rparr>" "n + 1"] Cons.prems by auto
  with e show ?case by (intro exI [of _ "e # es"]) simp
qed simp

lemma scan_kvs_peer:
  "\<forall>kv\<in>set kvs. print_ok kv \<Longrightarrow> sc_section st = InPeer \<Longrightarrow>
     \<exists>es. map kv_pair es = kvs \<and> scan_lines n (map print_kv kvs) st = Inr (st\<lparr>sc_current := sc_current st @ es\<rparr>)"
proof (induction kvs arbitrary: n st)
  case (Cons kv kvs)
  obtain e where e: "kv_pair e = kv" "scan_line n (print_kv kv) st = Inr (st\<lparr>sc_current := sc_current st @ [e]\<rparr>)"
    using scan_line_kv [of kv st n] Cons.prems by auto
  obtain es where "map kv_pair es = kvs"
    "scan_lines (n + 1) (map print_kv kvs) (st\<lparr>sc_current := sc_current st @ [e]\<rparr>) = Inr (st\<lparr>sc_current := sc_current st @ e # es\<rparr>)"
    using Cons.IH [of "st\<lparr>sc_current := sc_current st @ [e]\<rparr>" "n + 1"] Cons.prems by auto
  with e show ?case by (intro exI [of _ "e # es"]) simp
qed simp

lemma scan_peers:
  "\<forall>p\<in>set ps. \<forall>kv\<in>set p. print_ok kv \<Longrightarrow>
     \<exists>pes st'. map (map kv_pair) pes = ps \<and>
       scan_lines n (concat (map (\<lambda>p. ''[Peer]'' # map print_kv p) ps)) st = Inr st' \<and>
       sc_iface (flushPeer st') = sc_iface st \<and> sc_peers (flushPeer st') = sc_peers (flushPeer st) @ pes"
proof (induction ps arbitrary: n st)
  case (Cons p ps)
  let ?st1 = "(flushPeer st)\<lparr>sc_section := InPeer\<rparr>"
  obtain es where es: "map kv_pair es = p"
    "scan_lines (n + 1) (map print_kv p) ?st1 = Inr (?st1\<lparr>sc_current := es\<rparr>)"
    using scan_kvs_peer [of p ?st1 "n + 1"] Cons.prems by (auto simp: flushPeer_def)
  let ?st2 = "?st1\<lparr>sc_current := es\<rparr>"
  obtain pes st' where r: "map (map kv_pair) pes = ps"
    "scan_lines (n + 1 + length p) (concat (map (\<lambda>p. ''[Peer]'' # map print_kv p) ps)) ?st2 = Inr st'"
    "sc_iface (flushPeer st') = sc_iface ?st2" "sc_peers (flushPeer st') = sc_peers (flushPeer ?st2) @ pes"
    using Cons.IH [of "n + 1 + length p" ?st2] Cons.prems by auto
  show ?case
    using es r by (intro exI [of _ "es # pes"] exI [of _ st'])
      (simp add: scan_line_Peer scan_lines_append flushPeer_def)
qed (simp add: flushPeer_def)

lemma newline_not_plain: "\<not> plain (CHR 0x0A)"
  by (simp add: plain_def)

lemma print_kv_no_newline: "print_ok kv \<Longrightarrow> CHR 0x0A \<notin> set (print_kv kv)"
  using newline_not_plain by (auto simp: print_ok_def print_kv_def)



end
