(* ===== verification/Config_Tunnel.thy ===== *)
theory Config_Tunnel
  imports Config_Scan
begin

text \<open>
  Loading a tunnel configuration (\<open>internal/config/tunnel.go\<close>): decoding the bytes,
  deriving the name, the automatic MTU and \<open>finalize\<close>.

  The upstream parser \<open>conf.FromWgQuickWithUnknownEncoding\<close>, \<open>conf.TunnelNameIsValid\<close>
  and \<open>filepath.Base\<close> (which depends on the operating system) are parameters; of the
  upstream \<open>conf.Config\<close> the record below has what the code reads.
\<close>

section \<open>Text decoding\<close>

definition cont :: "byte \<Rightarrow> bool" where
  "cont b \<longleftrightarrow> 128 \<le> b \<and> b \<le> 191"

text \<open>The length of the valid UTF-8 sequence a byte list starts with, 0 when there is none.\<close>

fun utf8_len :: "byte list \<Rightarrow> nat" where
  "utf8_len [] = 0"
| "utf8_len (a # bs) =
     (if a < 128 then 1
      else if 194 \<le> a \<and> a \<le> 223 then (case bs of b # _ \<Rightarrow> if cont b then 2 else 0 | [] \<Rightarrow> 0)
      else if 224 \<le> a \<and> a \<le> 239 then
        (case bs of
           b # c # _ \<Rightarrow>
             if cont b \<and> cont c \<and> (a = 224 \<longrightarrow> 160 \<le> b) \<and> (a = 237 \<longrightarrow> b \<le> 159) then 3 else 0
         | _ \<Rightarrow> 0)
      else if 240 \<le> a \<and> a \<le> 244 then
        (case bs of
           b # c # d # _ \<Rightarrow>
             if cont b \<and> cont c \<and> cont d \<and> (a = 240 \<longrightarrow> 144 \<le> b) \<and> (a = 244 \<longrightarrow> b \<le> 143) then 4 else 0
         | _ \<Rightarrow> 0)
      else 0)"

function utf8_Valid :: "byte list \<Rightarrow> bool" where
  "utf8_Valid bs = (if bs = [] then True else if utf8_len bs = 0 then False else utf8_Valid (drop (utf8_len bs) bs))"
  by pat_completeness auto
termination
  by (relation "measure length") auto

declare utf8_Valid.simps [simp del]

definition utf8_encode :: "nat \<Rightarrow> byte list" where
  "utf8_encode r =
     (if r < 128 then [word_of_nat r]
      else if r < 2048 then [word_of_nat (192 + r div 64), word_of_nat (128 + r mod 64)]
      else if r < 65536 then
        [word_of_nat (224 + r div 4096), word_of_nat (128 + r div 64 mod 64), word_of_nat (128 + r mod 64)]
      else [word_of_nat (240 + r div 262144), word_of_nat (128 + r div 4096 mod 64),
            word_of_nat (128 + r div 64 mod 64), word_of_nat (128 + r mod 64)])"

fun u16_units :: "bool \<Rightarrow> byte list \<Rightarrow> nat list" where
  "u16_units be (a # b # bs) = (if be then unat a * 256 + unat b else unat b * 256 + unat a) # u16_units be bs"
| "u16_units be _ = []"

fun utf16_Decode :: "nat list \<Rightarrow> nat list" where
  "utf16_Decode [] = []"
| "utf16_Decode (u # us) =
     (if u < 55296 \<or> 57344 \<le> u then u # utf16_Decode us
      else (case us of
          v # vs \<Rightarrow>
            if u < 56320 \<and> 56320 \<le> v \<and> v < 57344
            then ((u - 55296) * 1024 + (v - 56320) + 65536) # utf16_Decode vs
            else 65533 # utf16_Decode us
        | [] \<Rightarrow> [65533]))"

definition decodeUTF16 :: "byte list \<Rightarrow> bool \<Rightarrow> string" where
  "decodeUTF16 b bigEndian = string_of_bytes (concat (map utf8_encode (utf16_Decode (u16_units bigEndian b))))"

definition decodeText :: "byte list \<Rightarrow> string" where
  "decodeText raw =
     (if HasPrefix raw [0xFF, 0xFE] then decodeUTF16 (drop 2 raw) False
      else if HasPrefix raw [0xFE, 0xFF] then decodeUTF16 (drop 2 raw) True
      else
        (let raw' = (if HasPrefix raw [0xEF, 0xBB, 0xBF] then drop 3 raw else raw) in
         if utf8_Valid raw' \<and> 0 \<notin> set raw' then string_of_bytes raw'
         else if length raw' mod 2 = 0 then decodeUTF16 raw' False
         else string_of_bytes raw'))"

section \<open>The tunnel name\<close>

definition name_char :: "byte \<Rightarrow> bool" where
  "name_char b \<longleftrightarrow> 97 \<le> b \<and> b \<le> 122 \<or> 65 \<le> b \<and> b \<le> 90 \<or> 48 \<le> b \<and> b \<le> 57 \<or> b \<in> {95, 61, 43, 46, 45}"

text \<open>Every character outside the class becomes one underscore; an invalid byte is a character.\<close>

function unsafeNameChars :: "byte list \<Rightarrow> byte list" where
  "unsafeNameChars bs =
     (case bs of
        [] \<Rightarrow> []
      | b # r \<Rightarrow>
          if name_char b then b # unsafeNameChars r
          else 95 # unsafeNameChars (drop (max 1 (utf8_len bs)) bs))"
  by pat_completeness auto
termination
  by (relation "measure length") auto

declare unsafeNameChars.simps [simp del]

definition trimExt :: "string \<Rightarrow> string" where
  "trimExt base = (case CutLast (CHR ''.'') base of None \<Rightarrow> base | Some (h, _) \<Rightarrow> h)"

definition tunnelNameFromPath :: "(string \<Rightarrow> string) \<Rightarrow> (string \<Rightarrow> bool) \<Rightarrow> string \<Rightarrow> string" where
  "tunnelNameFromPath pbase nameValid path =
     (let base = take 32 (string_of_bytes (unsafeNameChars (bytes_of_string (trimExt (pbase path))))) in
      if base = [] \<or> \<not> nameValid base then ''awgsocks'' else base)"

section \<open>The upstream configuration and the tunnel\<close>

record conf_peer =
  cp_PublicKeyIsZero :: bool
  cp_PublicKeyHex :: string
  cp_EndpointIsEmpty :: bool
  cp_EndpointHost :: string
  cp_EndpointPort :: u16
  cp_EndpointString :: string
  cp_AllowedIPs :: "string list"

record conf_Config =
  cf_Addresses :: "(byte list \<times> nat) list"
  cf_DNS :: "byte list list"
  cf_DNSSearch :: "string list"
  cf_MTU :: u16
  cf_Peers :: "conf_peer list"

record Tunnel =
  t_Config :: conf_Config
  t_Path :: string
  t_Addresses :: "Addr list"
  t_Prefixes :: "Prefix list"
  t_DNS :: "Addr list"
  t_LocalDNS :: "Addr list"
  t_DNSSearch :: "string list"
  t_MTU :: int
  t_MTUExplicit :: bool
  t_Generation :: generation
  t_AWGParams :: "string list"
  t_Warnings :: "warning list"
  t_s4 :: int

fun addr_of_family :: "Addr list \<Rightarrow> bool \<Rightarrow> Addr option" where
  "addr_of_family [] v6 = None"
| "addr_of_family (a # as) v6 = (if Is6 a = v6 then Some a else addr_of_family as v6)"

definition AddressOfFamily :: "Tunnel \<Rightarrow> bool \<Rightarrow> Addr option" where
  "AddressOfFamily t v6 = addr_of_family (t_Addresses t) v6"

definition HasFamily :: "Tunnel \<Rightarrow> bool \<Rightarrow> bool" where
  "HasFamily t v6 \<longleftrightarrow> AddressOfFamily t v6 \<noteq> None"

definition Tunnel_Endpoint :: "Tunnel \<Rightarrow> string" where
  "Tunnel_Endpoint t = (case cf_Peers (t_Config t) of [] \<Rightarrow> [] | p # _ \<Rightarrow> cp_EndpointString p)"

definition Tunnel_PublicKeyHex :: "Tunnel \<Rightarrow> string" where
  "Tunnel_PublicKeyHex t = (case cf_Peers (t_Config t) of [] \<Rightarrow> [] | p # _ \<Rightarrow> cp_PublicKeyHex p)"

definition paramOrder :: "string list" where
  "paramOrder = [''jc'', ''jmin'', ''jmax'', ''s1'', ''s2'', ''s3'', ''s4'', ''h1'', ''h2'', ''h3'', ''h4'',
     ''i1'', ''i2'', ''i3'', ''i4'', ''i5'', ''headerprotectionkey'', ''contentpaddingaddition'',
     ''rekeyaftertime'', ''rekeytimeout'', ''rejectaftertime'', ''keepalivetimeout'', ''maxhandshakeattempts'',
     ''randomtrailers'', ''disablecookies'']"

definition paramDisplay :: "string \<Rightarrow> string option" where
  "paramDisplay k = map_of
     [(''headerprotectionkey'', ''HeaderProtectionKey''), (''contentpaddingaddition'', ''ContentPaddingAddition''),
      (''rekeyaftertime'', ''RekeyAfterTime''), (''rekeytimeout'', ''RekeyTimeout''),
      (''rejectaftertime'', ''RejectAfterTime''), (''keepalivetimeout'', ''KeepaliveTimeout''),
      (''maxhandshakeattempts'', ''MaxHandshakeAttempts''), (''randomtrailers'', ''RandomTrailers''),
      (''disablecookies'', ''DisableCookies'')] k"

definition ascii_upper :: "char \<Rightarrow> char" where
  "ascii_upper c = (if 97 \<le> ord c \<and> ord c \<le> 122 then chr (ord c - 32) else c)"

definition awgParamList :: "configScan \<Rightarrow> string list" where
  "awgParamList s =
     map (\<lambda>k. case paramDisplay k of Some d \<Rightarrow> d | None \<Rightarrow> map ascii_upper k)
       (filter (\<lambda>k. k \<in> set (interfaceKeys s)) paramOrder)"

fun overhead_loop :: "kv list \<Rightarrow> int \<times> int \<Rightarrow> int \<times> int" where
  "overhead_loop [] (s4, cpa) = (s4, cpa)"
| "overhead_loop (e # es) (s4, cpa) =
     overhead_loop es
       (if k_key e = ''s4'' then
          ((case int_opt (k_value e) of Some v \<Rightarrow> if v > 0 then v else s4 | None \<Rightarrow> s4), cpa)
        else if k_key e = ''contentpaddingaddition'' then
          (s4, case ParseUintRange (k_value e) 32 of Inr (_, hi) \<Rightarrow> int hi | Inl _ \<Rightarrow> cpa)
        else (s4, cpa))"

definition perPacketOverhead :: "configScan \<Rightarrow> int \<times> int" where
  "perPacketOverhead s = overhead_loop (cs_iface s) (0, 0)"

section \<open>finalize\<close>

datatype fin_err =
    NoAddress | BadAddressValue "byte list" | BadAddressPrefix "byte list" nat | BadDNSAddress "byte list" | NoPeer
  | NoPublicKey nat | NoEndpoint nat | BadEndpointPort nat | NoAllowedIPs nat | InvalidMTU int

fun fin_addresses :: "(byte list \<times> nat) list \<Rightarrow> fin_err + (Addr list \<times> Prefix list)" where
  "fin_addresses [] = Inr ([], [])"
| "fin_addresses ((ip, cidr) # as) =
     (case AddrFromSlice ip of
        None \<Rightarrow> Inl (BadAddressValue ip)
      | Some a \<Rightarrow>
          (let addr = Unmap a; prefix = PrefixFrom addr (int cidr) in
           if \<not> prefix_valid prefix then Inl (BadAddressPrefix ip cidr)
           else rbind (fin_addresses as) (\<lambda>(addrs, ps). Inr (addr # addrs, prefix # ps))))"

fun fin_dns :: "byte list list \<Rightarrow> fin_err + (Addr list \<times> Addr list)" where
  "fin_dns [] = Inr ([], [])"
| "fin_dns (d # ds) =
     (case AddrFromSlice d of
        None \<Rightarrow> Inl (BadDNSAddress d)
      | Some a \<Rightarrow>
          (let addr = Unmap a in
           rbind (fin_dns ds) (\<lambda>(loc, dns).
             Inr (if IsLoopback addr then (addr # loc, dns) else (loc, addr # dns)))))"

fun fin_peers :: "nat \<Rightarrow> conf_peer list \<Rightarrow> fin_err + unit" where
  "fin_peers i [] = Inr ()"
| "fin_peers i (p # ps) =
     (if cp_PublicKeyIsZero p then Inl (NoPublicKey (i + 1))
      else if cp_EndpointIsEmpty p then Inl (NoEndpoint (i + 1))
      else if cp_EndpointPort p = 0 then Inl (BadEndpointPort (i + 1))
      else if cp_AllowedIPs p = [] then Inl (NoAllowedIPs (i + 1))
      else fin_peers (i + 1) ps)"

definition finalize :: "Tunnel \<Rightarrow> fin_err + Tunnel" where
  "finalize t =
     (let cfg = t_Config t in
      if cf_Addresses cfg = [] then Inl NoAddress
      else rbind (fin_addresses (cf_Addresses cfg)) (\<lambda>(addrs, prefixes).
        rbind (fin_dns (cf_DNS cfg)) (\<lambda>(loc, dns).
          let w1 = (if loc \<noteq> [] then [WarnLocalDNS loc] else []);
              w2 = (if loc \<noteq> [] \<and> dns \<noteq> [] then [WarnDNSIgnored dns] else []);
              dns' = (if loc \<noteq> [] then [] else dns);
              w3 = (if cf_DNSSearch cfg \<noteq> [] then [WarnDNSSearch (cf_DNSSearch cfg)] else []);
              w4 = (if dns' = [] \<and> loc = [] then [WarnNoDNS] else [])
          in if cf_Peers cfg = [] then Inl NoPeer
             else
               (let w5 = (if length (cf_Peers cfg) > 1 then [WarnPeers (length (cf_Peers cfg))] else []) in
                rbind (fin_peers 0 (cf_Peers cfg)) (\<lambda>_.
                  if t_MTU t < 576 \<or> t_MTU t > 65535 then Inl (InvalidMTU (t_MTU t))
                  else Inr (t\<lparr>t_Addresses := addrs, t_Prefixes := prefixes, t_DNS := dns', t_LocalDNS := loc,
                         t_DNSSearch := cf_DNSSearch cfg,
                         t_Warnings := t_Warnings t @ w1 @ w2 @ w3 @ w4 @ w5\<rparr>))))))"

section \<open>ParseTunnel\<close>

datatype tun_err = TScan cfg_err | TConf goerr | TFinal fin_err

text \<open>The automatic MTU: the value, whether the file states it, and the warning.\<close>

definition applyMTU :: "configScan \<Rightarrow> Tunnel \<Rightarrow> Tunnel" where
  "applyMTU scan t0 =
     (let (s4, cpaMax) = perPacketOverhead scan;
          safe = SafeMTU s4 cpaMax;
          mtu = (if t_MTU t0 = 0 then DefaultMTU else t_MTU t0);
          explicit = (''mtu'' \<in> set (interfaceKeys scan));
          t = t0\<lparr>t_MTU := mtu, t_s4 := s4, t_MTUExplicit := explicit\<rparr>
      in if \<not> explicit \<and> safe \<noteq> mtu then
           t\<lparr>t_MTU := safe,
             t_Warnings := t_Warnings t @ (if s4 > 0 \<or> cpaMax > 0 then [WarnMTULowered safe s4 cpaMax] else [])\<rparr>
         else if explicit \<and> mtu > safe then t\<lparr>t_Warnings := t_Warnings t @ [WarnMTUHigh mtu safe]\<rparr>
         else t)"

definition newTunnel :: "configScan \<Rightarrow> conf_Config \<Rightarrow> string \<Rightarrow> warning list \<Rightarrow> Tunnel" where
  "newTunnel scan cfg path ws =
     \<lparr>t_Config = cfg, t_Path = path, t_Addresses = [], t_Prefixes = [], t_DNS = [], t_LocalDNS = [], t_DNSSearch = [],
      t_MTU = uint (cf_MTU cfg), t_MTUExplicit = False, t_Generation = awgGeneration (interfaceKeys scan),
      t_AWGParams = awgParamList scan, t_Warnings = ws, t_s4 = 0\<rparr>"

definition ParseTunnel ::
  "(string \<Rightarrow> string \<Rightarrow> goerr + conf_Config) \<Rightarrow> (string \<Rightarrow> string) \<Rightarrow> (string \<Rightarrow> bool) \<Rightarrow> byte list \<Rightarrow> string
     \<Rightarrow> tun_err + Tunnel" where
  "ParseTunnel confParse pbase nameValid raw path =
     (let text = decodeText raw in
      rbind (mapErr TScan (scanConfig text)) (\<lambda>scan.
        rbind (mapErr TScan (validateScan scan)) (\<lambda>warnings.
          rbind (mapErr TConf (confParse text (tunnelNameFromPath pbase nameValid path))) (\<lambda>cfg.
            mapErr TFinal (finalize (applyMTU scan (newTunnel scan cfg path warnings)))))))"


section \<open>The same text in every encoding\<close>

definition ascii_text :: "string \<Rightarrow> bool" where
  "ascii_text s \<longleftrightarrow> (\<forall>c\<in>set s. 0 < ord c \<and> ord c < 128)"

fun utf16_bytes :: "bool \<Rightarrow> string \<Rightarrow> byte list" where
  "utf16_bytes be [] = []"
| "utf16_bytes be (c # s) = (if be then [0, word_of_nat (ord c)] else [word_of_nat (ord c), 0]) @ utf16_bytes be s"

lemma unat_ord: "unat (word_of_nat (ord c) :: byte) = ord c"
  by (simp add: unat_of_nat take_bit_eq_mod)

lemma ord_byte_less: "ord c < 128 \<Longrightarrow> (word_of_nat (ord c) :: byte) < 128"
  by (simp add: word_less_nat_alt unat_ord)

lemma utf8_Valid_ascii: "ascii_text s \<Longrightarrow> utf8_Valid (bytes_of_string s)"
proof (induction s)
  case (Cons c s)
  have "utf8_len (bytes_of_string (c # s)) = 1"
    using Cons.prems by (simp add: bytes_of_string_def ascii_text_def ord_byte_less)
  moreover have "utf8_Valid (bytes_of_string s)" using Cons by (simp add: ascii_text_def)
  ultimately show ?case by (subst utf8_Valid.simps) (simp add: bytes_of_string_def)
qed (simp add: utf8_Valid.simps bytes_of_string_def)

lemma no_nul: "ascii_text s \<Longrightarrow> 0 \<notin> set (bytes_of_string s)"
proof
  assume a: "ascii_text s" and "0 \<in> set (bytes_of_string s)"
  then obtain c where "c \<in> set s" "(word_of_nat (ord c) :: byte) = 0" by (auto simp: bytes_of_string_def)
  then show False using a unat_ord [of c] by (auto simp: ascii_text_def)
qed

lemma ascii_head: "ascii_text (c # s) \<Longrightarrow> (word_of_nat (ord c) :: byte) < 128"
  by (simp add: ascii_text_def ord_byte_less)

lemma ascii_no_bom:
  assumes "ascii_text s"
  shows "\<not> HasPrefix (bytes_of_string s) (0xFF # x)" "\<not> HasPrefix (bytes_of_string s) (0xFE # x)"
    "\<not> HasPrefix (bytes_of_string s) (0xEF # x)"
  using assms by (cases s; auto simp: bytes_of_string_def dest!: ascii_head)+

lemma u16_units_ascii: "ascii_text s \<Longrightarrow> u16_units be (utf16_bytes be s) = map ord s"
  by (induction s) (auto simp: unat_ord ascii_text_def)

lemma utf16_Decode_ascii: "ascii_text s \<Longrightarrow> utf16_Decode (map ord s) = map ord s"
  by (induction s) (auto simp: ascii_text_def)

lemma utf8_encode_ascii: "ascii_text s \<Longrightarrow> concat (map utf8_encode (map ord s)) = bytes_of_string s"
  by (induction s) (auto simp: ascii_text_def utf8_encode_def bytes_of_string_def)

lemma decodeUTF16_ascii: "ascii_text s \<Longrightarrow> decodeUTF16 (utf16_bytes be s) be = s"
  unfolding decodeUTF16_def by (simp only: u16_units_ascii utf16_Decode_ascii utf8_encode_ascii string_of_bytes_of_string)

lemma decodeText_plain: "ascii_text s \<Longrightarrow> decodeText (bytes_of_string s) = s"
  using utf8_Valid_ascii [of s] no_nul [of s] ascii_no_bom [of s] by (simp add: decodeText_def)

text \<open>
  a configuration text in ASCII decodes to itself in every encoding the program
  accepts: plain, with a UTF-8 byte order mark, and as UTF-16 with the mark of either
  byte order.
\<close>

theorem decodeText_ascii:
  assumes "ascii_text s"
  shows "decodeText (bytes_of_string s) = s \<and> decodeText ([0xEF, 0xBB, 0xBF] @ bytes_of_string s) = s \<and>
    decodeText ([0xFF, 0xFE] @ utf16_bytes False s) = s \<and> decodeText ([0xFE, 0xFF] @ utf16_bytes True s) = s"
  using utf8_Valid_ascii [OF assms] no_nul [OF assms] ascii_no_bom [OF assms]
    decodeUTF16_ascii [OF assms, of False] decodeUTF16_ascii [OF assms, of True]
  by (simp add: decodeText_def)

theorem decodeText_ascii_witness:
  "decodeText [0xFF, 0xFE, 74, 0, 99, 0] = ''Jc'' \<and> decodeText [0xFE, 0xFF, 0, 74, 0, 99] = ''Jc''"
  using decodeText_ascii [of "''Jc''"] by (simp add: ascii_text_def)

section \<open>The tunnel name is one upstream accepts\<close>

lemma unsafeNameChars_Nil: "unsafeNameChars [] = []"
  by (simp add: unsafeNameChars.simps)

lemma unsafeNameChars_Cons:
  "unsafeNameChars (x # r) =
     (if name_char x then x # unsafeNameChars r
      else 95 # unsafeNameChars (drop (max 1 (utf8_len (x # r))) (x # r)))"
  by (subst unsafeNameChars.simps) (simp only: list.case)

lemma name_char_underscore: "name_char 95"
  by (simp add: name_char_def)

lemma unsafeNameChars_ok: "b \<in> set (unsafeNameChars bs) \<Longrightarrow> name_char b"
proof (induction bs rule: length_induct)
  case (1 bs)
  show ?case
  proof (cases bs)
    case (Cons x r)
    let ?d = "drop (max 1 (utf8_len bs)) bs"
    have "length r < length bs" "length ?d < length bs" using Cons by auto
    with 1 have "b \<in> set (unsafeNameChars r) \<Longrightarrow> name_char b" "b \<in> set (unsafeNameChars ?d) \<Longrightarrow> name_char b"
      by blast+
    with 1(2) show ?thesis unfolding Cons unsafeNameChars_Cons
      using name_char_underscore by (auto split: if_splits)
  qed (use 1(2) in \<open>simp add: unsafeNameChars_Nil\<close>)
qed

definition name_pattern :: "string \<Rightarrow> bool" where
  "name_pattern s \<longleftrightarrow> 0 < length s \<and> length s \<le> 32 \<and> (\<forall>b\<in>set (bytes_of_string s). name_char b)"

text \<open>
  whatever the path, the derived tunnel name matches \<open>^[a-zA-Z0-9_=+.-]{1,32}$\<close>,
  the pattern the upstream parser asks for, and is either accepted by the upstream
  check or the fixed fallback.
\<close>

theorem tunnelName_pattern:
  "name_pattern (tunnelNameFromPath pbase nameValid path) \<and>
   (tunnelNameFromPath pbase nameValid path = ''awgsocks'' \<or> nameValid (tunnelNameFromPath pbase nameValid path))"
proof -
  let ?b = "take 32 (string_of_bytes (unsafeNameChars (bytes_of_string (trimExt (pbase path)))))"
  have "bytes_of_string ?b = take 32 (unsafeNameChars (bytes_of_string (trimExt (pbase path))))"
    by (metis bytes_of_string_of_bytes string_of_bytes_def take_map)
  then have "\<forall>b\<in>set (bytes_of_string ?b). name_char b"
    using unsafeNameChars_ok by (metis in_set_takeD)
  moreover have "name_pattern ''awgsocks''" by (simp add: name_pattern_def bytes_of_string_def name_char_def)
  ultimately show ?thesis by (auto simp: tunnelNameFromPath_def Let_def name_pattern_def)
qed

section \<open>What a loaded tunnel guarantees\<close>

lemma fin_addresses_ok:
  "fin_addresses as = Inr (addrs, ps) \<Longrightarrow> length addrs = length as \<and>
     (\<forall>a\<in>set addrs. IsValid a \<and> wf_addr a \<and> \<not> Is4In6 a) \<and> (\<forall>p\<in>set ps. prefix_valid p) \<and> length ps = length addrs"
proof (induction as arbitrary: addrs ps)
  case (Cons x as)
  obtain ip cidr where x: "x = (ip, cidr)" by (cases x)
  from Cons.prems x obtain a addrs' ps' where a: "AddrFromSlice ip = Some a" "prefix_valid (PrefixFrom (Unmap a) (int cidr))"
    "fin_addresses as = Inr (addrs', ps')" "addrs = Unmap a # addrs'" "ps = PrefixFrom (Unmap a) (int cidr) # ps'"
    by (auto simp: Let_def rbind_Inr_iff split: option.splits if_splits)
  have "wf_addr a" "IsValid a" using a(1) by (auto simp: AddrFromSlice_def split: if_splits)
  with Cons.IH [OF a(3)] a show ?case by auto
qed simp

lemma fin_dns_ok:
  "fin_dns ds = Inr (loc, dns) \<Longrightarrow> (\<forall>a\<in>set loc. IsLoopback a) \<and> (\<forall>a\<in>set dns. \<not> IsLoopback a \<and> IsValid a) \<and>
     length loc + length dns = length ds"
proof (induction ds arbitrary: loc dns)
  case (Cons d ds)
  from Cons.prems obtain a loc' dns' where a: "AddrFromSlice d = Some a" "fin_dns ds = Inr (loc', dns')"
    "(loc, dns) = (if IsLoopback (Unmap a) then (Unmap a # loc', dns') else (loc', Unmap a # dns'))"
    by (auto simp: Let_def rbind_Inr_iff split: option.splits if_splits)
  have "IsValid a" using a(1) by (auto simp: AddrFromSlice_def split: if_splits)
  with Cons.IH [OF a(2)] a(3) show ?case by (auto split: if_splits)
qed simp

definition peer_complete :: "conf_peer \<Rightarrow> bool" where
  "peer_complete p \<longleftrightarrow> \<not> cp_PublicKeyIsZero p \<and> \<not> cp_EndpointIsEmpty p \<and> cp_EndpointPort p \<noteq> 0 \<and> cp_AllowedIPs p \<noteq> []"

lemma fin_peers_ok: "fin_peers i ps = Inr () \<Longrightarrow> \<forall>p\<in>set ps. peer_complete p"
  by (induction i ps rule: fin_peers.induct) (auto simp: peer_complete_def split: if_splits)

definition tunnel_ok :: "Tunnel \<Rightarrow> bool" where
  "tunnel_ok t \<longleftrightarrow> t_Addresses t \<noteq> [] \<and> (\<forall>a\<in>set (t_Addresses t). IsValid a \<and> wf_addr a \<and> \<not> Is4In6 a) \<and>
     (\<forall>p\<in>set (t_Prefixes t). prefix_valid p) \<and> 576 \<le> t_MTU t \<and> t_MTU t \<le> 65535 \<and>
     (\<forall>a\<in>set (t_LocalDNS t). IsLoopback a) \<and> (\<forall>a\<in>set (t_DNS t). \<not> IsLoopback a) \<and>
     (t_LocalDNS t \<noteq> [] \<longrightarrow> t_DNS t = []) \<and>
     cf_Peers (t_Config t) \<noteq> [] \<and> (\<forall>p\<in>set (cf_Peers (t_Config t)). peer_complete p)"

lemma finalize_ok:
  assumes "finalize t = Inr t'"
  shows "tunnel_ok t'" and "t_MTU t' = t_MTU t" and "t_MTUExplicit t' = t_MTUExplicit t" and "t_s4 t' = t_s4 t"
    and "t_Config t' = t_Config t"
proof -
  from assms obtain addrs ps loc dns where
    a: "fin_addresses (cf_Addresses (t_Config t)) = Inr (addrs, ps)" "cf_Addresses (t_Config t) \<noteq> []"
    and d: "fin_dns (cf_DNS (t_Config t)) = Inr (loc, dns)"
    and p: "cf_Peers (t_Config t) \<noteq> []" "fin_peers 0 (cf_Peers (t_Config t)) = Inr ()"
    and m: "576 \<le> t_MTU t" "t_MTU t \<le> 65535"
    and t': "t_Addresses t' = addrs" "t_Prefixes t' = ps" "t_DNS t' = (if loc \<noteq> [] then [] else dns)" "t_LocalDNS t' = loc"
      "t_MTU t' = t_MTU t" "t_MTUExplicit t' = t_MTUExplicit t" "t_s4 t' = t_s4 t" "t_Config t' = t_Config t"
    by (auto simp: finalize_def Let_def rbind_Inr_iff split: if_splits)
  note ok = fin_addresses_ok [OF a(1)] fin_dns_ok [OF d] fin_peers_ok [OF p(2)]
  have "addrs \<noteq> []" using ok(1) a(2) by auto
  with ok a(2) p(1) m show "tunnel_ok t'" unfolding tunnel_ok_def t' by auto
  show "t_MTU t' = t_MTU t" "t_MTUExplicit t' = t_MTUExplicit t" "t_s4 t' = t_s4 t" "t_Config t' = t_Config t" by (fact t')+
qed

lemma applyMTU_auto:
  "t_MTUExplicit (applyMTU scan t) = (''mtu'' \<in> set (interfaceKeys scan)) \<and>
   (''mtu'' \<notin> set (interfaceKeys scan) \<longrightarrow>
     t_MTU (applyMTU scan t) = SafeMTU (fst (perPacketOverhead scan)) (snd (perPacketOverhead scan)))"
  by (auto simp: applyMTU_def Let_def split: prod.splits)

text \<open>
  C35: every configuration that loads passed the strict validation and gives a usable
  tunnel: at least one well-formed address in plain form, valid prefixes, an MTU
  between 576 and 65535 that is the safe one unless the file states it, complete
  peers, and name servers of exactly one kind: local ones are all loopback addresses,
  in-tunnel ones never are, and with a local one configured no in-tunnel one is left.
\<close>

theorem ParseTunnel_ok:
  assumes "ParseTunnel confParse pbase nameValid raw path = Inr t"
  shows "\<exists>scan ws. scanConfig (decodeText raw) = Inr scan \<and> validateScan scan = Inr ws \<and> tunnel_ok t \<and>
    (\<not> t_MTUExplicit t \<longrightarrow> t_MTU t = SafeMTU (fst (perPacketOverhead scan)) (snd (perPacketOverhead scan)))"
proof -
  from assms obtain scan ws cfg where s: "scanConfig (decodeText raw) = Inr scan" "validateScan scan = Inr ws"
    and f: "finalize (applyMTU scan (newTunnel scan cfg path ws)) = Inr t"
    by (auto simp: ParseTunnel_def Let_def rbind_Inr_iff)
  note ok = finalize_ok [OF f] and m = applyMTU_auto [of scan "newTunnel scan cfg path ws"]
  have "\<not> t_MTUExplicit t \<longrightarrow> t_MTU t = SafeMTU (fst (perPacketOverhead scan)) (snd (perPacketOverhead scan))"
    using ok(2,3) m by simp
  with s ok(1) show ?thesis by blast
qed


text \<open>A minimal configuration and what the upstream parser may return for it.\<close>

definition demo_text :: string where
  "demo_text = ''[Interface]'' @ [CHR 0x0A] @ ''jc=0''"

definition demo_cfg :: conf_Config where
  "demo_cfg = \<lparr>cf_Addresses = [([10, 8, 0, 2], 32)], cf_DNS = [[10, 8, 0, 1], [127, 0, 0, 1]], cf_DNSSearch = [], cf_MTU = 0,
     cf_Peers = [\<lparr>cp_PublicKeyIsZero = False, cp_PublicKeyHex = ''ab'', cp_EndpointIsEmpty = False, cp_EndpointHost = ''h'',
       cp_EndpointPort = 51820, cp_EndpointString = ''h:51820'', cp_AllowedIPs = [''0.0.0.0/0'']\<rparr>]\<rparr>"

lemma demo_scan_text:
  "scanConfig demo_text = Inr \<lparr>cs_iface = [demo_kv ''jc'' ''0'' 2], cs_peers = []\<rparr>"
  by (simp add: demo_text_def scanConfig_def scan_line_def scan_init_def flushPeer_def sectionRe_def normalizeKey_def
      demo_kv_def TrimSpace_def ascii_space_def uspace2_def uspace3_def ascii_lower_def chr_def Let_def)

lemma demo_validate: "validateScan \<lparr>cs_iface = [demo_kv ''jc'' ''0'' 2], cs_peers = []\<rparr> = Inr []"
  by (simp add: scan_eval)

lemma demo_ascii: "ascii_text demo_text"
  by (simp add: ascii_text_def demo_text_def)

lemma demo_tunnel:
  "\<exists>t. ParseTunnel (\<lambda>text name. Inr demo_cfg) id (\<lambda>n. True) (bytes_of_string demo_text) ''c.conf'' = Inr t \<and>
     t_LocalDNS t = [Addr4 [127, 0, 0, 1]]"
  by (simp add: ParseTunnel_def Let_def decodeText_plain [OF demo_ascii] demo_scan_text demo_validate [unfolded demo_kv_def] mapErr_def
      applyMTU_def newTunnel_def perPacketOverhead_def demo_kv_def interfaceKeys_def SafeMTU_def DefaultMTU_def
      MinSafeMTU_def finalize_def demo_cfg_def AddrFromSlice_def PrefixFrom_def prefix_valid_def BitLen_def v4_loopback_def)

theorem ParseTunnel_ok_witness:
  "\<exists>t. ParseTunnel (\<lambda>text name. Inr demo_cfg) id (\<lambda>n. True) (bytes_of_string demo_text) ''c.conf'' = Inr t \<and>
     tunnel_ok t \<and> t_LocalDNS t = [Addr4 [127, 0, 0, 1]] \<and> t_DNS t = []"
proof -
  obtain t where t: "ParseTunnel (\<lambda>text name. Inr demo_cfg) id (\<lambda>n. True) (bytes_of_string demo_text) ''c.conf'' = Inr t"
    "t_LocalDNS t = [Addr4 [127, 0, 0, 1]]" using demo_tunnel by blast
  from ParseTunnel_ok [OF t(1)] have "tunnel_ok t" by blast
  with t show ?thesis by (auto simp: tunnel_ok_def)
qed

end
