(* ===== verification/Dns_Resolver.thy ===== *)
theory Dns_Resolver
  imports Awg_Errors "HOL-Library.Finite_Map"
begin

text \<open>
  The caching resolver (\<open>internal/dns/resolver.go\<close>): answers cached with a fixed
  lifetime, concurrent lookups of one name collapsed into one query, a bound on the
  entries and on the queries in flight.

  A \<open>Lookup\<close> is cut at its critical sections: \<open>Lookup_begin\<close> is the one that
  consults the cache, \<open>Lookup_finish\<close> the one that stores the answer; waiting for a
  semaphore token and the query itself lie between them. Times are nanoseconds.
\<close>

section \<open>State\<close>

type_synonym answer = "Addr list \<times> goerr option"

record entry =
  en_addrs :: "Addr list"
  en_err :: "goerr option"
  en_expires :: int

text \<open>\<open>rs_inflight\<close> names the lookup that leads the query of a name.\<close>

record Resolver =
  rs_entries :: "(string, entry) fmap"
  rs_inflight :: "(string, nat) fmap"
  rs_sem :: nat
  rs_hits :: u64
  rs_misses :: u64
  rs_coalesced :: u64

definition PositiveTTL :: int where "PositiveTTL = 60 * 1000000000"
definition NegativeTTL :: int where "NegativeTTL = 5 * 1000000000"
definition MaxEntries :: nat where "MaxEntries = 1024"
definition MaxConcurrent :: nat where "MaxConcurrent = 8"

definition resolver_New :: Resolver where
  "resolver_New = \<lparr>rs_entries = fmempty, rs_inflight = fmempty, rs_sem = 0,
     rs_hits = 0, rs_misses = 0, rs_coalesced = 0\<rparr>"

abbreviation fmlen :: "('k, 'v) fmap \<Rightarrow> nat" where
  "fmlen m \<equiv> fcard (fmdom m)"

section \<open>Operations\<close>

definition evictLocked :: "int \<Rightarrow> (string, entry) fmap \<Rightarrow> (string, entry) fmap" where
  "evictLocked now es =
     (if fmlen es < MaxEntries then es
      else
        (let es' = fmfilter (\<lambda>k. case fmlookup es k of Some e \<Rightarrow> \<not> now > en_expires e | None \<Rightarrow> True) es in
         if fmlen es' \<ge> MaxEntries then fmempty else es'))"

datatype begun = Hit answer | Join nat | Lead

definition Lookup_begin :: "int \<Rightarrow> string \<Rightarrow> nat \<Rightarrow> Resolver \<Rightarrow> begun \<times> Resolver" where
  "Lookup_begin now host self r =
     (case fmlookup (rs_entries r) host of
        Some e \<Rightarrow>
          if now < en_expires e then (Hit (en_addrs e, en_err e), r\<lparr>rs_hits := rs_hits r + 1\<rparr>)
          else
            (case fmlookup (rs_inflight r) host of
               Some c \<Rightarrow> (Join c, r\<lparr>rs_coalesced := rs_coalesced r + 1\<rparr>)
             | None \<Rightarrow> (Lead, r\<lparr>rs_inflight := fmupd host self (rs_inflight r), rs_misses := rs_misses r + 1\<rparr>))
      | None \<Rightarrow>
          (case fmlookup (rs_inflight r) host of
             Some c \<Rightarrow> (Join c, r\<lparr>rs_coalesced := rs_coalesced r + 1\<rparr>)
           | None \<Rightarrow> (Lead, r\<lparr>rs_inflight := fmupd host self (rs_inflight r), rs_misses := rs_misses r + 1\<rparr>)))"

text \<open>
  \<open>now\<close> is the time read at the start of the lookup, \<open>now2\<close> the time of storing,
  \<open>cancelled\<close> whether the leader's context has ended by then.
\<close>

definition Lookup_finish :: "int \<Rightarrow> int \<Rightarrow> bool \<Rightarrow> string \<Rightarrow> answer \<Rightarrow> Resolver \<Rightarrow> Resolver" where
  "Lookup_finish now now2 cancelled host a r =
     (let r1 = r\<lparr>rs_inflight := fmdrop host (rs_inflight r)\<rparr>;
          ttl = (if snd a \<noteq> None then NegativeTTL else PositiveTTL)
      in if snd a = None \<or> \<not> cancelled
         then r1\<lparr>rs_entries := fmupd host \<lparr>en_addrs = fst a, en_err = snd a, en_expires = now2 + ttl\<rparr>
                   (evictLocked now (rs_entries r1))\<rparr>
         else r1)"

definition Flush :: "Resolver \<Rightarrow> Resolver" where
  "Flush r = r\<lparr>rs_entries := fmempty\<rparr>"

record resolver_stats =
  rst_Hits :: u64
  rst_Misses :: u64
  rst_Coalesced :: u64
  rst_Entries :: nat

definition resolver_Stats :: "Resolver \<Rightarrow> resolver_stats" where
  "resolver_Stats r = \<lparr>rst_Hits = rs_hits r, rst_Misses = rs_misses r, rst_Coalesced = rs_coalesced r,
     rst_Entries = fmlen (rs_entries r)\<rparr>"

section \<open>Concurrent lookups\<close>

text \<open>
  Where a lookup is: it follows another one's query, it leads and waits for a
  semaphore token, it queries, it has an answer to store (\<open>gaveup\<close> when its context
  ended in the queue), or it has returned. The follower reads the answer from the
  leader's \<open>call\<close>, which is what the leader returned.
\<close>

datatype pc = Following nat | Queued int | Querying int | Answered int bool answer | Returned answer

fun leading :: "pc \<Rightarrow> bool" where
  "leading (Queued _) = True"
| "leading (Querying _) = True"
| "leading (Answered _ _ _) = True"
| "leading _ = False"

record rsys =
  z_r :: Resolver
  z_t :: "nat \<rightharpoonup> string \<times> pc"

definition ctx_answer :: "answer \<Rightarrow> bool" where
  "ctx_answer a \<longleftrightarrow> a = ([], Some (sentinel_err Canceled)) \<or> a = ([], Some (sentinel_err DeadlineExceeded))"

definition begin_pc :: "int \<Rightarrow> begun \<Rightarrow> pc" where
  "begin_pc now b = (case b of Hit a \<Rightarrow> Returned a | Join c \<Rightarrow> Following c | Lead \<Rightarrow> Queued now)"

text \<open>\<open>ans h a\<close>: the in-tunnel servers may answer \<open>a\<close> to a query for \<open>h\<close>.\<close>

inductive rstep :: "(string \<Rightarrow> answer \<Rightarrow> bool) \<Rightarrow> rsys \<Rightarrow> rsys \<Rightarrow> bool"
  for ans :: "string \<Rightarrow> answer \<Rightarrow> bool" where
  begin_lookup: "z_t z t = None \<Longrightarrow> Lookup_begin now h t (z_r z) = (b, r') \<Longrightarrow>
     rstep ans z (z\<lparr>z_r := r', z_t := (z_t z)(t \<mapsto> (h, begin_pc now b))\<rparr>)"
| acquire: "z_t z t = Some (h, Queued now) \<Longrightarrow> rs_sem (z_r z) < MaxConcurrent \<Longrightarrow>
     rstep ans z (z\<lparr>z_r := (z_r z)\<lparr>rs_sem := rs_sem (z_r z) + 1\<rparr>, z_t := (z_t z)(t \<mapsto> (h, Querying now))\<rparr>)"
| give_up: "z_t z t = Some (h, Queued now) \<Longrightarrow> ctx_answer a \<Longrightarrow>
     rstep ans z (z\<lparr>z_t := (z_t z)(t \<mapsto> (h, Answered now True a))\<rparr>)"
| answered: "z_t z t = Some (h, Querying now) \<Longrightarrow> ans h a \<Longrightarrow>
     rstep ans z (z\<lparr>z_r := (z_r z)\<lparr>rs_sem := rs_sem (z_r z) - 1\<rparr>, z_t := (z_t z)(t \<mapsto> (h, Answered now False a))\<rparr>)"
| publish: "z_t z t = Some (h, Answered now gaveup a) \<Longrightarrow> (gaveup \<Longrightarrow> cancelled) \<Longrightarrow>
     rstep ans z (z\<lparr>z_r := Lookup_finish now now2 cancelled h a (z_r z), z_t := (z_t z)(t \<mapsto> (h, Returned a))\<rparr>)"
| followed: "z_t z t = Some (h, Following c) \<Longrightarrow> z_t z c = Some (h', Returned a) \<Longrightarrow>
     rstep ans z (z\<lparr>z_t := (z_t z)(t \<mapsto> (h, Returned a))\<rparr>)"
| unfollow: "z_t z t = Some (h, Following c) \<Longrightarrow> ctx_answer a \<Longrightarrow>
     rstep ans z (z\<lparr>z_t := (z_t z)(t \<mapsto> (h, Returned a))\<rparr>)"
| flush: "rstep ans z (z\<lparr>z_r := Flush (z_r z)\<rparr>)"

inductive_cases rstepE: "rstep ans z z'"

definition rinit :: "rsys \<Rightarrow> bool" where
  "rinit z \<longleftrightarrow> z = \<lparr>z_r = resolver_New, z_t = Map.empty\<rparr>"

section \<open>The bound on the cache\<close>

text \<open>A bounded store: evicting makes room, storing takes one place.\<close>

locale bounded_store =
  fixes len :: "'m \<Rightarrow> nat" and get :: "'m \<Rightarrow> 'k \<Rightarrow> 'v option" and put :: "'k \<Rightarrow> 'v \<Rightarrow> 'm \<Rightarrow> 'm"
    and evict :: "'m \<Rightarrow> 'm" and cap :: nat
  assumes evict_room: "len (evict m) < cap"
    and put_len: "len (put k v m) \<le> Suc (len m)"
    and get_put: "get (put k v m) k' = (if k' = k then Some v else get m k')"
    and evict_sub: "get (evict m) k = Some v \<Longrightarrow> get m k = Some v"
begin

lemma stored_bounded: "len (put k v (evict m)) \<le> cap"
  using evict_room [of m] put_len [of k v "evict m"] by linarith

lemma stored_get: "get (put k v (evict m)) k = Some v"
  by (simp add: get_put)

lemma stored_sub: "get (put k v (evict m)) k' = Some v' \<Longrightarrow> (k' = k \<and> v' = v) \<or> get m k' = Some v'"
  by (auto simp: get_put dest: evict_sub split: if_splits)

end

lemma fmlen_fmupd: "fmlen (fmupd k v m) \<le> Suc (fmlen m)"
  by (simp add: fcard_finsert_if)

interpretation store: bounded_store fmlen fmlookup fmupd "evictLocked now" MaxEntries for now
proof
  show "fmlen (evictLocked now m) < MaxEntries" for m
    by (simp add: evictLocked_def Let_def MaxEntries_def fcard_fempty)
  show "fmlen (fmupd k v m) \<le> Suc (fmlen m)" for k v and m :: "(string, entry) fmap"
    by (rule fmlen_fmupd)
  show "fmlookup (fmupd k v m) k' = (if k' = k then Some v else fmlookup m k')" for k v m k'
    by simp
  show "fmlookup (evictLocked now m) k = Some v \<Longrightarrow> fmlookup m k = Some v" for m k v
    by (auto simp: evictLocked_def Let_def split: if_splits)
qed


section \<open>The invariant of concurrent lookups\<close>

definition okay :: "(string \<Rightarrow> answer \<Rightarrow> bool) \<Rightarrow> string \<Rightarrow> answer \<Rightarrow> bool" where
  "okay ans h a \<longleftrightarrow> ans h a \<or> ctx_answer a"

definition querying :: "rsys \<Rightarrow> nat set" where
  "querying z = {t. \<exists>h now. z_t z t = Some (h, Querying now)}"

fun pc_ok :: "(string \<Rightarrow> answer \<Rightarrow> bool) \<Rightarrow> rsys \<Rightarrow> string \<Rightarrow> pc \<Rightarrow> bool" where
  "pc_ok ans z h (Following c) = (\<exists>p. z_t z c = Some (h, p) \<and> (leading p \<or> (\<exists>a. p = Returned a)))"
| "pc_ok ans z h (Answered now gaveup a) = (if gaveup then ctx_answer a else ans h a)"
| "pc_ok ans z h (Returned a) = okay ans h a"
| "pc_ok ans z h _ = True"

definition cache_ok :: "(string \<Rightarrow> answer \<Rightarrow> bool) \<Rightarrow> (string, entry) fmap \<Rightarrow> bool" where
  "cache_ok ans es \<longleftrightarrow> fmlen es \<le> MaxEntries \<and>
     (\<forall>h e. fmlookup es h = Some e \<longrightarrow> ans h (en_addrs e, en_err e))"

definition rinv :: "(string \<Rightarrow> answer \<Rightarrow> bool) \<Rightarrow> rsys \<Rightarrow> bool" where
  "rinv ans z \<longleftrightarrow>
     cache_ok ans (rs_entries (z_r z)) \<and>
     (\<forall>h c. fmlookup (rs_inflight (z_r z)) h = Some c \<longleftrightarrow> (\<exists>p. z_t z c = Some (h, p) \<and> leading p)) \<and>
     finite (querying z) \<and> rs_sem (z_r z) = card (querying z) \<and> rs_sem (z_r z) \<le> MaxConcurrent \<and>
     (\<forall>t h p. z_t z t = Some (h, p) \<longrightarrow> pc_ok ans z h p)"

lemma cache_ok_finish:
  assumes "cache_ok ans (rs_entries r)" and "snd a = None \<or> \<not> cancelled \<longrightarrow> ans h a"
  shows "cache_ok ans (rs_entries (Lookup_finish now now2 cancelled h a r))"
proof -
  let ?e = "\<lparr>en_addrs = fst a, en_err = snd a, en_expires = now2 + (if snd a \<noteq> None then NegativeTTL else PositiveTTL)\<rparr>"
  let ?m = "fmupd h ?e (evictLocked now (rs_entries r))"
  have "cache_ok ans ?m" if "ans h a"
    unfolding cache_ok_def
  proof (intro conjI allI impI)
    show "fmlen ?m \<le> MaxEntries" by (rule store.stored_bounded)
    fix h' e assume "fmlookup ?m h' = Some e"
    from store.stored_sub [OF this] that assms(1) show "ans h' (en_addrs e, en_err e)"
      by (auto simp: cache_ok_def)
  qed
  then show ?thesis using assms by (auto simp: Lookup_finish_def Let_def)
qed

lemma finish_frame [frame_simps]:
  "rs_sem (Lookup_finish now now2 x h a r) = rs_sem r"
  "rs_inflight (Lookup_finish now now2 x h a r) = fmdrop h (rs_inflight r)"
  by (simp_all add: Lookup_finish_def Let_def)

text \<open>What \<open>pc_ok\<close> asks of another lookup survives a step of one that is not a leader going away.\<close>

lemma pc_ok_upd:
  assumes "pc_ok ans z h p"
    and "\<And>h0 p0. z_t z t = Some (h0, p0) \<Longrightarrow> h1 = h0 \<and> (leading p0 \<longrightarrow> leading p1 \<or> (\<exists>a. p1 = Returned a))
           \<and> ((\<exists>a. p0 = Returned a) \<longrightarrow> (\<exists>a. p1 = Returned a))"
  shows "pc_ok ans (z\<lparr>z_r := r, z_t := (z_t z)(t \<mapsto> (h1, p1))\<rparr>) h p"
proof (cases p)
  case (Following c)
  with assms show ?thesis by (cases "c = t") fastforce+
qed (use assms in auto)


lemma querying_upd:
  "querying (z\<lparr>z_r := r, z_t := (z_t z)(t \<mapsto> (h, p))\<rparr>) =
     (if \<exists>now. p = Querying now then insert t (querying z) else querying z - {t})"
  by (auto simp: querying_def)

text \<open>One lookup moves on, and the resolver changes with it.\<close>

lemma rinv_upd:
  assumes inv: "rinv ans z"
    and old: "z_t z t = None \<or> (\<exists>p0. z_t z t = Some (h, p0) \<and>
        (leading p0 \<longrightarrow> leading p \<or> (\<exists>a. p = Returned a)) \<and> (\<forall>a. p0 \<noteq> Returned a))"
    and cache: "cache_ok ans (rs_entries r)"
    and infl: "\<And>h' c. fmlookup (rs_inflight r) h' = Some c \<longleftrightarrow>
        (if c = t then h' = h \<and> leading p else fmlookup (rs_inflight (z_r z)) h' = Some c)"
    and sem: "rs_sem r = card (if \<exists>now. p = Querying now then insert t (querying z) else querying z - {t})"
      "rs_sem r \<le> MaxConcurrent"
    and pc: "pc_ok ans (z\<lparr>z_r := r, z_t := (z_t z)(t \<mapsto> (h, p))\<rparr>) h p"
  shows "rinv ans (z\<lparr>z_r := r, z_t := (z_t z)(t \<mapsto> (h, p))\<rparr>)" (is "rinv ans ?z'")
  unfolding rinv_def
proof (intro conjI allI impI)
  show "cache_ok ans (rs_entries (z_r ?z'))" using cache by simp
  show "fmlookup (rs_inflight (z_r ?z')) h' = Some c \<longleftrightarrow> (\<exists>p. z_t ?z' c = Some (h', p) \<and> leading p)" for h' c
    using infl [of h' c] inv by (auto simp: rinv_def)
  show "finite (querying ?z')" "rs_sem (z_r ?z') = card (querying ?z')" "rs_sem (z_r ?z') \<le> MaxConcurrent"
    using inv sem unfolding querying_upd by (auto simp: rinv_def)
  fix t' h' p' assume t': "z_t ?z' t' = Some (h', p')"
  show "pc_ok ans ?z' h' p'"
  proof (cases "t' = t")
    case True
    with t' pc show ?thesis by simp
  next
    case False
    with t' inv have "pc_ok ans z h' p'" by (simp add: rinv_def)
    then show ?thesis by (rule pc_ok_upd) (use old in auto)
  qed
qed

lemma rinv_leader:
  assumes "rinv ans z" "z_t z t = Some (h, p)" "leading p"
  shows "fmlookup (rs_inflight (z_r z)) h' = Some t \<longleftrightarrow> h' = h"
  using assms by (auto simp: rinv_def)

lemma rinv_pc: "rinv ans z \<Longrightarrow> z_t z t = Some (h, p) \<Longrightarrow> pc_ok ans z h p"
  by (simp add: rinv_def)

lemma rinv_absent: "rinv ans z \<Longrightarrow> z_t z t = None \<Longrightarrow> fmlookup (rs_inflight (z_r z)) h' \<noteq> Some t"
  by (auto simp: rinv_def)

lemma not_querying: "z_t z t = None \<or> (\<exists>h p. z_t z t = Some (h, p) \<and> (\<forall>n. p \<noteq> Querying n)) \<Longrightarrow> querying z - {t} = querying z"
  by (auto simp: querying_def)

lemma rinv_begin:
  assumes inv: "rinv ans z" and t: "z_t z t = None" and b: "Lookup_begin now h t (z_r z) = (b, r')"
  shows "rinv ans (z\<lparr>z_r := r', z_t := (z_t z)(t \<mapsto> (h, begin_pc now b))\<rparr>)"
proof (rule rinv_upd [OF inv])
  have q: "querying z - {t} = querying z" using t by (intro not_querying) simp
  have sem: "rs_sem r' = rs_sem (z_r z)" and ent: "rs_entries r' = rs_entries (z_r z)"
    using b by (auto simp: Lookup_begin_def split: option.splits if_splits)
  show "z_t z t = None \<or> (\<exists>p0. z_t z t = Some (h, p0) \<and> (leading p0 \<longrightarrow> leading (begin_pc now b) \<or>
      (\<exists>a. begin_pc now b = Returned a)) \<and> (\<forall>a. p0 \<noteq> Returned a))" using t by simp
  show "cache_ok ans (rs_entries r')" using inv ent by (simp add: rinv_def)
  show "rs_sem r' \<le> MaxConcurrent" using inv sem by (simp add: rinv_def)
  show "rs_sem r' = card (if \<exists>n. begin_pc now b = Querying n then insert t (querying z) else querying z - {t})"
    using inv sem q by (auto simp: rinv_def begin_pc_def split: begun.splits)
  show "fmlookup (rs_inflight r') h' = Some c \<longleftrightarrow>
      (if c = t then h' = h \<and> leading (begin_pc now b) else fmlookup (rs_inflight (z_r z)) h' = Some c)" for h' c
    using b rinv_absent [OF inv t, of h']
    by (auto simp: Lookup_begin_def begin_pc_def split: option.splits if_splits)
  show "pc_ok ans (z\<lparr>z_r := r', z_t := (z_t z)(t \<mapsto> (h, begin_pc now b))\<rparr>) h (begin_pc now b)"
  proof (cases b)
    case (Hit a)
    with b inv show ?thesis
      by (auto simp: Lookup_begin_def begin_pc_def rinv_def cache_ok_def okay_def split: option.splits if_splits)
  next
    case (Join c)
    with b have "fmlookup (rs_inflight (z_r z)) h = Some c"
      by (auto simp: Lookup_begin_def split: option.splits if_splits)
    with inv obtain p where "z_t z c = Some (h, p)" "leading p" by (auto simp: rinv_def)
    with Join t show ?thesis by (auto simp: begin_pc_def)
  qed (simp add: begin_pc_def)
qed

lemma rinv_finish:
  assumes inv: "rinv ans z" and t: "z_t z t = Some (h, Answered now gaveup a)" and g: "gaveup \<Longrightarrow> cancelled"
  shows "rinv ans (z\<lparr>z_r := Lookup_finish now now2 cancelled h a (z_r z), z_t := (z_t z)(t \<mapsto> (h, Returned a))\<rparr>)"
proof (rule rinv_upd [OF inv])
  have pc: "if gaveup then ctx_answer a else ans h a" using rinv_pc [OF inv t] by simp
  have q: "querying z - {t} = querying z" using t by (intro not_querying) simp
  show "cache_ok ans (rs_entries (Lookup_finish now now2 cancelled h a (z_r z)))"
    using inv pc g by (intro cache_ok_finish) (auto simp: rinv_def ctx_answer_def split: if_splits)
  show "fmlookup (rs_inflight (Lookup_finish now now2 cancelled h a (z_r z))) h' = Some c \<longleftrightarrow>
      (if c = t then h' = h \<and> leading (Returned a) else fmlookup (rs_inflight (z_r z)) h' = Some c)" for h' c
    using rinv_leader [OF inv t, of h'] rinv_leader [OF inv t, of h] by (cases "h' = h") (simp_all add: frame_simps)
  show "pc_ok ans (z\<lparr>z_r := Lookup_finish now now2 cancelled h a (z_r z), z_t := (z_t z)(t \<mapsto> (h, Returned a))\<rparr>) h (Returned a)"
    using pc by (auto simp: okay_def split: if_splits)
qed (use inv t not_querying [of z t] in \<open>auto simp: rinv_def frame_simps\<close>)

lemma rinv_step: "rstep ans z z' \<Longrightarrow> rinv ans z \<Longrightarrow> rinv ans z'"
proof (induction rule: rstep.induct)
  case (begin_lookup z t now h b r')
  then show ?case by (intro rinv_begin)
next
  case (publish z t h now gaveup a cancelled now2)
  show ?case by (rule rinv_finish [OF publish(3) publish(1) publish(2)])
next
  case (acquire z t h now)
  let ?r = "(z_r z)\<lparr>rs_sem := rs_sem (z_r z) + 1\<rparr>"
  have "t \<notin> querying z" using acquire by (auto simp: querying_def)
  with acquire rinv_leader [OF acquire(3,1)] show ?case
    by (intro rinv_upd) (auto simp: rinv_def)
next
  case (give_up z t h now a)
  have "rinv ans (z\<lparr>z_r := z_r z, z_t := (z_t z)(t \<mapsto> (h, Answered now True a))\<rparr>)"
    using give_up rinv_leader [OF give_up(3,1)] not_querying [of z t]
    by (intro rinv_upd) (auto simp: rinv_def)
  then show ?case by simp
next
  case (answered z t h now a)
  have "t \<in> querying z" using answered by (auto simp: querying_def)
  with answered rinv_leader [OF answered(3,1)] show ?case
    by (intro rinv_upd) (auto simp: rinv_def)
next
  case (followed z t h c h' a)
  have "okay ans h a" using rinv_pc [OF followed(3,1)] rinv_pc [OF followed(3,2)] followed(2) by auto
  moreover have "fmlookup (rs_inflight (z_r z)) x \<noteq> Some t" for x
    using followed by (auto simp: rinv_def)
  ultimately have "rinv ans (z\<lparr>z_r := z_r z, z_t := (z_t z)(t \<mapsto> (h, Returned a))\<rparr>)"
    using followed not_querying [of z t] by (intro rinv_upd) (auto simp: rinv_def)
  then show ?case by simp
next
  case (unfollow z t h c a)
  have "fmlookup (rs_inflight (z_r z)) x \<noteq> Some t" for x
    using unfollow by (auto simp: rinv_def)
  then have "rinv ans (z\<lparr>z_r := z_r z, z_t := (z_t z)(t \<mapsto> (h, Returned a))\<rparr>)"
    using unfollow not_querying [of z t] by (intro rinv_upd) (auto simp: rinv_def okay_def)
  then show ?case by simp
next
  case (flush z)
  have "pc_ok ans (z\<lparr>z_r := Flush (z_r z)\<rparr>) h p = pc_ok ans z h p" for h p by (cases p) auto
  then show ?case using flush by (simp add: rinv_def Flush_def cache_ok_def querying_def fcard_fempty)
qed

lemma rinv_init: "rinit z \<Longrightarrow> rinv ans z"
  by (auto simp: rinit_def rinv_def resolver_New_def cache_ok_def querying_def fcard_fempty)

interpretation rsv: invariant rinit "rstep ans" "rinv ans" for ans
  by unfold_locales (fact rinv_init, fact rinv_step)

section \<open>Properties\<close>

text \<open>
  C33: concurrent lookups, cache flushes and cancellations in any order. At any time
  the cache has at most \<open>MaxEntries\<close> entries, at most \<open>MaxConcurrent\<close> queries run,
  no name has two lookups leading a query, and every lookup that waits follows the
  lookup of the same name, which still leads or has returned.
\<close>

theorem resolver_bounds:
  assumes "reachable rinit (rstep ans) z"
  shows "fmlen (rs_entries (z_r z)) \<le> MaxEntries \<and> card (querying z) \<le> MaxConcurrent \<and>
    (\<forall>t t' h p p'. z_t z t = Some (h, p) \<longrightarrow> leading p \<longrightarrow> z_t z t' = Some (h, p') \<longrightarrow> leading p' \<longrightarrow> t = t') \<and>
    (\<forall>t h c. z_t z t = Some (h, Following c) \<longrightarrow> (\<exists>p. z_t z c = Some (h, p) \<and> (leading p \<or> (\<exists>a. p = Returned a))))"
proof -
  have inv: "rinv ans z" using assms by (rule rsv.reachable_inv)
  then have "fmlen (rs_entries (z_r z)) \<le> MaxEntries" "card (querying z) \<le> MaxConcurrent"
    by (auto simp: rinv_def cache_ok_def)
  moreover have "t = t'" if "z_t z t = Some (h, p)" "leading p" "z_t z t' = Some (h, p')" "leading p'" for t t' h p p'
    using rinv_leader [OF inv that(1,2), of h] rinv_leader [OF inv that(3,4), of h] by simp
  moreover have "\<exists>p. z_t z c = Some (h, p) \<and> (leading p \<or> (\<exists>a. p = Returned a))" if "z_t z t = Some (h, Following c)" for t h c
    using rinv_pc [OF inv that] by simp
  ultimately show ?thesis by blast
qed

text \<open>A lookup that leads a query, and a second one of the same name that follows it.\<close>

definition demo_ans :: "string \<Rightarrow> answer \<Rightarrow> bool" where
  "demo_ans h a \<longleftrightarrow> a = ([Addr4 [9, 9, 9, 9]], None)"

definition demo_lead :: rsys where
  "demo_lead = \<lparr>z_r = resolver_New\<lparr>rs_inflight := fmupd ''a'' 0 fmempty, rs_misses := 1, rs_coalesced := 1\<rparr>,
     z_t = [0 \<mapsto> (''a'', Queued 5), 1 \<mapsto> (''a'', Following 0)]\<rparr>"

lemma demo_lead_reach: "reachable rinit (rstep demo_ans) demo_lead"
proof -
  let ?z0 = "\<lparr>z_r = resolver_New, z_t = Map.empty\<rparr>"
  let ?z1 = "\<lparr>z_r = resolver_New\<lparr>rs_inflight := fmupd ''a'' 0 fmempty, rs_misses := 1\<rparr>, z_t = [0 \<mapsto> (''a'', Queued 5)]\<rparr>"
  have "reachable rinit (rstep demo_ans) ?z0" by (intro reachable.base) (simp add: rinit_def)
  moreover have "rstep demo_ans ?z0 ?z1"
    using rstep.begin_lookup [of ?z0 0 5 "''a''" Lead "z_r ?z1" demo_ans]
    by (simp add: Lookup_begin_def resolver_New_def begin_pc_def)
  ultimately have "reachable rinit (rstep demo_ans) ?z1" by (rule reachable.more)
  moreover have "rstep demo_ans ?z1 demo_lead"
    using rstep.begin_lookup [of ?z1 1 6 "''a''" "Join 0" "z_r demo_lead" demo_ans]
    by (simp add: Lookup_begin_def resolver_New_def begin_pc_def demo_lead_def)
  ultimately show ?thesis by (rule reachable.more)
qed

theorem resolver_bounds_witness:
  "reachable rinit (rstep demo_ans) demo_lead \<and> z_t demo_lead 1 = Some (''a'', Following 0) \<and>
   fmlen (rs_entries (z_r demo_lead)) \<le> 1024 \<and> (\<exists>p. z_t demo_lead 0 = Some (''a'', p))"
  using resolver_bounds [OF demo_lead_reach] demo_lead_reach by (simp add: demo_lead_def MaxEntries_def)

text \<open>
  C34: the resolver invents nothing. Every answer it caches for a name, and every
  answer it returns, is one the in-tunnel servers gave for that same name, or, for
  an answer it returns, the error of a context that ended while waiting.
\<close>

theorem resolver_sound:
  assumes "reachable rinit (rstep ans) z"
  shows "(\<forall>h e. fmlookup (rs_entries (z_r z)) h = Some e \<longrightarrow> ans h (en_addrs e, en_err e)) \<and>
    (\<forall>t h a. z_t z t = Some (h, Returned a) \<longrightarrow> ans h a \<or> ctx_answer a)"
proof -
  have inv: "rinv ans z" using assms by (rule rsv.reachable_inv)
  then have "\<forall>h e. fmlookup (rs_entries (z_r z)) h = Some e \<longrightarrow> ans h (en_addrs e, en_err e)"
    by (auto simp: rinv_def cache_ok_def)
  moreover have "ans h a \<or> ctx_answer a" if "z_t z t = Some (h, Returned a)" for t h a
    using rinv_pc [OF inv that] by (simp add: okay_def)
  ultimately show ?thesis by blast
qed

lemma demo_answer_reach:
  "\<exists>z. reachable rinit (rstep demo_ans) z \<and> z_t z 1 = Some (''a'', Returned ([Addr4 [9, 9, 9, 9]], None)) \<and>
     fmlookup (rs_entries (z_r z)) ''a'' \<noteq> None"
proof -
  let ?a = "([Addr4 [9, 9, 9, 9]], None) :: answer"
  let ?z1 = "demo_lead\<lparr>z_r := (z_r demo_lead)\<lparr>rs_sem := 1\<rparr>, z_t := (z_t demo_lead)(0 \<mapsto> (''a'', Querying 5))\<rparr>"
  let ?z2 = "demo_lead\<lparr>z_t := (z_t demo_lead)(0 \<mapsto> (''a'', Answered 5 False ?a))\<rparr>"
  let ?z3 = "?z2\<lparr>z_r := Lookup_finish 5 9 False ''a'' ?a (z_r ?z2), z_t := (z_t ?z2)(0 \<mapsto> (''a'', Returned ?a))\<rparr>"
  have ok: "demo_ans ''a'' ?a" by (simp add: demo_ans_def)
  have 1: "reachable rinit (rstep demo_ans) ?z1"
    using reachable.more [OF demo_lead_reach rstep.acquire [of _ 0 "''a''" 5]]
    by (simp add: demo_lead_def resolver_New_def MaxConcurrent_def)
  have 2: "reachable rinit (rstep demo_ans) ?z2"
    using reachable.more [OF 1 rstep.answered [of _ 0 "''a''" 5 demo_ans ?a]] ok
    by (simp add: demo_lead_def resolver_New_def)
  have 3: "reachable rinit (rstep demo_ans) ?z3"
    by (rule reachable.more [OF 2 rstep.publish [of _ 0 _ 5 False]]) simp_all
  have "reachable rinit (rstep demo_ans) (?z3\<lparr>z_t := (z_t ?z3)(1 \<mapsto> (''a'', Returned ?a))\<rparr>)"
    by (rule reachable.more [OF 3 rstep.followed [of _ 1 _ 0]]) (simp_all add: demo_lead_def)
  then show ?thesis by (intro exI conjI) (assumption, simp_all add: Lookup_finish_def Let_def)
qed

theorem resolver_sound_witness:
  "\<exists>z. reachable rinit (rstep demo_ans) z \<and> z_t z 1 = Some (''a'', Returned ([Addr4 [9, 9, 9, 9]], None)) \<and>
     (\<exists>e. fmlookup (rs_entries (z_r z)) ''a'' = Some e \<and> en_addrs e = [Addr4 [9, 9, 9, 9]])"
proof -
  obtain z e where z: "reachable rinit (rstep demo_ans) z" "z_t z 1 = Some (''a'', Returned ([Addr4 [9, 9, 9, 9]], None))"
    "fmlookup (rs_entries (z_r z)) ''a'' = Some e" using demo_answer_reach by blast
  with resolver_sound [OF z(1)] show ?thesis by (auto simp: demo_ans_def)
qed

text \<open>
  an answer is reused for its whole lifetime and no longer. After a lookup has
  stored its answer at time \<open>t\<close>, a lookup of the same name is a hit that returns
  exactly this answer before \<open>t\<close> plus the lifetime (60 s, or 5 s for an error) and
  starts a new query from then on; an error of a cancelled lookup is not stored.
\<close>

theorem resolver_lifetime:
  assumes "fmlookup (rs_entries r) h = None"
  shows "fst (Lookup_begin now' h self (Lookup_finish now t cancelled h a r)) =
    (if (snd a = None \<or> \<not> cancelled) \<and> now' < t + (if snd a = None then 60000000000 else 5000000000)
     then Hit a else Lead)"
  using assms
  by (auto simp: Lookup_begin_def Lookup_finish_def Let_def PositiveTTL_def NegativeTTL_def split: option.splits if_splits)

theorem resolver_lifetime_witness:
  "fst (Lookup_begin 59000000000 ''a'' 1 (Lookup_finish 0 0 False ''a'' ([Addr4 [1, 1, 1, 1]], None) resolver_New))
     = Hit ([Addr4 [1, 1, 1, 1]], None)
   \<and> fst (Lookup_begin 60000000000 ''a'' 1 (Lookup_finish 0 0 False ''a'' ([Addr4 [1, 1, 1, 1]], None) resolver_New)) = Lead"
  using resolver_lifetime [of resolver_New "''a''" 59000000000 1 0 0 False "([Addr4 [1, 1, 1, 1]], None)"]
    resolver_lifetime [of resolver_New "''a''" 60000000000 1 0 0 False "([Addr4 [1, 1, 1, 1]], None)"]
  by (simp add: resolver_New_def)

text \<open>
  \<open>Flush\<close> empties the cache but does not touch queries in flight: a lookup that
  was querying when the cache was flushed stores its answer afterwards, so that an
  answer of the previous configuration is served after the flush.
\<close>

theorem flush_keeps_inflight:
  "rs_entries (Flush r) = fmempty \<and> rs_inflight (Flush r) = rs_inflight r \<and>
   fst (Lookup_begin now' h self (Lookup_finish now t cancelled h (addrs, None) (Flush r)))
     = (if now' < t + PositiveTTL then Hit (addrs, None) else Lead)"
  by (simp add: Flush_def Lookup_begin_def Lookup_finish_def Let_def split: option.splits)

end
