(* ===== verification/Socks5_Wire.thy ===== *)
theory Socks5_Wire
  imports Awg_Errors
begin

text \<open>
  The wire formats of \<open>internal/socks5\<close>: method negotiation, requests, replies
  and the UDP header, with the reply code chosen for an error.

  A client connection is the bytes its peer still sends before it stops (closes,
  or runs into the read deadline), the bytes written to it and whether writes
  succeed. \<open>io.ReadFull\<close> either gets all it asks for or fails.
\<close>

section \<open>Protocol constants\<close>

abbreviation (input) socksVersion :: byte where "socksVersion \<equiv> 5"
abbreviation (input) methodNoAuth :: byte where "methodNoAuth \<equiv> 0"
abbreviation (input) methodNoAcceptable :: byte where "methodNoAcceptable \<equiv> 255"
abbreviation (input) cmdConnect :: byte where "cmdConnect \<equiv> 1"
abbreviation (input) cmdBind :: byte where "cmdBind \<equiv> 2"
abbreviation (input) cmdUDPAssociate :: byte where "cmdUDPAssociate \<equiv> 3"
abbreviation (input) atypIPv4 :: byte where "atypIPv4 \<equiv> 1"
abbreviation (input) atypDomain :: byte where "atypDomain \<equiv> 3"
abbreviation (input) atypIPv6 :: byte where "atypIPv6 \<equiv> 4"
abbreviation (input) repSuccess :: byte where "repSuccess \<equiv> 0"
abbreviation (input) repGeneralFailure :: byte where "repGeneralFailure \<equiv> 1"
abbreviation (input) repNetworkUnreachable :: byte where "repNetworkUnreachable \<equiv> 3"
abbreviation (input) repHostUnreachable :: byte where "repHostUnreachable \<equiv> 4"
abbreviation (input) repConnectionRefused :: byte where "repConnectionRefused \<equiv> 5"
abbreviation (input) repCommandNotSupported :: byte where "repCommandNotSupported \<equiv> 7"
abbreviation (input) repAddrTypeNotSupported :: byte where "repAddrTypeNotSupported \<equiv> 8"

section \<open>Connections\<close>

record conn =
  c_in :: "byte list"
  c_out :: "byte list"
  c_wok :: bool
  c_closed :: bool
  c_wshut :: bool
  c_half :: bool

text \<open>
  \<open>Close\<close> ends reading and writing, \<open>CloseWrite\<close> only writing. \<open>c_half\<close> says whether
  the connection has a \<open>CloseWrite\<close> method at all.
\<close>

definition CloseConn :: "conn \<Rightarrow> conn" where
  "CloseConn c = c\<lparr>c_closed := True, c_wok := False, c_in := []\<rparr>"

definition CloseWrite :: "conn \<Rightarrow> conn" where
  "CloseWrite c = c\<lparr>c_wshut := True, c_wok := False\<rparr>"

definition ReadFull :: "nat \<Rightarrow> conn \<Rightarrow> byte list option \<times> conn" where
  "ReadFull n c =
     (if n \<le> length (c_in c) then (Some (take n (c_in c)), c\<lparr>c_in := drop n (c_in c)\<rparr>)
      else (None, c\<lparr>c_in := []\<rparr>))"

definition Write :: "byte list \<Rightarrow> conn \<Rightarrow> bool \<times> conn" where
  "Write bs c = (if c_wok c then (True, c\<lparr>c_out := c_out c @ bs\<rparr>) else (False, c))"

lemma ReadFull_append [wire_simps]:
  "c_in c = xs @ ys \<Longrightarrow> length xs = n \<Longrightarrow> ReadFull n c = (Some xs, c\<lparr>c_in := ys\<rparr>)"
  by (simp add: ReadFull_def)

lemma ReadFull_Cons2 [wire_simps]:
  "c_in c = a # b # ys \<Longrightarrow> ReadFull 2 c = (Some [a, b], c\<lparr>c_in := ys\<rparr>)"
  by (simp add: ReadFull_def)

lemma ReadFull_Cons4 [wire_simps]:
  "c_in c = a # b # d # e # ys \<Longrightarrow> ReadFull 4 c = (Some [a, b, d, e], c\<lparr>c_in := ys\<rparr>)"
  by (simp add: ReadFull_def)

lemma ReadFull_Cons1 [wire_simps]:
  "c_in c = a # ys \<Longrightarrow> ReadFull 1 c = (Some [a], c\<lparr>c_in := ys\<rparr>)"
  by (simp add: ReadFull_def)

lemma ReadFull_frame [frame_simps]:
  "c_out (snd (ReadFull n c)) = c_out c" "c_wok (snd (ReadFull n c)) = c_wok c"
  "c_closed (snd (ReadFull n c)) = c_closed c"
  by (simp_all add: ReadFull_def)

section \<open>Method negotiation\<close>

datatype neg_err =
  NegGreeting | NegVersion byte | NegNoMethods | NegMethodList | NegWrite | NegNoAcceptable

definition negotiate :: "conn \<Rightarrow> (neg_err + unit) \<times> conn" where
  "negotiate c =
     (case ReadFull 2 c of
        (Some [ver, nm], c1) \<Rightarrow>
          if ver \<noteq> socksVersion then (Inl (NegVersion ver), c1)
          else if nm = 0 then (Inl NegNoMethods, c1)
          else (case ReadFull (unat nm) c1 of
              (None, c2) \<Rightarrow> (Inl NegMethodList, c2)
            | (Some methods, c2) \<Rightarrow>
                if methodNoAuth \<in> set methods then
                  (case Write [socksVersion, methodNoAuth] c2 of
                     (True, c3) \<Rightarrow> (Inr (), c3)
                   | (False, c3) \<Rightarrow> (Inl NegWrite, c3))
                else (Inl NegNoAcceptable, snd (Write [socksVersion, methodNoAcceptable] c2)))
      | (_, c1) \<Rightarrow> (Inl NegGreeting, c1))"

section \<open>Replies\<close>

definition reply_addr :: "Addr \<Rightarrow> byte list" where
  "reply_addr a =
     (if Is4 a then atypIPv4 # As4 a
      else if Is6 a then atypIPv6 # As16 a
      else [atypIPv4, 0, 0, 0, 0])"

definition reply_bytes :: "byte \<Rightarrow> AddrPort \<Rightarrow> byte list" where
  "reply_bytes rep bound = [socksVersion, rep, 0] @ reply_addr (ap_addr bound) @ put16 (ap_port bound)"

definition writeReply :: "conn \<Rightarrow> byte \<Rightarrow> AddrPort \<Rightarrow> bool \<times> conn" where
  "writeReply c rep bound = Write (reply_bytes rep bound) c"

section \<open>Requests\<close>

record destination =
  d_host :: string
  d_addr :: Addr
  d_port :: u16

datatype req_err =
    ReqHeader | ReqVersion byte | ReqIPv4 | ReqIPv6 | ReqDomainLen | ReqEmptyDomain | ReqDomain
  | ReqAtyp byte | ReqPort

text \<open>A name that is an IP address in text is treated as the address.\<close>

definition host_dest :: "string \<Rightarrow> string \<times> Addr" where
  "host_dest host =
     (case ParseAddr host of Some a \<Rightarrow> ([], Unmap a) | None \<Rightarrow> (host, Addr0))"

definition read_address :: "byte \<Rightarrow> conn \<Rightarrow> (req_err + string \<times> Addr) \<times> conn" where
  "read_address atyp c =
     (if atyp = atypIPv4 then
        (case ReadFull 4 c of
           (Some b, c1) \<Rightarrow> (Inr ([], Addr4 b), c1)
         | (None, c1) \<Rightarrow> (Inl ReqIPv4, c1))
      else if atyp = atypIPv6 then
        (case ReadFull 16 c of
           (Some b, c1) \<Rightarrow> (Inr ([], Addr6 b []), c1)
         | (None, c1) \<Rightarrow> (Inl ReqIPv6, c1))
      else if atyp = atypDomain then
        (case ReadFull 1 c of
           (Some [l], c1) \<Rightarrow>
             if l = 0 then (Inl ReqEmptyDomain, c1)
             else (case ReadFull (unat l) c1 of
                 (Some nm, c2) \<Rightarrow> (Inr (host_dest (string_of_bytes nm)), c2)
               | (None, c2) \<Rightarrow> (Inl ReqDomain, c2))
         | (_, c1) \<Rightarrow> (Inl ReqDomainLen, c1))
      else (Inl (ReqAtyp atyp), snd (writeReply c repAddrTypeNotSupported AddrPort0)))"

definition readRequest :: "conn \<Rightarrow> (req_err + byte \<times> destination) \<times> conn" where
  "readRequest c =
     (case ReadFull 4 c of
        (Some [ver, cmd, rsv, atyp], c1) \<Rightarrow>
          if ver \<noteq> socksVersion then (Inl (ReqVersion ver), c1)
          else (case read_address atyp c1 of
              (Inl e, c2) \<Rightarrow> (Inl e, c2)
            | (Inr (host, addr), c2) \<Rightarrow>
                (case ReadFull 2 c2 of
                   (Some [hi, lo], c3) \<Rightarrow>
                     (Inr (cmd, \<lparr>d_host = host, d_addr = addr, d_port = be16 hi lo\<rparr>), c3)
                 | (_, c3) \<Rightarrow> (Inl ReqPort, c3)))
      | (_, c1) \<Rightarrow> (Inl ReqHeader, c1))"

section \<open>The UDP header\<close>

record udpDestination =
  u_host :: string
  u_addr :: Addr
  u_port :: u16

datatype udp_err =
    UdpShort | UdpReserved | UdpFragmented | UdpTruncatedIPv4 | UdpTruncatedIPv6 | UdpTruncatedDomain
  | UdpEmptyDomain | UdpAtyp byte | UdpPortZero | UdpPanic

text \<open>
  \<open>UdpPanic\<close> stands for the run-time panic of a slice expression out of range: the
  read of the port, \<open>rest[:2]\<close>, relies on the length checks before it.
\<close>

definition udp_address :: "byte \<Rightarrow> byte list \<Rightarrow> udp_err + (string \<times> Addr) \<times> byte list" where
  "udp_address atyp rest =
     (if atyp = atypIPv4 then
        (if length rest < 6 then Inl UdpTruncatedIPv4
         else Inr (([], Addr4 (take 4 rest)), drop 4 rest))
      else if atyp = atypIPv6 then
        (if length rest < 18 then Inl UdpTruncatedIPv6
         else Inr (([], Addr6 (take 16 rest) []), drop 16 rest))
      else if atyp = atypDomain then
        (case rest of
           [] \<Rightarrow> Inl UdpTruncatedDomain
         | l # t \<Rightarrow>
             if l = 0 then Inl UdpEmptyDomain
             else if length rest < 1 + unat l + 2 then Inl UdpTruncatedDomain
             else Inr (host_dest (string_of_bytes (take (unat l) t)), drop (unat l) t))
      else Inl (UdpAtyp atyp))"

definition parseUDPHeader :: "byte list \<Rightarrow> udp_err + udpDestination \<times> byte list" where
  "parseUDPHeader b =
     (case b of
        r0 # r1 # frag # atyp # rest \<Rightarrow>
          if r0 \<noteq> 0 \<or> r1 \<noteq> 0 then Inl UdpReserved
          else if frag \<noteq> 0 then Inl UdpFragmented
          else rbind (udp_address atyp rest) (\<lambda>((host, addr), r).
            case r of
              hi # lo # payload \<Rightarrow>
                if be16 hi lo = 0 then Inl UdpPortZero
                else Inr (\<lparr>u_host = host, u_addr = addr, u_port = be16 hi lo\<rparr>, payload)
            | _ \<Rightarrow> Inl UdpPanic)
      | _ \<Rightarrow> Inl UdpShort)"

definition buildUDPHeader :: "byte list \<Rightarrow> AddrPort \<Rightarrow> byte list" where
  "buildUDPHeader dst src =
     (let addr = Unmap (ap_addr src) in
      dst @ [0, 0, 0]
      @ (if Is4 addr then atypIPv4 # As4 addr else atypIPv6 # As16 addr)
      @ put16 (ap_port src))"

section \<open>Reply code of an error\<close>

definition replyForError :: "goerr option \<Rightarrow> byte \<Rightarrow> byte" where
  "replyForError err fallback =
     (case err of
        None \<Rightarrow> repSuccess
      | Some e \<Rightarrow>
          if errors_Is e ErrTunnelDown \<or> errors_Is e ErrNotReady then repNetworkUnreachable
          else if errors_Is e ErrNoDNS then repHostUnreachable
          else if errors_Is e DeadlineExceeded \<or> errors_Is e Canceled then repHostUnreachable
          else
            (let msg = ToLower (e_msg e) in
             if Contains msg ''connection refused'' then repConnectionRefused
             else if Contains msg ''network is unreachable'' then repNetworkUnreachable
             else if Contains msg ''no route to host'' \<or> Contains msg ''host is unreachable''
               then repHostUnreachable
             else if fallback = 0 then repGeneralFailure
             else fallback))"

lemma replyForError_success_iff: "replyForError err fb = repSuccess \<longleftrightarrow> err = None"
  by (auto simp: replyForError_def Let_def split: option.splits)

lemma replyForError_down:
  "errors_Is e ErrTunnelDown \<or> errors_Is e ErrNotReady \<Longrightarrow> replyForError (Some e) fb = repNetworkUnreachable"
  by (auto simp: replyForError_def)

section \<open>What the parsers accept\<close>

lemma host_dest_cases:
  "host_dest h = (host, addr) \<Longrightarrow>
     (host = [] \<and> (\<exists>a. ParseAddr h = Some a \<and> addr = Unmap a)) \<or> (host = h \<and> ParseAddr h = None \<and> addr = Addr0)"
  by (auto simp: host_dest_def split: option.splits)

text \<open>A parsed target: an address in well-formed binary, or a name that is no address.\<close>

definition wf_target :: "string \<Rightarrow> Addr \<Rightarrow> bool" where
  "wf_target host addr \<longleftrightarrow>
     (if host = [] then wf_addr addr \<and> IsValid addr
      else ParseAddr host = None \<and> addr = Addr0 \<and> length host < 256)"

lemma ParseAddr_Nil [simp]: "ParseAddr [] = None"
  by (simp add: ParseAddr_def)

lemma wf_target_host_dest:
  assumes "h \<noteq> []" "length h < 256" "host_dest h = (host, addr)"
  shows "wf_target host addr"
  using assms by (auto simp: wf_target_def dest!: host_dest_cases ParseAddr_wf)

lemma ReadFull_Some: "ReadFull n c = (Some b, c') \<Longrightarrow>
    length b = n \<and> c_in c = b @ c_in c' \<and> c' = c\<lparr>c_in := c_in c'\<rparr>"
  by (auto simp: ReadFull_def split: if_splits)

lemma ReadFull_None: "ReadFull n c = (None, c') \<Longrightarrow> c' = c\<lparr>c_in := []\<rparr>"
  by (auto simp: ReadFull_def split: if_splits)

lemma read_address_wf:
  assumes "read_address atyp c = (Inr (host, addr), c')"
  shows "wf_target host addr" and "c' = c\<lparr>c_in := c_in c'\<rparr>" and "\<exists>b. c_in c = b @ c_in c'"
proof -
  have "wf_target host addr \<and> c' = c\<lparr>c_in := c_in c'\<rparr> \<and> (\<exists>b. c_in c = b @ c_in c')"
  proof (cases "atyp = atypDomain")
    case True
    with assms obtain l c1 nm where l: "ReadFull 1 c = (Some [l], c1)" "l \<noteq> 0"
      and nm: "ReadFull (unat l) c1 = (Some nm, c')" and h: "host_dest (string_of_bytes nm) = (host, addr)"
      by (auto simp: read_address_def split: if_splits option.splits prod.splits list.splits)
    have "nm \<noteq> []" "length nm < 256"
      using l(2) ReadFull_Some [OF nm] by (auto simp: unat_eq_zero)
    then have "wf_target host addr"
      by (intro wf_target_host_dest [OF _ _ h]) (auto simp: string_of_bytes_def)
    moreover have "c' = c\<lparr>c_in := c_in c'\<rparr>"
      using ReadFull_Some [OF l(1)] ReadFull_Some [OF nm] by (metis conn.surjective conn.update_convs(1))
    ultimately show ?thesis
      using ReadFull_Some [OF l(1)] ReadFull_Some [OF nm] by (metis append.assoc)
  next
    case False
    with assms show ?thesis
      by (auto simp: read_address_def wf_target_def writeReply_def
          dest!: ReadFull_Some split: if_splits option.splits prod.splits)
  qed
  then show "wf_target host addr" "c' = c\<lparr>c_in := c_in c'\<rparr>" "\<exists>b. c_in c = b @ c_in c'" by auto
qed

lemma readRequest_ok:
  assumes "readRequest c = (Inr (cmd, d), c')"
  shows "wf_target (d_host d) (d_addr d)" and "c' = c\<lparr>c_in := c_in c'\<rparr>"
    and "\<exists>b. c_in c = b @ c_in c'"
proof -
  from assms obtain rsv atyp c1 c2 hi lo host addr where
    h: "ReadFull 4 c = (Some [socksVersion, cmd, rsv, atyp], c1)"
    and a: "read_address atyp c1 = (Inr (host, addr), c2)"
    and q: "ReadFull 2 c2 = (Some [hi, lo], c')"
    and d: "d = \<lparr>d_host = host, d_addr = addr, d_port = be16 hi lo\<rparr>"
    by (auto simp: readRequest_def split: if_splits option.splits prod.splits list.splits sum.splits)
  note f = ReadFull_Some [OF h] read_address_wf [OF a] ReadFull_Some [OF q]
  show "wf_target (d_host d) (d_addr d)" using f d by simp
  show "c' = c\<lparr>c_in := c_in c'\<rparr>"
    using f by (metis conn.surjective conn.update_convs(1))
  show "\<exists>b. c_in c = b @ c_in c'" using f by (metis append.assoc)
qed

lemma writeReply_out: "c_wok c \<Longrightarrow> writeReply c rep b = (True, c\<lparr>c_out := c_out c @ reply_bytes rep b\<rparr>)"
  by (simp add: writeReply_def Write_def)

section \<open>Encodings a client produces\<close>

text \<open>RFC 1928 encodings, written independently of the parsers, for the round trips.\<close>

definition wire_target :: "string \<Rightarrow> Addr \<Rightarrow> byte list" where
  "wire_target host addr =
     (if host \<noteq> [] then atypDomain # word_of_nat (length host) # bytes_of_string host
      else if Is4 addr then atypIPv4 # As4 addr else atypIPv6 # As16 addr)"

definition wire_request :: "byte \<Rightarrow> byte \<Rightarrow> destination \<Rightarrow> byte list" where
  "wire_request cmd rsv d = [socksVersion, cmd, rsv] @ wire_target (d_host d) (d_addr d) @ put16 (d_port d)"

definition zoneless :: "Addr \<Rightarrow> bool" where
  "zoneless a \<longleftrightarrow> (case a of Addr6 _ z \<Rightarrow> z = [] | _ \<Rightarrow> True)"

lemma unat_length: "length (h :: string) < 256 \<Longrightarrow> unat (word_of_nat (length h) :: byte) = length h"
  by (simp add: unat_of_nat take_bit_eq_mod)

lemma length_not_0: "h \<noteq> [] \<Longrightarrow> length (h :: string) < 256 \<Longrightarrow> (word_of_nat (length h) :: byte) \<noteq> 0"
  by (metis length_0_conv unat_0 unat_length)

lemma read_address_wire:
  assumes "wf_target host addr" "zoneless addr" "wire_target host addr = atyp # b" "c_in c = b @ rest"
  shows "read_address atyp c = (Inr (host, addr), c\<lparr>c_in := rest\<rparr>)"
proof (cases "host = []")
  case True
  with assms show ?thesis
    by (cases addr) (auto simp: read_address_def wire_target_def wf_target_def zoneless_def ReadFull_append)
next
  case False
  with assms(1) have l: "length host < 256" and p: "ParseAddr host = None" "addr = Addr0"
    by (auto simp: wf_target_def)
  from False assms(3) have "atyp = atypDomain" and b: "b = word_of_nat (length host) # bytes_of_string host"
    by (auto simp: wire_target_def)
  moreover have "ReadFull 1 c = (Some [word_of_nat (length host)], c\<lparr>c_in := bytes_of_string host @ rest\<rparr>)"
    using assms(4) b by (simp add: ReadFull_def)
  ultimately show ?thesis
    using l p length_not_0 [OF False l] unat_length [OF l]
    by (simp add: read_address_def ReadFull_append host_dest_def)
qed

text \<open>
  C39: reading a request that a client encoded as RFC 1928 says returns the command
  and the destination, for an IPv4, an IPv6 or a name target, and consumes exactly
  the bytes of the request. Nothing is written to the client.
\<close>

theorem readRequest_roundtrip:
  assumes "wf_target (d_host d) (d_addr d)" and "zoneless (d_addr d)"
    and "c_in c = wire_request cmd rsv d @ rest"
  shows "readRequest c = (Inr (cmd, d), c\<lparr>c_in := rest\<rparr>)"
proof -
  obtain atyp b where w: "wire_target (d_host d) (d_addr d) = atyp # b"
    by (cases "wire_target (d_host d) (d_addr d)") (auto simp: wire_target_def split: if_splits)
  let ?c1 = "c\<lparr>c_in := b @ put16 (d_port d) @ rest\<rparr>"
  have "ReadFull 4 c = (Some [socksVersion, cmd, rsv, atyp], ?c1)"
    using assms(3) w by (simp add: wire_request_def ReadFull_Cons4)
  moreover have "read_address atyp ?c1 = (Inr (d_host d, d_addr d), c\<lparr>c_in := put16 (d_port d) @ rest\<rparr>)"
    using read_address_wire [OF assms(1,2) w, of ?c1] by simp
  moreover have "ReadFull 2 (c\<lparr>c_in := put16 (d_port d) @ rest\<rparr>)
      = (Some [ucast (drop_bit 8 (d_port d)), ucast (d_port d)], c\<lparr>c_in := rest\<rparr>)"
    by (simp add: put16_def ReadFull_Cons2)
  ultimately show ?thesis by (simp add: readRequest_def)
qed

definition demo_conn :: "byte list \<Rightarrow> conn" where
  "demo_conn bs = \<lparr>c_in = bs, c_out = [], c_wok = True, c_closed = False, c_wshut = False, c_half = True\<rparr>"

theorem readRequest_roundtrip_witness:
  "readRequest (demo_conn [5, 1, 0, 1, 10, 0, 0, 7, 1, 187, 9, 9])
     = (Inr (1, \<lparr>d_host = [], d_addr = Addr4 [10, 0, 0, 7], d_port = 443\<rparr>), demo_conn [9, 9])"
  using readRequest_roundtrip [of "\<lparr>d_host = [], d_addr = Addr4 [10, 0, 0, 7], d_port = 443\<rparr>"
      "demo_conn [5, 1, 0, 1, 10, 0, 0, 7, 1, 187, 9, 9]" 1 0 "[9, 9]"]
  by (simp add: wf_target_def zoneless_def wire_request_def wire_target_def put16_def demo_conn_def)

text \<open>
  a SOCKS5 UDP header built for a datagram from \<open>src\<close>, followed by the payload,
  parses back to the same source (in unmapped form, without a zone, which the wire
  cannot carry), the same port and exactly the payload.
\<close>

theorem parse_build_UDPHeader:
  assumes "wf_addr (ap_addr src)" and "IsValid (ap_addr src)" and "ap_port src \<noteq> 0"
  shows "parseUDPHeader (buildUDPHeader [] src @ payload) =
    Inr (\<lparr>u_host = [], u_addr = WithZone (Unmap (ap_addr src)) [], u_port = ap_port src\<rparr>, payload)"
proof -
  have wf: "wf_addr (Unmap (ap_addr src))" and v: "IsValid (Unmap (ap_addr src))"
    using assms(1,2) by auto
  show ?thesis
  proof (cases "Unmap (ap_addr src)")
    case Addr0
    with v show ?thesis by simp
  next
    case (Addr4 bs)
    with wf assms(3) show ?thesis
      by (simp add: parseUDPHeader_def buildUDPHeader_def udp_address_def put16_def)
  next
    case (Addr6 bs z)
    with wf assms(3) show ?thesis
      by (simp add: parseUDPHeader_def buildUDPHeader_def udp_address_def put16_def)
  qed
qed

theorem parse_build_UDPHeader_witness:
  "parseUDPHeader (buildUDPHeader [] (AddrPortFrom (Addr4 [8, 8, 4, 4]) 53) @ [1, 2, 3])
     = Inr (\<lparr>u_host = [], u_addr = Addr4 [8, 8, 4, 4], u_port = 53\<rparr>, [1, 2, 3])"
  using parse_build_UDPHeader [of "AddrPortFrom (Addr4 [8, 8, 4, 4]) 53" "[1, 2, 3]"] by simp

lemma udp_address_ok:
  assumes "udp_address atyp rest = Inr ((host, addr), r)"
  shows "2 \<le> length r" and "wf_target host addr" and "\<exists>h. rest = h @ r \<and> 2 \<le> length h"
proof -
  have "2 \<le> length r \<and> wf_target host addr \<and> (\<exists>h. rest = h @ r \<and> 2 \<le> length h)"
  proof (cases "atyp = atypDomain")
    case True
    with assms obtain l t where rest: "rest = l # t" and l: "l \<noteq> 0" and len: "unat l + 2 \<le> length t"
      and h: "host_dest (string_of_bytes (take (unat l) t)) = (host, addr)" and r: "r = drop (unat l) t"
      by (auto simp: udp_address_def split: list.splits if_splits)
    have n: "0 < unat l" using l by (simp add: unat_gt_0)
    have "string_of_bytes (take (unat l) t) \<noteq> []" "length (string_of_bytes (take (unat l) t)) < 256"
      using n len by (auto simp: string_of_bytes_def)
    then have "wf_target host addr" by (rule wf_target_host_dest [OF _ _ h])
    moreover have "rest = (l # take (unat l) t) @ r" using rest r by simp
    moreover have "2 \<le> length (l # take (unat l) t)" using n len by simp
    moreover have "2 \<le> length r" using r len by simp
    ultimately show ?thesis by blast
  next
    case False
    with assms show ?thesis
      by (auto simp: udp_address_def wf_target_def intro!: drop_suffix split: if_splits)
  qed
  then show "2 \<le> length r" "wf_target host addr" "\<exists>h. rest = h @ r \<and> 2 \<le> length h" by auto
qed

text \<open>
  \<open>parseUDPHeader\<close> is safe on every datagram: it never slices out of range, and
  whatever it accepts has a non-zero port, a target that is either a well-formed
  address or a name which is not an address in text, and a payload that is the
  proper suffix of the datagram after the header.
\<close>

theorem parseUDPHeader_safe:
  "parseUDPHeader b \<noteq> Inl UdpPanic \<and>
   (\<forall>d p. parseUDPHeader b = Inr (d, p) \<longrightarrow>
      u_port d \<noteq> 0 \<and> wf_target (u_host d) (u_addr d) \<and> (\<exists>h. b = h @ p \<and> 8 \<le> length h))"
proof -
  have key: "parseUDPHeader b \<noteq> Inl UdpPanic \<and> (\<forall>d p. parseUDPHeader b = Inr (d, p) \<longrightarrow>
      u_port d \<noteq> 0 \<and> wf_target (u_host d) (u_addr d) \<and> (\<exists>h. b = h @ p \<and> 8 \<le> length h))"
    if b: "b = 0 # 0 # 0 # atyp # rest" for atyp rest
  proof (cases "udp_address atyp rest")
    case (Inl e)
    then show ?thesis using b
      by (auto simp: parseUDPHeader_def udp_address_def split: if_splits list.splits)
  next
    case (Inr x)
    then obtain host addr r where u: "udp_address atyp rest = Inr ((host, addr), r)" by (cases x) auto
    note ok = udp_address_ok [OF u]
    from ok(1) obtain hi lo p where r: "r = hi # lo # p" by (cases r; cases "tl r") auto
    from ok(3) r obtain h where "rest = h @ hi # lo # p" "2 \<le> length h" by auto
    then have "b = (0 # 0 # 0 # atyp # h @ [hi, lo]) @ p" "8 \<le> length (0 # 0 # 0 # atyp # h @ [hi, lo])"
      using b by auto
    then show ?thesis using b u r ok(2) by (auto simp: parseUDPHeader_def)
  qed
  show ?thesis
  proof (cases "\<exists>atyp rest. b = 0 # 0 # 0 # atyp # rest")
    case True
    with key show ?thesis by blast
  next
    case False
    then show ?thesis by (auto simp: parseUDPHeader_def split: list.splits if_splits)
  qed
qed

theorem parseUDPHeader_safe_witness:
  "parseUDPHeader [0, 0, 0, 1, 1, 1, 1, 1, 0, 53, 7]
     = Inr (\<lparr>u_host = [], u_addr = Addr4 [1, 1, 1, 1], u_port = 53\<rparr>, [7])
   \<and> (53 :: u16) \<noteq> 0 \<and> wf_target [] (Addr4 [1, 1, 1, 1])"
proof -
  have e: "parseUDPHeader [0, 0, 0, 1, 1, 1, 1, 1, 0, 53, 7]
     = Inr (\<lparr>u_host = [], u_addr = Addr4 [1, 1, 1, 1], u_port = 53\<rparr>, [7])"
    by (simp add: parseUDPHeader_def udp_address_def be16_def)
  with parseUDPHeader_safe [of "[0, 0, 0, 1, 1, 1, 1, 1, 0, 53, 7]"] show ?thesis by simp
qed

text \<open>
  the method negotiation succeeds exactly for a version 5 greeting that offers
  "no authentication" among its methods on a connection that can be written, and
  then the answer is \<open>05 00\<close> and exactly the greeting has been consumed.
\<close>

theorem negotiate_iff:
  "negotiate c = (Inr (), c') \<longleftrightarrow>
     (\<exists>ms rest. ms \<noteq> [] \<and> length ms < 256 \<and> methodNoAuth \<in> set ms \<and> c_wok c \<and>
        c_in c = [socksVersion, word_of_nat (length ms)] @ ms @ rest \<and>
        c' = c\<lparr>c_in := rest, c_out := c_out c @ [socksVersion, methodNoAuth]\<rparr>)"
  (is "?L \<longleftrightarrow> ?R")
proof
  assume ?L
  then obtain nm c1 ms c2 where h: "ReadFull 2 c = (Some [socksVersion, nm], c1)" "nm \<noteq> 0"
    and m: "ReadFull (unat nm) c1 = (Some ms, c2)" "methodNoAuth \<in> set ms"
    and w: "Write [socksVersion, methodNoAuth] c2 = (True, c')"
    by (auto simp: negotiate_def split: if_splits option.splits prod.splits list.splits bool.splits)
  have "c_in c = [socksVersion, nm] @ ms @ c_in c2" "length ms = unat nm" "c2 = c\<lparr>c_in := c_in c2\<rparr>"
    using ReadFull_Some [OF h(1)] ReadFull_Some [OF m(1)]
    by (auto intro: conn.equality)
  moreover have "c_wok c2" "c' = c2\<lparr>c_out := c_out c2 @ [socksVersion, methodNoAuth]\<rparr>"
    using w by (auto simp: Write_def split: if_splits)
  moreover obtain rest where "rest = c_in c2" by simp
  ultimately have "length ms = unat nm" "c_in c = [socksVersion, nm] @ ms @ rest" "c2 = c\<lparr>c_in := rest\<rparr>"
    "c_wok c" "c' = c\<lparr>c_in := rest, c_out := c_out c @ [socksVersion, methodNoAuth]\<rparr>"
    by (simp_all, (metis conn.select_convs conn.surjective conn.update_convs)+)
  with m(2) h(2) show ?R by (intro exI [of _ ms] exI [of _ rest]) (auto simp: unat_eq_zero)
next
  assume ?R
  then obtain ms rest where ms: "ms \<noteq> []" "length ms < 256" "methodNoAuth \<in> set ms" "c_wok c"
    "c_in c = [socksVersion, word_of_nat (length ms)] @ ms @ rest"
    and c': "c' = c\<lparr>c_in := rest, c_out := c_out c @ [socksVersion, methodNoAuth]\<rparr>" by blast
  have u: "unat (word_of_nat (length ms) :: byte) = length ms" using ms(2) by (simp add: unat_of_nat take_bit_eq_mod)
  then have "(word_of_nat (length ms) :: byte) \<noteq> 0" using ms(1) by (metis length_0_conv unat_0)
  with u ms c' show ?L by (simp add: negotiate_def ReadFull_Cons2 ReadFull_append Write_def)
qed

end
