(* ===== verification/Socks5_Core.thy ===== *)
theory Socks5_Core
  imports Socks5_Wire
begin

text \<open>
  The state of the SOCKS5 server (\<open>internal/socks5/server.go\<close>): the record behind
  \<open>Server\<close>, its construction, its snapshot, the \<open>Dialer\<close> interface it sends
  everything through, and the filter on resolved addresses.

  \<open>atomic.Int64\<close> counters count sessions and are modelled by \<open>int\<close>: none can be
  driven near 2^63. \<open>atomic.Uint64\<close> counters count bytes and datagrams and keep
  their width, so their additions wrap as in the code.
\<close>

section \<open>The egress interface\<close>

text \<open>
  \<open>'w\<close> is everything outside the server: the tunnel and the network. \<open>'p\<close> is an
  in-tunnel packet socket. A context only bounds how long a call may take, so the
  answer \<open>DialTCP d t w\<close> already includes running out of time.
\<close>

record ('w, 'p) Dialer =
  DialTCP :: "AddrPort \<Rightarrow> 'w \<Rightarrow> (goerr + conn) \<times> 'w"
  LookupHost :: "string \<Rightarrow> 'w \<Rightarrow> (goerr + Addr list) \<times> 'w"
  HasDNS :: "'w \<Rightarrow> bool"
  ListenUDP :: "bool \<Rightarrow> 'w \<Rightarrow> (goerr + 'p) \<times> 'w"
  pc_WriteTo :: "'p \<Rightarrow> byte list \<Rightarrow> AddrPort \<Rightarrow> 'w \<Rightarrow> (goerr + nat) \<times> 'w"
  pc_Close :: "'p \<Rightarrow> 'w \<Rightarrow> 'w"

section \<open>net.Addr and the operating system's sockets\<close>

record UDPAddr =
  ua_IP :: "byte list"
  ua_Port :: int

datatype net_Addr = NetUDP UDPAddr | NetOther string

text \<open>
  The loopback sockets of the machine: what \<open>net.Listen\<close> and \<open>net.ListenUDP\<close>
  return (the bound address) and whether the kernel takes a datagram.
\<close>

record os_net =
  os_Listen :: "string \<Rightarrow> goerr + string"
  os_ListenUDP :: "goerr + UDPAddr"
  os_SendUDP :: "byte list \<Rightarrow> AddrPort \<Rightarrow> bool"

section \<open>Server\<close>

record Server =
  s_listen :: string
  s_maxConns :: int
  s_udpEnabled :: bool
  s_ln :: "string option"
  s_active :: "nat set"
  s_started :: bool
  s_closing :: bool
  statActive :: int
  statTotal :: int
  statRejected :: int
  statFailed :: int
  statHostname :: int
  statNoName :: int
  statTx :: u64
  statRx :: u64
  statUDPAssoc :: int
  statUDPSent :: u64
  statUDPReceived :: u64
  statUDPDropped :: u64
  statUDPBytesUp :: u64
  statUDPBytesDown :: u64

definition defaultMaxConns :: int where
  "defaultMaxConns = 1024"

definition ResolveMaxConns :: "int \<Rightarrow> int" where
  "ResolveMaxConns n = (if n \<le> 0 then defaultMaxConns else n)"

definition NewWithOptions :: "string \<Rightarrow> int \<Rightarrow> bool \<Rightarrow> Server" where
  "NewWithOptions listen maxConns udp =
     \<lparr>s_listen = listen, s_maxConns = ResolveMaxConns maxConns, s_udpEnabled = udp,
      s_ln = None, s_active = {}, s_started = False, s_closing = False,
      statActive = 0, statTotal = 0, statRejected = 0, statFailed = 0, statHostname = 0, statNoName = 0,
      statTx = 0, statRx = 0, statUDPAssoc = 0, statUDPSent = 0, statUDPReceived = 0,
      statUDPDropped = 0, statUDPBytesUp = 0, statUDPBytesDown = 0\<rparr>"

definition New :: "string \<Rightarrow> int \<Rightarrow> Server" where
  "New listen maxConns = NewWithOptions listen maxConns True"

definition Server_Addr :: "Server \<Rightarrow> string" where
  "Server_Addr s = (case s_ln s of Some a \<Rightarrow> a | None \<Rightarrow> s_listen s)"

definition Listening :: "Server \<Rightarrow> bool" where
  "Listening s \<longleftrightarrow> s_started s \<and> \<not> s_closing s"

record Stats =
  st_Listen :: string
  st_Listening :: bool
  st_Active :: int
  st_Total :: int
  st_Rejected :: int
  st_Failed :: int
  st_Hostname :: int
  st_Unresolved :: int
  st_BytesToPeer :: u64
  st_BytesToUser :: u64
  st_UDPEnabled :: bool
  st_UDPAssociations :: int
  st_UDPDatagramsUp :: u64
  st_UDPDatagramsDown :: u64
  st_UDPDropped :: u64
  st_UDPBytesUp :: u64
  st_UDPBytesDown :: u64

definition Server_Stats :: "Server \<Rightarrow> Stats" where
  "Server_Stats s =
     \<lparr>st_Listen = Server_Addr s, st_Listening = Listening s, st_Active = statActive s,
      st_Total = statTotal s, st_Rejected = statRejected s, st_Failed = statFailed s,
      st_Hostname = statHostname s, st_Unresolved = statNoName s,
      st_BytesToPeer = statTx s, st_BytesToUser = statRx s,
      st_UDPEnabled = s_udpEnabled s, st_UDPAssociations = statUDPAssoc s,
      st_UDPDatagramsUp = statUDPSent s, st_UDPDatagramsDown = statUDPReceived s,
      st_UDPDropped = statUDPDropped s, st_UDPBytesUp = statUDPBytesUp s,
      st_UDPBytesDown = statUDPBytesDown s\<rparr>"

lemma ResolveMaxConns_pos [simp]: "0 < ResolveMaxConns n"
  by (simp add: ResolveMaxConns_def defaultMaxConns_def)

lemma ResolveMaxConns_idem [simp]: "ResolveMaxConns (ResolveMaxConns n) = ResolveMaxConns n"
  by (simp add: ResolveMaxConns_def defaultMaxConns_def)

section \<open>Counters\<close>

definition fail1 :: "Server \<Rightarrow> Server" where
  "fail1 s = s\<lparr>statFailed := statFailed s + 1\<rparr>"

definition drop1 :: "Server \<Rightarrow> Server" where
  "drop1 s = s\<lparr>statUDPDropped := statUDPDropped s + 1\<rparr>"

definition noname1 :: "Server \<Rightarrow> Server" where
  "noname1 s = s\<lparr>statNoName := statNoName s + 1\<rparr>"

definition hostname1 :: "Server \<Rightarrow> Server" where
  "hostname1 s = s\<lparr>statHostname := statHostname s + 1\<rparr>"

text \<open>
  What no session and no datagram changes: everything but the counters of requests,
  bytes and datagrams.
\<close>

definition same_config :: "Server \<Rightarrow> Server \<Rightarrow> bool" where
  "same_config s t \<longleftrightarrow>
     s_listen t = s_listen s \<and> s_maxConns t = s_maxConns s \<and> s_udpEnabled t = s_udpEnabled s \<and>
     s_ln t = s_ln s \<and> s_active t = s_active s \<and> s_started t = s_started s \<and> s_closing t = s_closing s \<and>
     statActive t = statActive s \<and> statTotal t = statTotal s \<and> statRejected t = statRejected s"

lemma same_config_refl [simp]: "same_config s s"
  by (simp add: same_config_def)

lemma same_config_trans [trans]: "same_config a b \<Longrightarrow> same_config b c \<Longrightarrow> same_config a c"
  by (simp add: same_config_def)

section \<open>Resolved addresses\<close>

fun routable :: "Addr list \<Rightarrow> Addr list" where
  "routable [] = []"
| "routable (a # as) =
     (if \<not> IsUnspecified (Unmap a) then Unmap a # routable as else routable as)"

lemma routable_eq: "routable as = filter (\<lambda>a. \<not> IsUnspecified a) (map Unmap as)"
  by (induction as) auto

lemma routable_in: "a \<in> set (routable as) \<Longrightarrow> \<not> IsUnspecified a \<and> \<not> Is4In6 a \<and> Unmap a = a"
  by (induction as) (auto split: if_splits)

lemma routable_Cons: "routable as = a # rest \<Longrightarrow> \<not> IsUnspecified a \<and> \<not> Is4In6 a \<and> Unmap a = a"
  by (rule routable_in [of a as]) simp

lemma routable_length: "length (routable as) \<le> length as"
  by (simp add: routable_eq)

text \<open>What may be dialled or sent to: an address in plain form that is not unspecified.\<close>

definition egress_ok :: "AddrPort \<Rightarrow> bool" where
  "egress_ok t \<longleftrightarrow> \<not> IsUnspecified (ap_addr t) \<and> \<not> Is4In6 (ap_addr t) \<and> ap_port t \<noteq> 0"


text \<open>
  An egress that behaves arbitrarily for every target that may not be dialled or
  sent to. A program whose result is the same with it never uses such a target.
\<close>

definition guarded ::
  "(AddrPort \<Rightarrow> 'w \<Rightarrow> (goerr + conn) \<times> 'w) \<Rightarrow> ('p \<Rightarrow> byte list \<Rightarrow> AddrPort \<Rightarrow> 'w \<Rightarrow> (goerr + nat) \<times> 'w)
     \<Rightarrow> ('w, 'p) Dialer \<Rightarrow> ('w, 'p) Dialer" where
  "guarded dial send d =
     d\<lparr>DialTCP := (\<lambda>t w. if egress_ok t then DialTCP d t w else dial t w),
       pc_WriteTo := (\<lambda>c b t w. if egress_ok t then pc_WriteTo d c b t w else send c b t w)\<rparr>"

lemma guarded_simps [simp]:
  "LookupHost (guarded dial send d) = LookupHost d" "HasDNS (guarded dial send d) = HasDNS d"
  "ListenUDP (guarded dial send d) = ListenUDP d" "pc_Close (guarded dial send d) = pc_Close d"
  "egress_ok t \<Longrightarrow> DialTCP (guarded dial send d) t = DialTCP d t"
  "egress_ok t \<Longrightarrow> pc_WriteTo (guarded dial send d) c b t = pc_WriteTo d c b t"
  by (simp_all add: guarded_def)

end
