(* ===== verification/Awg_Tunnel.thy ===== *)
theory Awg_Tunnel
  imports Awg_Stats Config_Tunnel Dns_Resolver Socks5_Core
begin

text \<open>
  The tunnel (\<open>internal/awg/tunnel.go\<close>, \<open>dryrun.go\<close>, \<open>bind.go\<close>, \<open>internal/localdns\<close>):
  its state, starting and stopping, readiness, the operations the SOCKS5 server
  calls, supervision and hot reload.

  The upstream device, network stack and UAPI writer are a parameter: a record of
  functions that take and return the outside world \<open>'w\<close>. \<open>'d\<close> is a device, \<open>'n\<close> a
  network stack, \<open>'p\<close> a packet socket inside the tunnel.
\<close>

section \<open>Upstream\<close>

datatype BindMode = BindStd | BindRIO

definition ParseBindMode :: "string \<Rightarrow> BindMode option" where
  "ParseBindMode s =
     (let v = ToLower (TrimSpace s) in
      if v = [] \<or> v = ''std'' then Some BindStd
      else if v = ''rio'' then Some BindRIO
      else None)"

text \<open>What ends the select of \<open>toUAPI\<close>: the writer's result, the timer or the context.\<close>

datatype uapi_outcome = UapiDone string | UapiFailed goerr | UapiTimeout | UapiCancelled goerr

record ('w, 'd, 'n, 'p) upstream =
  up_CreateNetTUN :: "Addr list \<Rightarrow> Addr list \<Rightarrow> int \<Rightarrow> 'w \<Rightarrow> (goerr + 'n) \<times> 'w"
  up_NewDevice :: "'n \<Rightarrow> BindMode \<Rightarrow> 'w \<Rightarrow> 'd \<times> 'w"
  up_ToUAPI :: "conf_Config \<Rightarrow> 'w \<Rightarrow> uapi_outcome \<times> 'w"
  up_IpcSet :: "'d \<Rightarrow> string \<Rightarrow> 'w \<Rightarrow> goerr option \<times> 'w"
  up_IpcGet :: "'d \<Rightarrow> 'w \<Rightarrow> (goerr + string) \<times> 'w"
  up_Up :: "'d \<Rightarrow> 'w \<Rightarrow> goerr option \<times> 'w"
  up_BindUpdate :: "'d \<Rightarrow> 'w \<Rightarrow> goerr option \<times> 'w"
  up_Keepalive :: "'d \<Rightarrow> string \<Rightarrow> 'w \<Rightarrow> 'w"
  up_DevClose :: "'d \<Rightarrow> 'w \<Rightarrow> 'w"
  up_FromHex :: "string \<Rightarrow> goerr + string"
  up_DialUDP :: "'n \<Rightarrow> AddrPort \<Rightarrow> 'w \<Rightarrow> (goerr + 'p) \<times> 'w"
  up_ConnWrite :: "'p \<Rightarrow> byte list \<Rightarrow> 'w \<Rightarrow> (goerr + nat) \<times> 'w"
  up_DialTCP :: "'n \<Rightarrow> AddrPort \<Rightarrow> 'w \<Rightarrow> (goerr + conn) \<times> 'w"
  up_LookupHost :: "'n \<Rightarrow> string \<Rightarrow> 'w \<Rightarrow> (goerr + string list) \<times> 'w"
  up_ListenUDP :: "'n \<Rightarrow> AddrPort \<Rightarrow> 'w \<Rightarrow> (goerr + 'p) \<times> 'w"
  up_PacketWrite :: "'p \<Rightarrow> byte list \<Rightarrow> AddrPort \<Rightarrow> 'w \<Rightarrow> (goerr + nat) \<times> 'w"
  up_PacketClose :: "'p \<Rightarrow> 'w \<Rightarrow> 'w"

section \<open>State\<close>

datatype State = StateStopped | StateConnecting | StateConnected | StateReconnecting | StateFailed

text \<open>
  The readiness channel has an identity, \<open>tn_ready\<close>, and is open or closed. \<open>tn_kick\<close>
  is the buffered channel with room for one request.
\<close>

record ('d, 'n) tun =
  tn_cfg :: "Tunnel option"
  tn_dev :: "'d option"
  tn_net :: "'n option"
  tn_keys :: "string list"
  tn_ready :: nat
  tn_readyClosed :: bool
  tn_running :: bool
  tn_state :: State
  tn_lastErr :: string
  tn_reconnects :: int
  tn_startedAt :: "int option"
  tn_kick :: bool
  tn_bind :: BindMode
  tn_resolver :: Resolver

definition NewWithBind :: "Tunnel option \<Rightarrow> BindMode \<Rightarrow> ('d, 'n) tun" where
  "NewWithBind cfg mode =
     \<lparr>tn_cfg = cfg, tn_dev = None, tn_net = None, tn_keys = [], tn_ready = 0, tn_readyClosed = False, tn_running = False,
      tn_state = StateStopped, tn_lastErr = [], tn_reconnects = 0, tn_startedAt = None, tn_kick = False, tn_bind = mode,
      tn_resolver = resolver_New\<rparr>"

definition setState :: "State \<Rightarrow> ('d, 'n) tun \<Rightarrow> ('d, 'n) tun" where
  "setState s t = t\<lparr>tn_state := s\<rparr>"

definition setError :: "string \<Rightarrow> ('d, 'n) tun \<Rightarrow> ('d, 'n) tun" where
  "setError msg t = t\<lparr>tn_lastErr := msg\<rparr>"

definition clearError :: "('d, 'n) tun \<Rightarrow> ('d, 'n) tun" where
  "clearError t = t\<lparr>tn_lastErr := []\<rparr>"

definition markReady :: "('d, 'n) tun \<Rightarrow> ('d, 'n) tun" where
  "markReady t = t\<lparr>tn_readyClosed := True\<rparr>"

definition markNotReady :: "('d, 'n) tun \<Rightarrow> ('d, 'n) tun" where
  "markNotReady t =
     (if \<not> tn_running t then t
      else if tn_readyClosed t then t\<lparr>tn_ready := tn_ready t + 1, tn_readyClosed := False\<rparr>
      else t)"

section \<open>Building a device\<close>

definition toUAPI :: "('w, 'd, 'n, 'p) upstream \<Rightarrow> Tunnel \<Rightarrow> 'w \<Rightarrow> (goerr + string) \<times> 'w" where
  "toUAPI up cfg w =
     (case up_ToUAPI up (t_Config cfg) w of
        (UapiDone u, w1) \<Rightarrow> (Inr u, w1)
      | (UapiFailed e, w1) \<Rightarrow> (Inl (Errorf_w ''could not resolve the endpoint: '' e), w1)
      | (UapiTimeout, w1) \<Rightarrow> (Inl (errors_New ''timed out resolving the endpoint''), w1)
      | (UapiCancelled e, w1) \<Rightarrow> (Inl e, w1))"

fun peerKeys_loop :: "('w, 'd, 'n, 'p) upstream \<Rightarrow> nat \<Rightarrow> conf_peer list \<Rightarrow> goerr + string list" where
  "peerKeys_loop up i [] = Inr []"
| "peerKeys_loop up i (p # ps) =
     (case up_FromHex up (cp_PublicKeyHex p) of
        Inl e \<Rightarrow> Inl (Errorf_w (''peer #'' @ dec (i + 1) @ '' public key could not be converted: '') e)
      | Inr k \<Rightarrow> rbind (peerKeys_loop up (i + 1) ps) (\<lambda>ks. Inr (k # ks)))"

definition peerKeys :: "('w, 'd, 'n, 'p) upstream \<Rightarrow> Tunnel \<Rightarrow> goerr + string list" where
  "peerKeys up cfg = peerKeys_loop up 0 (cf_Peers (t_Config cfg))"

definition primeTransportPadding :: "('w, 'd, 'n, 'p) upstream \<Rightarrow> 'n \<Rightarrow> Tunnel \<Rightarrow> 'w \<Rightarrow> 'w" where
  "primeTransportPadding up net cfg w =
     (if t_s4 cfg = 0 then w
      else
        (let discard =
               (if \<not> HasFamily cfg False
                then Addr6 [0x20, 0x01, 0x0d, 0xb8, 0, 0, 0, 0, 0, 0, 0, 0, 0, 0, 0, 1] []
                else Addr4 [192, 0, 2, 1])
         in case up_DialUDP up net (AddrPortFrom discard 9) w of
              (Inl e, w1) \<Rightarrow> w1
            | (Inr c, w1) \<Rightarrow> (case up_ConnWrite up c [0] w1 of (r, w2) \<Rightarrow> up_PacketClose up c w2)))"

definition buildDevice ::
  "('w, 'd, 'n, 'p) upstream \<Rightarrow> Tunnel \<Rightarrow> BindMode \<Rightarrow> 'w \<Rightarrow> (goerr + 'd \<times> 'n \<times> string list) \<times> 'w" where
  "buildDevice up cfg mode w =
     (case up_CreateNetTUN up (t_Addresses cfg) (t_DNS cfg) (t_MTU cfg) w of
        (Inl e, w1) \<Rightarrow> (Inl (Errorf_w ''could not create the userspace network stack: '' e), w1)
      | (Inr net, w1) \<Rightarrow>
          (case up_NewDevice up net mode w1 of (dev, w2) \<Rightarrow>
             (case toUAPI up cfg w2 of
                (Inl e, w3) \<Rightarrow> (Inl e, up_DevClose up dev w3)
              | (Inr uapi, w3) \<Rightarrow>
                  (case up_IpcSet up dev uapi w3 of
                     (Some e, w4) \<Rightarrow>
                       (Inl (Errorf_w ''the AmneziaWG configuration could not be applied to the device: '' e),
                        up_DevClose up dev w4)
                   | (None, w4) \<Rightarrow>
                       (case up_Up up dev w4 of
                          (Some e, w5) \<Rightarrow>
                            (Inl (Errorf_w ''the AmneziaWG device could not be brought up: '' e), up_DevClose up dev w5)
                        | (None, w5) \<Rightarrow>
                            (case peerKeys up cfg of
                               Inl e \<Rightarrow> (Inl e, up_DevClose up dev w5)
                             | Inr keys \<Rightarrow> (Inr (dev, net, keys), primeTransportPadding up net cfg w5)))))))"

definition DryRun :: "('w, 'd, 'n, 'p) upstream \<Rightarrow> Tunnel option \<Rightarrow> 'w \<Rightarrow> goerr option \<times> 'w" where
  "DryRun up cfgo w =
     (case cfgo of
        None \<Rightarrow> (Some (errors_New ''the configuration is empty''), w)
      | Some cfg \<Rightarrow>
          (case toUAPI up cfg w of
             (Inl e, w1) \<Rightarrow> (Some e, w1)
           | (Inr uapi, w1) \<Rightarrow>
               (case up_CreateNetTUN up (t_Addresses cfg) (t_DNS cfg) (t_MTU cfg) w1 of
                  (Inl e, w2) \<Rightarrow> (Some (Errorf_w ''could not create the userspace network stack: '' e), w2)
                | (Inr net, w2) \<Rightarrow>
                    (case up_NewDevice up net BindStd w2 of (dev, w3) \<Rightarrow>
                       (case up_IpcSet up dev uapi w3 of
                          (Some e, w4) \<Rightarrow>
                            (Some (Errorf_w ''the AmneziaWG configuration was rejected by the upstream device: '' e),
                             up_DevClose up dev w4)
                        | (None, w4) \<Rightarrow>
                            (case peerKeys up cfg of
                               Inl e \<Rightarrow> (Some e, up_DevClose up dev w4)
                             | Inr _ \<Rightarrow> (None, up_DevClose up dev w4)))))))"

section \<open>Start and Stop\<close>

definition keepalive_all :: "('w, 'd, 'n, 'p) upstream \<Rightarrow> 'd \<Rightarrow> string list \<Rightarrow> 'w \<Rightarrow> 'w" where
  "keepalive_all up dev keys w = fold (up_Keepalive up dev) keys w"

definition kickHandshake :: "('w, 'd, 'n, 'p) upstream \<Rightarrow> ('d, 'n) tun \<Rightarrow> 'w \<Rightarrow> 'w" where
  "kickHandshake up t w =
     (case tn_dev t of None \<Rightarrow> w | Some dev \<Rightarrow> keepalive_all up dev (tn_keys t) w)"

definition Tunnel_Start ::
  "('w, 'd, 'n, 'p) upstream \<Rightarrow> int \<Rightarrow> ('d, 'n) tun \<times> 'w \<Rightarrow> goerr option \<times> ('d, 'n) tun \<times> 'w" where
  "Tunnel_Start up now tw =
     (case tw of (t, w) \<Rightarrow>
        if tn_running t then (Some (errors_New ''the tunnel is already running''), t, w)
        else (case tn_cfg t of
            None \<Rightarrow> (Some (errors_New ''no tunnel configuration has been loaded''), t, w)
          | Some cfg \<Rightarrow>
              (let t1 = clearError (setState StateConnecting t) in
               case buildDevice up cfg (tn_bind t) w of
                 (Inl e, w1) \<Rightarrow> (Some e, setError (e_msg e) (setState StateFailed t1), w1)
               | (Inr (dev, net, keys), w1) \<Rightarrow>
                   (let t2 = t1\<lparr>tn_dev := Some dev, tn_net := Some net, tn_keys := keys, tn_ready := tn_ready t1 + 1,
                                tn_readyClosed := False, tn_running := True,
                                tn_resolver := Flush (tn_resolver t1), tn_startedAt := Some now\<rparr>
                    in (None, t2, kickHandshake up t2 w1)))))"

text \<open>\<open>Stop\<close> up to the release of its lock, and from there on.\<close>

definition Stop_locked :: "('d, 'n) tun \<Rightarrow> ('d, 'n) tun" where
  "Stop_locked t = t\<lparr>tn_dev := None, tn_net := None, tn_running := False, tn_readyClosed := True\<rparr>"

definition Tunnel_Stop :: "('w, 'd, 'n, 'p) upstream \<Rightarrow> ('d, 'n) tun \<times> 'w \<Rightarrow> ('d, 'n) tun \<times> 'w" where
  "Tunnel_Stop up tw =
     (case tw of (t, w) \<Rightarrow>
        if \<not> tn_running t then (t, w)
        else
          (let t1 = Stop_locked t;
               w1 = (case tn_dev t of None \<Rightarrow> w | Some dev \<Rightarrow> up_DevClose up dev w)
           in (setState StateStopped (t1\<lparr>tn_resolver := Flush (tn_resolver t1)\<rparr>), w1)))"

section \<open>Readiness\<close>

text \<open>
  A call of \<open>WaitReady\<close> sees the tunnel under its lock at the start of a round and
  again when the channel it waits for has closed; the context ends the last round.
  Every caller's context has a deadline, so there is a last round.
\<close>

record wr_view =
  v_running :: bool
  v_ready :: nat

fun WaitReady :: "(wr_view \<times> wr_view) list \<Rightarrow> wr_view \<times> State \<times> goerr \<Rightarrow> goerr option" where
  "WaitReady [] (v, st, ctxErr) =
     (if \<not> v_running v then Some (sentinel_err ErrTunnelDown)
      else if st = StateConnected then None
      else Some ((sentinel_err ErrNotReady)\<lparr>e_msg := sentinel_msg ErrNotReady @ '': '' @ e_msg ctxErr\<rparr>))"
| "WaitReady ((v, v2) # rounds) final =
     (if \<not> v_running v then Some (sentinel_err ErrTunnelDown)
      else if \<not> v_running v2 then Some (sentinel_err ErrTunnelDown)
      else if v_ready v2 = v_ready v then None
      else WaitReady rounds final)"

type_synonym waiting = "(wr_view \<times> wr_view) list \<times> (wr_view \<times> State \<times> goerr)"

section \<open>The egress operations\<close>

definition Tunnel_DialTCP ::
  "('w, 'd, 'n, 'p) upstream \<Rightarrow> waiting \<Rightarrow> AddrPort \<Rightarrow> ('d, 'n) tun \<Rightarrow> 'w \<Rightarrow> (goerr + conn) \<times> 'w" where
  "Tunnel_DialTCP up wt addr t w =
     (case tn_net t of
        None \<Rightarrow> (Inl (sentinel_err ErrTunnelDown), w)
      | Some net \<Rightarrow>
          if \<not> tn_running t then (Inl (sentinel_err ErrTunnelDown), w)
          else (case WaitReady (fst wt) (snd wt) of
              Some e \<Rightarrow> (Inl e, w)
            | None \<Rightarrow>
                (case up_DialTCP up net addr w of
                   (Inl e, w1) \<Rightarrow> (Inl (Errorf_w (''could not reach '' @ AddrPort_String addr @ '' through the tunnel: '') e), w1)
                 | (Inr c, w1) \<Rightarrow> (Inr c, w1))))"

definition familyName :: "bool \<Rightarrow> string" where
  "familyName ipv6 = (if ipv6 then ''IPv6'' else ''IPv4'')"

definition Tunnel_ListenUDP ::
  "('w, 'd, 'n, 'p) upstream \<Rightarrow> waiting \<Rightarrow> bool \<Rightarrow> ('d, 'n) tun \<Rightarrow> 'w \<Rightarrow> (goerr + 'p) \<times> 'w" where
  "Tunnel_ListenUDP up wt v6 t w =
     (case (tn_net t, tn_cfg t) of
        (Some net, Some cfg) \<Rightarrow>
          if \<not> tn_running t then (Inl (sentinel_err ErrTunnelDown), w)
          else (case AddressOfFamily cfg v6 of
              None \<Rightarrow> (Inl ((sentinel_err ErrNoRoute)\<lparr>e_msg := sentinel_msg ErrNoRoute @ '': tunnel has no '' @ familyName v6 @ '' address''\<rparr>), w)
            | Some addr \<Rightarrow>
                (case WaitReady (fst wt) (snd wt) of
                   Some e \<Rightarrow> (Inl e, w)
                 | None \<Rightarrow>
                     (case up_ListenUDP up net (AddrPortFrom addr 0) w of
                        (Inl e, w1) \<Rightarrow> (Inl (Errorf_w (''could not open an in-tunnel '' @ familyName v6 @ '' UDP socket: '') e), w1)
                      | (Inr c, w1) \<Rightarrow> (Inr c, w1))))
      | _ \<Rightarrow> (Inl (sentinel_err ErrTunnelDown), w))"

definition Tunnel_HasDNS :: "('d, 'n) tun \<Rightarrow> bool" where
  "Tunnel_HasDNS t \<longleftrightarrow> (case tn_cfg t of None \<Rightarrow> False | Some cfg \<Rightarrow> t_DNS cfg \<noteq> [] \<or> t_LocalDNS cfg \<noteq> [])"

section \<open>Name resolution\<close>

definition retryDecision :: "goerr \<Rightarrow> bool \<Rightarrow> bool \<times> bool" where
  "retryDecision e notFoundSeen =
     (case e_dns e of
        Some de \<Rightarrow>
          if de_notfound de then (\<not> notFoundSeen, True)
          else if de_timeout de \<or> de_err de = ''i/o timeout'' then (True, notFoundSeen)
          else if e_timeout e then (True, notFoundSeen)
          else (errors_Is e DeadlineExceeded, notFoundSeen)
      | None \<Rightarrow>
          if e_timeout e then (True, notFoundSeen)
          else (errors_Is e DeadlineExceeded, notFoundSeen))"

datatype ipnet = Ip | Ip4 | Ip6

definition lookupNetwork :: "Tunnel \<Rightarrow> ipnet" where
  "lookupNetwork cfg =
     (let v4 = HasFamily cfg False; v6 = HasFamily cfg True in
      if v4 \<and> \<not> v6 then Ip4 else if v6 \<and> \<not> v4 then Ip6 else Ip)"

text \<open>
  \<open>localdns.Lookup\<close>: \<open>res target network host\<close> is Go's resolver with its dialling
  pointed at \<open>target\<close>.
\<close>

type_synonym 'w resolver_io = "AddrPort \<Rightarrow> ipnet \<Rightarrow> string \<Rightarrow> 'w \<Rightarrow> (goerr + Addr list) \<times> 'w"

definition localdns_Lookup :: "'w resolver_io \<Rightarrow> Addr \<Rightarrow> ipnet \<Rightarrow> string \<Rightarrow> 'w \<Rightarrow> (goerr + Addr list) \<times> 'w" where
  "localdns_Lookup res server0 network host w =
     (let server = Unmap server0 in
      if \<not> IsLoopback server then (Inl (errors_New ''a local DNS server must be a loopback address''), w)
      else (case res (AddrPortFrom server 53) network host w of
          (Inl e, w1) \<Rightarrow> (Inl e, w1)
        | (Inr addrs, w1) \<Rightarrow> (Inr (map Unmap addrs), w1)))"

definition dnsAttempts :: nat where "dnsAttempts = 3"

text \<open>One query: in the tunnel, or to the configured local servers in turn.\<close>

definition tunnel_query :: "('w, 'd, 'n, 'p) upstream \<Rightarrow> 'n \<Rightarrow> string \<Rightarrow> 'w \<Rightarrow> (goerr + Addr list) \<times> 'w" where
  "tunnel_query up net host w =
     (case up_LookupHost up net host w of
        (Inl e, w1) \<Rightarrow> (Inl e, w1)
      | (Inr names, w1) \<Rightarrow> (Inr (map Unmap (List.map_filter ParseAddr names)), w1))"

definition dns_query ::
  "('w, 'd, 'n, 'p) upstream \<Rightarrow> 'w resolver_io \<Rightarrow> 'n \<Rightarrow> Tunnel option \<Rightarrow> string \<Rightarrow> nat \<Rightarrow> 'w \<Rightarrow> (goerr + Addr list) \<times> 'w" where
  "dns_query up res net cfgo host attempt w =
     (case cfgo of
        Some cfg \<Rightarrow>
          if t_LocalDNS cfg \<noteq> []
          then localdns_Lookup res (t_LocalDNS cfg ! ((attempt - 1) mod length (t_LocalDNS cfg))) (lookupNetwork cfg) host w
          else tunnel_query up net host w
      | None \<Rightarrow> tunnel_query up net host w)"

text \<open>
  The attempts: \<open>ctxDone attempt w\<close> is whether the context has ended before an attempt.
  \<open>lastErr\<close> is \<open>None\<close> while no attempt was made; the code then wraps a nil error.
\<close>

function lookup_loop ::
  "string \<Rightarrow> string \<Rightarrow> (nat \<Rightarrow> 'w \<Rightarrow> (goerr + Addr list) \<times> 'w) \<Rightarrow> (nat \<Rightarrow> 'w \<Rightarrow> bool) \<Rightarrow> nat \<Rightarrow> goerr option \<Rightarrow> bool \<Rightarrow> 'w
     \<Rightarrow> (goerr + Addr list) \<times> 'w" where
  "lookup_loop source host query ctxDone attempt lastErr notFound w =
     (let failed = (\<lambda>le. Inl (case le of
            None \<Rightarrow> errors_New (source @ '' resolution failed for '' @ host @ '': %!w(<nil>)'')
          | Some e \<Rightarrow> Errorf_w (source @ '' resolution failed for '' @ host @ '': '') e))
      in if attempt > dnsAttempts \<or> ctxDone attempt w then (failed lastErr, w)
         else (case query attempt w of
             (Inr out, w1) \<Rightarrow>
               if out \<noteq> [] then (Inr out, w1)
               else (Inl (errors_New (source @ '' returned no usable address for '' @ host)), w1)
           | (Inl e, w1) \<Rightarrow>
               (case retryDecision e notFound of
                  (retry, nf) \<Rightarrow>
                    if \<not> retry then (failed (Some e), w1)
                    else lookup_loop source host query ctxDone (attempt + 1) (Some e) nf w1)))"
  by pat_completeness auto
termination
  by (relation "measure (\<lambda>(src, h, q, c, attempt, le, nf, w). Suc dnsAttempts - attempt)") (auto simp: dnsAttempts_def)

declare lookup_loop.simps [simp del]

definition dns_source :: "Tunnel option \<Rightarrow> string" where
  "dns_source cfgo =
     (case cfgo of
        Some cfg \<Rightarrow> if t_LocalDNS cfg \<noteq> [] then ''local DNS'' else ''in-tunnel DNS''
      | None \<Rightarrow> ''in-tunnel DNS'')"

definition lookupUncached ::
  "('w, 'd, 'n, 'p) upstream \<Rightarrow> 'w resolver_io \<Rightarrow> (nat \<Rightarrow> 'w \<Rightarrow> bool) \<Rightarrow> waiting \<Rightarrow> ('d, 'n) tun \<Rightarrow> string \<Rightarrow> 'w
     \<Rightarrow> (goerr + Addr list) \<times> 'w" where
  "lookupUncached up res ctxDone wt t host w =
     (case tn_net t of
        None \<Rightarrow> (Inl (sentinel_err ErrTunnelDown), w)
      | Some net \<Rightarrow>
          if \<not> tn_running t then (Inl (sentinel_err ErrTunnelDown), w)
          else (case WaitReady (fst wt) (snd wt) of
              Some e \<Rightarrow> (Inl e, w)
            | None \<Rightarrow> lookup_loop (dns_source (tn_cfg t)) host (dns_query up res net (tn_cfg t) host) ctxDone 1 None False w))"

section \<open>Supervision\<close>

definition Reconnect :: "('d, 'n) tun \<Rightarrow> ('d, 'n) tun" where
  "Reconnect t = t\<lparr>tn_kick := True\<rparr>"

definition endpointNeedsResolution :: "Tunnel \<Rightarrow> bool" where
  "endpointNeedsResolution cfg \<longleftrightarrow> (\<exists>p\<in>set (cf_Peers (t_Config cfg)). ParseAddr (Trim (cp_EndpointHost p) ''[]'') = None)"

definition performReconnect :: "('w, 'd, 'n, 'p) upstream \<Rightarrow> ('d, 'n) tun \<times> 'w \<Rightarrow> ('d, 'n) tun \<times> 'w" where
  "performReconnect up tw =
     (case tw of (t, w) \<Rightarrow>
        case tn_dev t of
          None \<Rightarrow> (t, w)
        | Some dev \<Rightarrow>
            if \<not> tn_running t then (t, w)
            else
              (let t1 = setState StateReconnecting (markNotReady (t\<lparr>tn_reconnects := tn_reconnects t + 1\<rparr>)) in
               case up_BindUpdate up dev w of (be, w1) \<Rightarrow>
                 (let t2 = (case be of None \<Rightarrow> t1 | Some e \<Rightarrow> setError (''could not reopen the UDP socket: '' @ e_msg e) t1) in
                  case (case tn_cfg t of
                          Some cfg \<Rightarrow>
                            if endpointNeedsResolution cfg then
                              (case toUAPI up cfg w1 of
                                 (Inl e, w2) \<Rightarrow> (setError (''could not re-resolve the endpoint: '' @ e_msg e) t2, w2)
                               | (Inr uapi, w2) \<Rightarrow>
                                   (case up_IpcSet up dev uapi w2 of
                                      (Some e, w3) \<Rightarrow> (setError (''could not apply the new endpoint: '' @ e_msg e) t2, w3)
                                    | (None, w3) \<Rightarrow> (t2, w3)))
                            else (t2, w1)
                        | None \<Rightarrow> (t2, w1)) of
                    (t3, w3) \<Rightarrow> (t3, kickHandshake up t3 w3))))"

definition minBackoff :: int where "minBackoff = 1000000000"
definition maxBackoff :: int where "maxBackoff = 60000000000"
definition handshakeStaleAfter :: int where "handshakeStaleAfter = 180000000000"

record sup =
  sv_backoff :: int
  sv_nextKick :: int
  sv_was :: bool

definition sup_init :: "int \<Rightarrow> sup" where
  "sup_init now = \<lparr>sv_backoff = minBackoff, sv_nextKick = now + minBackoff, sv_was = False\<rparr>"

definition nextBackoff :: "int \<Rightarrow> int" where
  "nextBackoff b = (if b < maxBackoff then (if b * 2 > maxBackoff then maxBackoff else b * 2) else b)"

text \<open>A reconnect request taken from the channel.\<close>

definition sup_kick :: "('w, 'd, 'n, 'p) upstream \<Rightarrow> int \<Rightarrow> sup \<times> ('d, 'n) tun \<times> 'w \<Rightarrow> sup \<times> ('d, 'n) tun \<times> 'w" where
  "sup_kick up now x =
     (case x of (sv, t, w) \<Rightarrow>
        case performReconnect up (t\<lparr>tn_kick := False\<rparr>, w) of (t1, w1) \<Rightarrow>
          (\<lparr>sv_backoff = minBackoff, sv_nextKick = now + minBackoff, sv_was = False\<rparr>, t1, w1))"

definition readStats :: "('w, 'd, 'n, 'p) upstream \<Rightarrow> ('d, 'n) tun \<Rightarrow> 'w \<Rightarrow> (goerr + awg_Stats) \<times> 'w" where
  "readStats up t w =
     (case tn_dev t of
        None \<Rightarrow> (Inl (sentinel_err ErrTunnelDown), w)
      | Some dev \<Rightarrow>
          if \<not> tn_running t then (Inl (sentinel_err ErrTunnelDown), w)
          else (case up_IpcGet up dev w of
              (Inl e, w1) \<Rightarrow> (Inl e, w1)
            | (Inr raw, w1) \<Rightarrow>
                (case parseUAPIGet raw of
                   Inl errno \<Rightarrow> (Inl (errors_New (''UAPI error: errno='' @ errno)), w1)
                 | Inr s \<Rightarrow> (Inr s, w1))))"

definition healthy :: "int \<Rightarrow> awg_Stats \<Rightarrow> bool" where
  "healthy now st \<longleftrightarrow> (case as_LastHandshake st of None \<Rightarrow> False | Some h \<Rightarrow> now - h < handshakeStaleAfter)"

definition sup_tick :: "('w, 'd, 'n, 'p) upstream \<Rightarrow> int \<Rightarrow> sup \<times> ('d, 'n) tun \<times> 'w \<Rightarrow> sup \<times> ('d, 'n) tun \<times> 'w" where
  "sup_tick up now x =
     (case x of (sv, t, w) \<Rightarrow>
        case readStats up t w of
          (Inl e, w1) \<Rightarrow> (sv, t, w1)
        | (Inr st, w1) \<Rightarrow>
            if healthy now st then
              (\<lparr>sv_backoff = minBackoff, sv_nextKick = now + handshakeStaleAfter div 2, sv_was = True\<rparr>,
               markReady (clearError (setState StateConnected t)), w1)
            else
              (let t1 = markNotReady t;
                   (sv2, t2) =
                     (if sv_was sv then
                        (\<lparr>sv_backoff = minBackoff, sv_nextKick = now, sv_was = False\<rparr>,
                         (setState StateReconnecting t1)\<lparr>tn_reconnects := tn_reconnects t1 + 1\<rparr>)
                      else if tn_state t1 \<noteq> StateReconnecting then (sv, setState StateConnecting t1)
                      else (sv, t1))
               in if now < sv_nextKick sv2 then (sv2, t2, w1)
                  else (sv2\<lparr>sv_nextKick := now + sv_backoff sv2, sv_backoff := nextBackoff (sv_backoff sv2)\<rparr>,
                        t2, kickHandshake up t2 w1)))"

section \<open>Hot reload\<close>

definition stackEqual :: "Tunnel option \<Rightarrow> Tunnel option \<Rightarrow> bool" where
  "stackEqual a b =
     (case (a, b) of
        (Some x, Some y) \<Rightarrow>
          t_MTU x = t_MTU y \<and> t_Addresses x = t_Addresses y \<and> t_DNS x = t_DNS y \<and> t_LocalDNS x = t_LocalDNS y
      | _ \<Rightarrow> False)"

text \<open>
  The reload over UAPI alone, and the one that rebuilds the tunnel. A running tunnel
  has a device and a configuration (the invariant shown below), so the case of
  \<open>Tunnel_Reload\<close> that stands for a nil dereference does not occur.
\<close>

definition reload_uapi ::
  "('w, 'd, 'n, 'p) upstream \<Rightarrow> 'd \<Rightarrow> Tunnel \<Rightarrow> Tunnel \<Rightarrow> ('d, 'n) tun \<times> 'w \<Rightarrow> (goerr + unit) \<times> ('d, 'n) tun \<times> 'w" where
  "reload_uapi up dev prev next tw =
     (case tw of (t, w) \<Rightarrow>
        case toUAPI up prev w of
          (Inl e, w1) \<Rightarrow> (Inl (Errorf_w ''the current configuration could not be rendered for rollback, nothing was changed: '' e), t, w1)
        | (Inr prevUAPI, w1) \<Rightarrow>
            (case toUAPI up next w1 of
               (Inl e, w2) \<Rightarrow> (Inl (Errorf_w ''the new configuration could not be rendered, keeping the running tunnel: '' e), t, w2)
             | (Inr nextUAPI, w2) \<Rightarrow>
                 (case up_IpcSet up dev nextUAPI w2 of
                    (Some e, w3) \<Rightarrow>
                      (case up_IpcSet up dev prevUAPI w3 of
                         (Some re, w4) \<Rightarrow>
                           (Inl (Errorf_w ''the new configuration could not be applied and the previous one could not be restored: '' re),
                            setError (''rollback failed: '' @ e_msg re) (setState StateFailed t), w4)
                       | (None, w4) \<Rightarrow> (Inl (Errorf_w ''the new configuration could not be applied, the previous one was restored: '' e), t, w4))
                  | (None, w3) \<Rightarrow>
                      (let t1 = t\<lparr>tn_cfg := Some next,
                             tn_keys := (case peerKeys up next of Inr ks \<Rightarrow> ks | Inl _ \<Rightarrow> tn_keys t)\<rparr>;
                           t2 = setState StateConnecting (markNotReady t1)
                       in (Inr (), t2, kickHandshake up t2 w3)))))"

definition reload_rebuild ::
  "('w, 'd, 'n, 'p) upstream \<Rightarrow> int \<Rightarrow> Tunnel option \<Rightarrow> Tunnel \<Rightarrow> ('d, 'n) tun \<times> 'w \<Rightarrow> (goerr + unit) \<times> ('d, 'n) tun \<times> 'w" where
  "reload_rebuild up now prev next tw =
     (case Tunnel_Stop up tw of (t1, w1) \<Rightarrow>
        case Tunnel_Start up now (t1\<lparr>tn_cfg := Some next\<rparr>, w1) of
          (None, t2, w2) \<Rightarrow> (Inr (), t2, w2)
        | (Some e, t2, w2) \<Rightarrow>
            (case Tunnel_Start up now (t2\<lparr>tn_cfg := prev\<rparr>, w2) of
               (None, t3, w3) \<Rightarrow> (Inl (Errorf_w ''the new configuration failed to start, the previous one was restored: '' e), t3, w3)
             | (Some re, t3, w3) \<Rightarrow> 
                 (Inl (Errorf_w (''the new configuration failed to start ('' @ e_msg e @
                    '') and the previous one did not start either: '') re), t3, w3)))"

definition Tunnel_Reload ::
  "('w, 'd, 'n, 'p) upstream \<Rightarrow> int \<Rightarrow> Tunnel option \<Rightarrow> ('d, 'n) tun \<times> 'w \<Rightarrow> (goerr + unit) \<times> ('d, 'n) tun \<times> 'w" where
  "Tunnel_Reload up now nexto tw =
     (case tw of (t, w) \<Rightarrow>
        case nexto of
          None \<Rightarrow> (Inl (errors_New ''the new configuration is empty''), t, w)
        | Some next \<Rightarrow>
            (case DryRun up (Some next) w of
               (Some e, w1) \<Rightarrow> (Inl (Errorf_w ''the new configuration is invalid, keeping the running tunnel: '' e), t, w1)
             | (None, w1) \<Rightarrow>
                 if \<not> tn_running t then (Inr (), t\<lparr>tn_cfg := Some next\<rparr>, w1)
                 else if stackEqual (tn_cfg t) (Some next) then
                   (case (tn_cfg t, tn_dev t) of
                      (Some prev, Some dev) \<Rightarrow> reload_uapi up dev prev next (t, w1)
                    | _ \<Rightarrow> (Inl (errors_New ''nil pointer dereference''), t, w1))
                 else reload_rebuild up now (tn_cfg t) next (t, w1)))"


section \<open>The tunnel as the server's egress\<close>

text \<open>
  What a lookup meets outside the tunnel: the times it reads, whether its context has
  ended when it stores, the answer of a query it joins, the error when its context
  ends while it waits for its turn.
\<close>

record lookup_env =
  lk_now :: int
  lk_now2 :: int
  lk_cancelled :: bool
  lk_joined :: answer
  lk_gaveup :: "goerr option"

definition to_answer :: "goerr + Addr list \<Rightarrow> answer" where
  "to_answer x = (case x of Inl e \<Rightarrow> ([], Some e) | Inr as \<Rightarrow> (as, None))"

definition of_answer :: "answer \<Rightarrow> goerr + Addr list" where
  "of_answer a = (case snd a of Some e \<Rightarrow> Inl e | None \<Rightarrow> Inr (fst a))"

definition resolver_Lookup ::
  "lookup_env \<Rightarrow> ('w \<Rightarrow> (goerr + Addr list) \<times> 'w) \<Rightarrow> string \<Rightarrow> Resolver \<times> 'w \<Rightarrow> answer \<times> Resolver \<times> 'w" where
  "resolver_Lookup lk query host rw =
     (case rw of (r, w) \<Rightarrow>
        case Lookup_begin (lk_now lk) host 0 r of
          (Hit a, r1) \<Rightarrow> (a, r1, w)
        | (Join c, r1) \<Rightarrow> (lk_joined lk, r1, w)
        | (Lead, r1) \<Rightarrow>
            (case (case lk_gaveup lk of Some e \<Rightarrow> (Inl e, w) | None \<Rightarrow> query w) of
               (x, w1) \<Rightarrow>
                 (to_answer x, Lookup_finish (lk_now lk) (lk_now2 lk) (lk_cancelled lk) host (to_answer x) r1, w1)))"

definition Tunnel_LookupHost ::
  "('w, 'd, 'n, 'p) upstream \<Rightarrow> 'w resolver_io \<Rightarrow> (nat \<Rightarrow> 'w \<Rightarrow> bool) \<Rightarrow> waiting \<Rightarrow> lookup_env \<Rightarrow> string
     \<Rightarrow> ('d, 'n) tun \<times> 'w \<Rightarrow> (goerr + Addr list) \<times> ('d, 'n) tun \<times> 'w" where
  "Tunnel_LookupHost up res ctxDone wt lk host tw =
     (case tw of (t, w) \<Rightarrow>
        if \<not> tn_running t then (Inl (sentinel_err ErrTunnelDown), t, w)
        else if \<not> Tunnel_HasDNS t then (Inl (sentinel_err ErrNoDNS), t, w)
        else (case resolver_Lookup lk (lookupUncached up res ctxDone wt t host) host (tn_resolver t, w) of
            (a, r, w1) \<Rightarrow> (of_answer a, t\<lparr>tn_resolver := r\<rparr>, w1)))"

text \<open>The outside of a call: what its wait sees and its lookup meets.\<close>

record ('w, 'd, 'n) call_env =
  ce_res :: "'w resolver_io"
  ce_ctxDone :: "nat \<Rightarrow> 'w \<Rightarrow> bool"
  ce_wait :: "('d, 'n) tun \<Rightarrow> 'w \<Rightarrow> waiting"
  ce_lookup :: "('d, 'n) tun \<Rightarrow> 'w \<Rightarrow> lookup_env"

definition tunnel_dialer ::
  "('w, 'd, 'n, 'p) upstream \<Rightarrow> ('w, 'd, 'n) call_env \<Rightarrow> (('d, 'n) tun \<times> 'w, 'p) Dialer" where
  "tunnel_dialer up ce =
     \<lparr>DialTCP = (\<lambda>a (t, w). case Tunnel_DialTCP up (ce_wait ce t w) a t w of (x, w1) \<Rightarrow> (x, t, w1)),
      LookupHost = (\<lambda>h (t, w). Tunnel_LookupHost up (ce_res ce) (ce_ctxDone ce) (ce_wait ce t w) (ce_lookup ce t w) h (t, w)),
      HasDNS = (\<lambda>(t, w). Tunnel_HasDNS t),
      ListenUDP = (\<lambda>v6 (t, w). case Tunnel_ListenUDP up (ce_wait ce t w) v6 t w of (x, w1) \<Rightarrow> (x, t, w1)),
      pc_WriteTo = (\<lambda>c b a (t, w). case up_PacketWrite up c b a w of (x, w1) \<Rightarrow> (x, t, w1)),
      pc_Close = (\<lambda>c (t, w). (t, up_PacketClose up c w))\<rparr>"

end
