(* ===== verification/Awg_Tunnel_Props.thy ===== *)
theory Awg_Tunnel_Props
  imports Awg_Tunnel "HOL-Library.Multiset"
begin

text \<open>
  What the tunnel guarantees: the invariant of its state under every operation and
  tick of the supervisor, no leaked device, what a reload may do to the configuration,
  the bounds of the backoff and of the lookup attempts, and who is asked for a name.
\<close>

section \<open>The invariant\<close>

definition tun_inv :: "('d, 'n) tun \<Rightarrow> bool" where
  "tun_inv t \<longleftrightarrow>
     (tn_running t \<longleftrightarrow> tn_dev t \<noteq> None) \<and> (tn_running t \<longleftrightarrow> tn_net t \<noteq> None) \<and>
     (tn_running t \<longrightarrow> tn_cfg t \<noteq> None) \<and>
     (tn_running t \<and> tn_readyClosed t \<longrightarrow> tn_state t = StateConnected \<or> tn_state t = StateFailed) \<and>
     (\<not> tn_running t \<longrightarrow> tn_state t = StateStopped \<or> tn_state t = StateFailed)"

lemmas tun_defs = setState_def setError_def clearError_def markReady_def markNotReady_def

lemma tun_inv_New: "tun_inv (NewWithBind cfg mode)"
  by (simp add: tun_inv_def NewWithBind_def)

lemma tun_inv_Start:
  assumes "tun_inv t" and "Tunnel_Start up now (t, w) = (e, t', w')"
  shows "tun_inv t'"
  using assms
  by (auto simp: tun_inv_def Tunnel_Start_def tun_defs Let_def split: if_splits option.splits sum.splits prod.splits)

lemma tun_inv_Stop: "tun_inv t \<Longrightarrow> Tunnel_Stop up (t, w) = (t', w') \<Longrightarrow> tun_inv t'"
  by (auto simp: tun_inv_def Tunnel_Stop_def Stop_locked_def tun_defs Let_def split: if_splits)

lemma Stop_not_running: "Tunnel_Stop up (t, w) = (t', w') \<Longrightarrow> \<not> tn_running t'"
  by (auto simp: Tunnel_Stop_def Stop_locked_def tun_defs Let_def split: if_splits)

lemma tun_inv_cfg: "tun_inv t \<Longrightarrow> tn_running t \<longrightarrow> cfg \<noteq> None \<Longrightarrow> tun_inv (t\<lparr>tn_cfg := cfg\<rparr>)"
  by (auto simp: tun_inv_def)

lemma tun_inv_frame [simp]:
  "tun_inv (t\<lparr>tn_kick := b\<rparr>) = tun_inv t" "tun_inv (t\<lparr>tn_resolver := r\<rparr>) = tun_inv t"
  by (simp_all add: tun_inv_def)

lemma tun_inv_rebuild:
  assumes inv: "tun_inv t" and r: "reload_rebuild up now prev next (t, w) = (x, t', w')"
  shows "tun_inv t'"
proof -
  obtain t1 w1 where s: "Tunnel_Stop up (t, w) = (t1, w1)" by (cases "Tunnel_Stop up (t, w)")
  have 1: "tun_inv (t1\<lparr>tn_cfg := c\<rparr>)" for c
    using tun_inv_Stop [OF inv s] Stop_not_running [OF s] by (intro tun_inv_cfg) auto
  obtain e t2 w2 where st: "Tunnel_Start up now (t1\<lparr>tn_cfg := Some next\<rparr>, w1) = (e, t2, w2)"
    using prod_cases3 by blast
  have 2: "tun_inv t2" by (rule tun_inv_Start [OF 1 st])
  show ?thesis
  proof (cases e)
    case None
    with r s st 2 show ?thesis by (simp add: reload_rebuild_def)
  next
    case (Some err)
    obtain e2 t3 w3 where st2: "Tunnel_Start up now (t2\<lparr>tn_cfg := prev\<rparr>, w2) = (e2, t3, w3)"
      using prod_cases3 by blast
    have "\<not> tn_running t2" using st Some Stop_not_running [OF s]
      by (auto simp: Tunnel_Start_def tun_defs Let_def split: if_splits option.splits sum.splits prod.splits)
    then have "tun_inv (t2\<lparr>tn_cfg := prev\<rparr>)" using 2 by (intro tun_inv_cfg) auto
    from tun_inv_Start [OF this st2] r s st st2 Some show ?thesis
      by (auto simp: reload_rebuild_def split: option.splits)
  qed
qed

lemma tun_inv_uapi:
  "tun_inv t \<Longrightarrow> reload_uapi up dev prev next (t, w) = (x, t', w') \<Longrightarrow> tn_running t \<Longrightarrow> tun_inv t'"
  by (auto simp: reload_uapi_def tun_inv_def tun_defs Let_def split: prod.splits sum.splits option.splits if_splits)

lemma tun_inv_Reload:
  assumes "tun_inv t" and "Tunnel_Reload up now next (t, w) = (x, t', w')"
  shows "tun_inv t'"
  using assms
  by (auto simp: Tunnel_Reload_def intro: tun_inv_rebuild tun_inv_uapi tun_inv_cfg
      split: option.splits prod.splits if_splits)

lemma tun_inv_reconnect: "tun_inv t \<Longrightarrow> performReconnect up (t, w) = (t', w') \<Longrightarrow> tun_inv t'"
  by (auto simp: performReconnect_def tun_inv_def tun_defs Let_def
      split: option.splits prod.splits sum.splits if_splits)

lemma tun_inv_tick:
  assumes "tun_inv t" and "sup_tick up now (sv, t, w) = (sv', t', w')"
  shows "tun_inv t'"
proof -
  have "tn_running t" if "readStats up t w = (Inr st, w1)" for st w1
    using that by (auto simp: readStats_def split: option.splits if_splits)
  with assms show ?thesis
    by (auto simp: sup_tick_def tun_inv_def tun_defs Let_def split: prod.splits sum.splits if_splits)
qed


section \<open>The tunnel as a transition system\<close>

text \<open>
  The operations of the tunnel and the iterations of its supervisor, one at a time.
  A start (of \<open>Start\<close> itself or within a reload) also starts a supervisor.
\<close>

type_synonym ('w, 'd, 'n) tsys = "sup \<times> ('d, 'n) tun \<times> 'w"

inductive tstep :: "('w, 'd, 'n, 'p) upstream \<Rightarrow> ('w, 'd, 'n) tsys \<Rightarrow> ('w, 'd, 'n) tsys \<Rightarrow> bool"
  for up :: "('w, 'd, 'n, 'p) upstream" where
  start: "Tunnel_Start up now (t, w) = (e, t', w') \<Longrightarrow> sv' = sv \<or> sv' = sup_init now \<Longrightarrow> tstep up (sv, t, w) (sv', t', w')"
| stop: "Tunnel_Stop up (t, w) = (t', w') \<Longrightarrow> tstep up (sv, t, w) (sv, t', w')"
| reload: "Tunnel_Reload up now next (t, w) = (x, t', w') \<Longrightarrow> sv' = sv \<or> sv' = sup_init now \<Longrightarrow>
     tstep up (sv, t, w) (sv', t', w')"
| request: "tstep up (sv, t, w) (sv, Reconnect t, w)"
| kick: "tn_kick t \<Longrightarrow> sup_kick up now (sv, t, w) = (sv', t', w') \<Longrightarrow> tstep up (sv, t, w) (sv', t', w')"
| tick: "sup_tick up now (sv, t, w) = (sv', t', w') \<Longrightarrow> tstep up (sv, t, w) (sv', t', w')"
| resolve: "tstep up (sv, t, w) (sv, t\<lparr>tn_resolver := r\<rparr>, w)"

definition tinit :: "('w, 'd, 'n) tsys \<Rightarrow> bool" where
  "tinit x \<longleftrightarrow> (\<exists>cfg mode now w. x = (sup_init now, NewWithBind cfg mode, w))"

definition backoff_ok :: "sup \<Rightarrow> bool" where
  "backoff_ok sv \<longleftrightarrow> minBackoff \<le> sv_backoff sv \<and> sv_backoff sv \<le> maxBackoff"

lemma backoff_init [simp]: "backoff_ok (sup_init now)"
  by (simp add: backoff_ok_def sup_init_def minBackoff_def maxBackoff_def)

lemma nextBackoff_ok: "minBackoff \<le> b \<Longrightarrow> b \<le> maxBackoff \<Longrightarrow> minBackoff \<le> nextBackoff b \<and> nextBackoff b \<le> maxBackoff"
  by (auto simp: nextBackoff_def minBackoff_def maxBackoff_def)

lemma backoff_tick: "backoff_ok sv \<Longrightarrow> sup_tick up now (sv, t, w) = (sv', t', w') \<Longrightarrow> backoff_ok sv'"
  using nextBackoff_ok [of "sv_backoff sv"] nextBackoff_ok [of minBackoff]
  by (auto simp: sup_tick_def backoff_ok_def Let_def minBackoff_def maxBackoff_def
      split: prod.splits sum.splits if_splits)

lemma backoff_kick: "sup_kick up now (sv, t, w) = (sv', t', w') \<Longrightarrow> backoff_ok sv'"
  by (auto simp: sup_kick_def backoff_ok_def minBackoff_def maxBackoff_def split: prod.splits)

lemma tun_inv_kick:
  assumes "tun_inv t" and "sup_kick up now (sv, t, w) = (sv', t', w')"
  shows "tun_inv t'"
proof -
  have "tun_inv (t\<lparr>tn_kick := False\<rparr>)" using assms(1) by simp
  moreover have "performReconnect up (t\<lparr>tn_kick := False\<rparr>, w) = (t', w')"
    using assms(2) by (auto simp: sup_kick_def split: prod.splits)
  ultimately show ?thesis by (rule tun_inv_reconnect)
qed

definition tsys_inv :: "('w, 'd, 'n) tsys \<Rightarrow> bool" where
  "tsys_inv x \<longleftrightarrow> backoff_ok (fst x) \<and> tun_inv (fst (snd x))"

lemma tsys_inv_step: "tstep up x y \<Longrightarrow> tsys_inv x \<Longrightarrow> tsys_inv y"
proof (induction rule: tstep.induct)
  case (request sv t w)
  then show ?case by (simp add: tsys_inv_def Reconnect_def)
next
  case (resolve sv t w r)
  then show ?case by (simp add: tsys_inv_def)
qed (auto simp: tsys_inv_def intro: tun_inv_Start tun_inv_Stop tun_inv_Reload tun_inv_kick tun_inv_tick backoff_tick backoff_kick)

interpretation tnl: invariant tinit "tstep up" tsys_inv for up :: "('w, 'd, 'n, 'p) upstream"
proof
  show "tinit x \<Longrightarrow> tsys_inv x" for x by (auto simp: tinit_def tsys_inv_def tun_inv_New)
  show "tstep up x y \<Longrightarrow> tsys_inv x \<Longrightarrow> tsys_inv y" for x y by (rule tsys_inv_step)
qed


section \<open>A concrete upstream\<close>

definition demo_up :: "(nat, nat, nat, nat) upstream" where
  "demo_up =
     \<lparr>up_CreateNetTUN = (\<lambda>as ds m w. (Inr w, w + 1)), up_NewDevice = (\<lambda>n b w. (w, w + 1)),
      up_ToUAPI = (\<lambda>c w. (UapiDone ''k'', w)), up_IpcSet = (\<lambda>d u w. (None, w)),
      up_IpcGet = (\<lambda>d w. (Inr [], w)), up_Up = (\<lambda>d w. (None, w)), up_BindUpdate = (\<lambda>d w. (None, w)),
      up_Keepalive = (\<lambda>d k w. w), up_DevClose = (\<lambda>d w. w), up_FromHex = Inr, up_DialUDP = (\<lambda>n a w. (Inr w, w)), up_ConnWrite = (\<lambda>c b w. (Inr (length b), w)),
      up_DialTCP = (\<lambda>n a w. (Inr (\<lparr>c_in = [], c_out = [], c_wok = True, c_closed = False, c_wshut = False, c_half = True\<rparr>), w)),
      up_LookupHost = (\<lambda>n h w. (Inr [''9.9.9.9''], w)), up_ListenUDP = (\<lambda>n a w. (Inr w, w + 1)),
      up_PacketWrite = (\<lambda>c b a w. (Inr (length b), w)), up_PacketClose = (\<lambda>c w. w)\<rparr>"

definition demo_tunnel_cfg :: Tunnel where
  "demo_tunnel_cfg =
     \<lparr>t_Config = demo_cfg, t_Path = [], t_Addresses = [Addr4 [10, 8, 0, 2]], t_Prefixes = [], t_DNS = [Addr4 [10, 8, 0, 1]],
      t_LocalDNS = [], t_DNSSearch = [], t_MTU = 1420, t_MTUExplicit = False, t_Generation = PlainWireGuard, t_AWGParams = [],
      t_Warnings = [], t_s4 = 0\<rparr>"

lemma demo_start:
  "\<exists>t. Tunnel_Start demo_up 5 (NewWithBind (Some demo_tunnel_cfg) BindStd, 0) = (None, t, 2) \<and>
     tn_running t \<and> tn_dev t = Some 1 \<and> tn_cfg t = Some demo_tunnel_cfg"
  by (simp add: Tunnel_Start_def NewWithBind_def buildDevice_def toUAPI_def demo_up_def peerKeys_def demo_tunnel_cfg_def
      demo_cfg_def primeTransportPadding_def kickHandshake_def keepalive_all_def tun_defs Let_def)

lemma demo_running:
  "\<exists>t. reachable tinit (tstep demo_up) (sup_init 5, t, 2) \<and> tn_running t"
proof -
  obtain t where t: "Tunnel_Start demo_up 5 (NewWithBind (Some demo_tunnel_cfg) BindStd, 0) = (None, t, 2)" "tn_running t"
    using demo_start by blast
  have "reachable tinit (tstep demo_up) (sup_init 5, NewWithBind (Some demo_tunnel_cfg) BindStd, 0)"
    by (intro reachable.base) (auto simp: tinit_def)
  from reachable.more [OF this tstep.start [OF t(1)]] t(2) show ?thesis by blast
qed


section \<open>No device is leaked\<close>

text \<open>An upstream whose open devices can be counted.\<close>

locale device_ledger =
  fixes up :: "('w, 'd, 'n, 'p) upstream" and devs :: "'w \<Rightarrow> 'd multiset"
  assumes newdev: "up_NewDevice up n m w = (d, w') \<Longrightarrow> devs w' = add_mset d (devs w)"
    and devclose: "d \<in># devs w \<Longrightarrow> devs (up_DevClose up d w) = devs w - {#d#}"
    and tun_same: "devs (snd (up_CreateNetTUN up as ds mtu w)) = devs w"
    and uapi_same: "devs (snd (up_ToUAPI up c w)) = devs w"
    and ipcset_same: "devs (snd (up_IpcSet up d u w)) = devs w"
    and ipcget_same: "devs (snd (up_IpcGet up d w)) = devs w"
    and up_same: "devs (snd (up_Up up d w)) = devs w"
    and bind_same: "devs (snd (up_BindUpdate up d w)) = devs w"
    and keep_same: "devs (up_Keepalive up d k w) = devs w"
    and udp_same: "devs (snd (up_DialUDP up n a w)) = devs w"
    and write_same: "devs (snd (up_ConnWrite up p b w)) = devs w"
    and pclose_same: "devs (up_PacketClose up p w) = devs w"
begin

lemmas same_snd = tun_same uapi_same ipcset_same ipcget_same up_same bind_same udp_same write_same

lemma same_eq:
  "up_CreateNetTUN up as ds m w = (x1, w') \<Longrightarrow> devs w' = devs w"
  "up_ToUAPI up c w = (x2, w') \<Longrightarrow> devs w' = devs w"
  "up_IpcSet up d u w = (x3, w') \<Longrightarrow> devs w' = devs w"
  "up_IpcGet up d w = (x4, w') \<Longrightarrow> devs w' = devs w"
  "up_Up up d w = (x5, w') \<Longrightarrow> devs w' = devs w"
  "up_BindUpdate up d w = (x6, w') \<Longrightarrow> devs w' = devs w"
  "up_DialUDP up n a w = (x7, w') \<Longrightarrow> devs w' = devs w"
  "up_ConnWrite up p b w = (x8, w') \<Longrightarrow> devs w' = devs w"
  using same_snd by (metis snd_conv)+

lemma toUAPI_same: "toUAPI up cfg w = (x, w') \<Longrightarrow> devs w' = devs w"
  by (auto simp: toUAPI_def dest: same_eq split: prod.splits uapi_outcome.splits)

lemma prime_devs: "devs (primeTransportPadding up n cfg w) = devs w"
  by (auto simp: primeTransportPadding_def Let_def pclose_same dest!: same_eq split: prod.splits sum.splits)

lemma kick_devs: "devs (kickHandshake up t w) = devs w"
proof -
  have "devs (fold (up_Keepalive up d) ks w) = devs w" for d ks
    by (induction ks arbitrary: w) (simp_all add: keep_same)
  then show ?thesis by (simp add: kickHandshake_def keepalive_all_def split: option.splits)
qed

lemma build_devs:
  assumes "buildDevice up cfg mode w = (x, w')"
  shows "devs w' = devs w + (case x of Inl _ \<Rightarrow> {#} | Inr (d, n, ks) \<Rightarrow> {#d#})"
  using assms
  by (auto simp: buildDevice_def prime_devs devclose newdev dest!: same_eq toUAPI_same newdev
      split: prod.splits sum.splits option.splits)

lemma DryRun_devs: "DryRun up cfg w = (x, w') \<Longrightarrow> devs w' = devs w"
  by (auto simp: DryRun_def devclose newdev dest!: same_eq toUAPI_same newdev
      split: prod.splits sum.splits option.splits)

definition owned :: "('d, 'n) tun \<Rightarrow> 'd multiset" where
  "owned t = (case tn_dev t of None \<Rightarrow> {#} | Some d \<Rightarrow> {#d#})"

definition dledger :: "'d multiset \<Rightarrow> ('d, 'n) tun \<Rightarrow> 'w \<Rightarrow> bool" where
  "dledger base t w \<longleftrightarrow> devs w = base + owned t \<and> tun_inv t"

lemma Start_devs:
  assumes "dledger base t w" and "Tunnel_Start up now (t, w) = (e, t', w')"
  shows "dledger base t' w'"
proof -
  have inv: "tun_inv t'" using assms by (auto simp: dledger_def intro: tun_inv_Start)
  show ?thesis
  proof (cases "tn_running t \<or> tn_cfg t = None")
    case True
    with assms inv show ?thesis by (auto simp: Tunnel_Start_def dledger_def split: if_splits option.splits)
  next
    case False
    then obtain cfg where c: "tn_cfg t = Some cfg" "\<not> tn_running t" by auto
    then have "tn_dev t = None" using assms(1) by (auto simp: dledger_def tun_inv_def)
    then have b: "devs w = base" using assms(1) by (simp add: dledger_def owned_def)
    obtain x w1 where x: "buildDevice up cfg (tn_bind t) w = (x, w1)" by (cases "buildDevice up cfg (tn_bind t) w")
    from build_devs [OF x] b inv assms(2) c x \<open>tn_dev t = None\<close> show ?thesis
      by (auto simp: Tunnel_Start_def dledger_def owned_def tun_defs Let_def kick_devs split: sum.splits)
  qed
qed

lemma Stop_devs:
  assumes "dledger base t w" and "Tunnel_Stop up (t, w) = (t', w')"
  shows "dledger base t' w'"
proof -
  have "tun_inv t'" using assms by (auto simp: dledger_def intro: tun_inv_Stop)
  with assms show ?thesis
    by (auto simp: dledger_def owned_def Tunnel_Stop_def Stop_locked_def tun_defs Let_def devclose split: if_splits option.splits)
qed

lemma dledger_cfg: "dledger base t w \<Longrightarrow> \<not> tn_running t \<Longrightarrow> dledger base (t\<lparr>tn_cfg := c\<rparr>) w"
  by (auto simp: dledger_def owned_def intro: tun_inv_cfg)

lemma rebuild_devs:
  assumes l: "dledger base t w" and r: "reload_rebuild up now prev next (t, w) = (x, t', w')"
  shows "dledger base t' w'"
proof -
  obtain t1 w1 where s: "Tunnel_Stop up (t, w) = (t1, w1)" by (cases "Tunnel_Stop up (t, w)")
  obtain e t2 w2 where st: "Tunnel_Start up now (t1\<lparr>tn_cfg := Some next\<rparr>, w1) = (e, t2, w2)"
    using prod_cases3 by blast
  have 2: "dledger base t2 w2"
    using Stop_devs [OF l s] Stop_not_running [OF s] by (intro Start_devs [OF _ st] dledger_cfg)
  show ?thesis
  proof (cases e)
    case None
    with r s st 2 show ?thesis by (simp add: reload_rebuild_def)
  next
    case (Some err)
    obtain e2 t3 w3 where st2: "Tunnel_Start up now (t2\<lparr>tn_cfg := prev\<rparr>, w2) = (e2, t3, w3)"
      using prod_cases3 by blast
    have "\<not> tn_running t2" using st Some Stop_not_running [OF s]
      by (auto simp: Tunnel_Start_def tun_defs Let_def split: if_splits option.splits sum.splits prod.splits)
    then have "dledger base t3 w3" using 2 by (intro Start_devs [OF _ st2] dledger_cfg)
    with r s st st2 Some show ?thesis by (auto simp: reload_rebuild_def split: option.splits)
  qed
qed

lemma uapi_devs: "reload_uapi up dev prev next (t, w) = (x, t', w') \<Longrightarrow> devs w' = devs w \<and> tn_dev t' = tn_dev t"
  by (auto simp: reload_uapi_def tun_defs Let_def kick_devs dest!: same_eq toUAPI_same
      split: prod.splits sum.splits option.splits if_splits)

lemma Reload_devs:
  assumes l: "dledger base t w" and r: "Tunnel_Reload up now next (t, w) = (x, t', w')"
  shows "dledger base t' w'"
proof -
  have inv: "tun_inv t'" using l r by (auto simp: dledger_def intro: tun_inv_Reload)
  have d: "dledger base t w1" if "DryRun up n w = (y, w1)" for n y w1
    using l DryRun_devs [OF that] by (simp add: dledger_def)
  show ?thesis
  proof (cases "next")
    case None
    with r l show ?thesis by (simp add: Tunnel_Reload_def)
  next
    case (Some n)
    obtain e w1 where dr: "DryRun up (Some n) w = (e, w1)" by (cases "DryRun up (Some n) w")
    note d1 = d [OF dr]
    show ?thesis
    proof (cases "e \<noteq> None \<or> \<not> tn_running t")
      case True
      with r d1 dr Some show ?thesis
        by (auto simp: Tunnel_Reload_def intro: dledger_cfg split: option.splits)
    next
      case False
      then have run: "tn_running t" "e = None" by auto
      then obtain dev prev where dp: "tn_dev t = Some dev" "tn_cfg t = Some prev"
        using l by (auto simp: dledger_def tun_inv_def)
      show ?thesis
      proof (cases "stackEqual (tn_cfg t) (Some n)")
        case True
        then have "reload_uapi up dev prev n (t, w1) = (x, t', w')"
          using r dr Some run dp by (simp add: Tunnel_Reload_def)
        from uapi_devs [OF this] d1 inv show ?thesis by (simp add: dledger_def owned_def)
      next
        case False
        then have "reload_rebuild up now (tn_cfg t) n (t, w1) = (x, t', w')"
          using r dr Some run dp by (simp add: Tunnel_Reload_def)
        from rebuild_devs [OF d1 this] show ?thesis .
      qed
    qed
  qed
qed

lemma reconnect_devs:
  "performReconnect up (t, w) = (t', w') \<Longrightarrow> devs w' = devs w \<and> tn_dev t' = tn_dev t"
  by (auto simp: performReconnect_def tun_defs Let_def kick_devs dest!: same_eq toUAPI_same
      split: option.splits prod.splits sum.splits if_splits)

lemma readStats_devs: "readStats up t w = (x, w') \<Longrightarrow> devs w' = devs w"
  by (auto simp: readStats_def dest!: same_eq split: option.splits prod.splits sum.splits if_splits)

lemma tick_devs:
  "sup_tick up now (sv, t, w) = (sv', t', w') \<Longrightarrow> devs w' = devs w \<and> tn_dev t' = tn_dev t"
  by (auto simp: sup_tick_def tun_defs Let_def kick_devs dest!: readStats_devs
      split: prod.splits sum.splits if_splits)

lemma kick_step_devs:
  "sup_kick up now (sv, t, w) = (sv', t', w') \<Longrightarrow> devs w' = devs w \<and> tn_dev t' = tn_dev t"
  by (auto simp: sup_kick_def dest!: reconnect_devs split: prod.splits)

lemma dledger_same: "dledger base t w \<Longrightarrow> tun_inv t' \<Longrightarrow> devs w' = devs w \<and> tn_dev t' = tn_dev t \<Longrightarrow> dledger base t' w'"
  by (simp add: dledger_def owned_def)

lemma dledger_inv: "dledger base t w \<Longrightarrow> tun_inv t"
  by (simp add: dledger_def)

lemma step_devs: "tstep up x y \<Longrightarrow> dledger base (fst (snd x)) (snd (snd x)) \<Longrightarrow> dledger base (fst (snd y)) (snd (snd y))"
proof (induction rule: tstep.induct)
  case (kick t now sv w sv' t' w')
  then show ?case
    using dledger_same [OF _ tun_inv_kick [OF dledger_inv kick(2)] kick_step_devs [OF kick(2)]] by simp
next
  case (tick now sv t w sv' t' w')
  then show ?case
    using dledger_same [OF _ tun_inv_tick [OF dledger_inv tick(1)] tick_devs [OF tick(1)]] by simp
next
  case (request sv t w)
  then show ?case by (simp add: Reconnect_def dledger_def owned_def)
next
  case (resolve sv t w r)
  then show ?case by (simp add: dledger_def owned_def)
qed (auto intro: Start_devs Stop_devs Reload_devs)

lemma reach_devs:
  assumes "devs w0 = base" and "reachable (\<lambda>x. x = (sup_init now, NewWithBind cfg mode, w0)) (tstep up) x"
  shows "dledger base (fst (snd x)) (snd (snd x))"
  using assms(2)
proof (induction rule: reachable.induct)
  case (base x)
  then show ?case using assms(1) tun_inv_New [of cfg mode] by (simp add: dledger_def owned_def NewWithBind_def)
qed (auto intro: step_devs)

end

text \<open>Any upstream with a ledger of its devices beside the world.\<close>

definition tracked_up :: "('w, 'd, 'n, 'p) upstream \<Rightarrow> ('w \<times> 'd multiset, 'd, 'n, 'p) upstream" where
  "tracked_up up =
     \<lparr>up_CreateNetTUN = (\<lambda>as ds m (w, l). case up_CreateNetTUN up as ds m w of (x, w1) \<Rightarrow> (x, w1, l)),
      up_NewDevice = (\<lambda>n b (w, l). case up_NewDevice up n b w of (d, w1) \<Rightarrow> (d, w1, add_mset d l)),
      up_ToUAPI = (\<lambda>c (w, l). case up_ToUAPI up c w of (x, w1) \<Rightarrow> (x, w1, l)),
      up_IpcSet = (\<lambda>d u (w, l). case up_IpcSet up d u w of (x, w1) \<Rightarrow> (x, w1, l)),
      up_IpcGet = (\<lambda>d (w, l). case up_IpcGet up d w of (x, w1) \<Rightarrow> (x, w1, l)),
      up_Up = (\<lambda>d (w, l). case up_Up up d w of (x, w1) \<Rightarrow> (x, w1, l)),
      up_BindUpdate = (\<lambda>d (w, l). case up_BindUpdate up d w of (x, w1) \<Rightarrow> (x, w1, l)),
      up_Keepalive = (\<lambda>d k (w, l). (up_Keepalive up d k w, l)),
      up_DevClose = (\<lambda>d (w, l). (up_DevClose up d w, l - {#d#})),
      up_FromHex = up_FromHex up,
      up_DialUDP = (\<lambda>n a (w, l). case up_DialUDP up n a w of (x, w1) \<Rightarrow> (x, w1, l)),
      up_ConnWrite = (\<lambda>c b (w, l). case up_ConnWrite up c b w of (x, w1) \<Rightarrow> (x, w1, l)),
      up_DialTCP = (\<lambda>n a (w, l). case up_DialTCP up n a w of (x, w1) \<Rightarrow> (x, w1, l)),
      up_LookupHost = (\<lambda>n h (w, l). case up_LookupHost up n h w of (x, w1) \<Rightarrow> (x, w1, l)),
      up_ListenUDP = (\<lambda>n a (w, l). case up_ListenUDP up n a w of (x, w1) \<Rightarrow> (x, w1, l)),
      up_PacketWrite = (\<lambda>c b a (w, l). case up_PacketWrite up c b a w of (x, w1) \<Rightarrow> (x, w1, l)),
      up_PacketClose = (\<lambda>c (w, l). (up_PacketClose up c w, l))\<rparr>"

interpretation dvt: device_ledger "tracked_up up" snd for up :: "('w, 'd, 'n, 'p) upstream"
  by unfold_locales (auto simp: tracked_up_def split: prod.splits)

text \<open>
  C4: from a new tunnel and an empty ledger of open devices, after any sequence of
  starts, stops, reloads (with their dry runs and rollbacks), reconnect requests and
  supervisor iterations, failed ones included, exactly the tunnel's own device is
  open: none while it is stopped, one while it runs.
\<close>

theorem no_device_leak:
  assumes "reachable (\<lambda>x. x = (sup_init now, NewWithBind cfg mode, w0, {#})) (tstep (tracked_up up)) (sv, t, w, devs)"
  shows "devs = (case tn_dev t of None \<Rightarrow> {#} | Some d \<Rightarrow> {#d#}) \<and> size devs = (if tn_running t then 1 else 0)"
  using dvt.reach_devs [OF _ assms] by (auto simp: dvt.dledger_def dvt.owned_def tun_inv_def split: option.splits)

lemma demo_tracked:
  "\<exists>t. reachable (\<lambda>x. x = (sup_init 5, NewWithBind (Some demo_tunnel_cfg) BindStd, 0, {#})) (tstep (tracked_up demo_up))
     (sup_init 5, t, 2, {#1#}) \<and> tn_running t"
proof -
  have "\<exists>t. Tunnel_Start (tracked_up demo_up) 5 (NewWithBind (Some demo_tunnel_cfg) BindStd, 0, {#}) = (None, t, 2, {#1#}) \<and> tn_running t"
    by (simp add: Tunnel_Start_def NewWithBind_def buildDevice_def toUAPI_def tracked_up_def demo_up_def peerKeys_def
        demo_tunnel_cfg_def demo_cfg_def primeTransportPadding_def kickHandshake_def keepalive_all_def tun_defs Let_def)
  then obtain t where t: "Tunnel_Start (tracked_up demo_up) 5 (NewWithBind (Some demo_tunnel_cfg) BindStd, 0, {#}) = (None, t, 2, {#1#})"
    "tn_running t" by blast
  have "reachable (\<lambda>x. x = (sup_init 5, NewWithBind (Some demo_tunnel_cfg) BindStd, 0, {#})) (tstep (tracked_up demo_up))
     (sup_init 5, NewWithBind (Some demo_tunnel_cfg) BindStd, 0, {#})"
    by (intro reachable.base) simp
  from reachable.more [OF this tstep.start [OF t(1)]] t(2) show ?thesis by blast
qed

theorem no_device_leak_witness:
  "\<exists>t. reachable (\<lambda>x. x = (sup_init 5, NewWithBind (Some demo_tunnel_cfg) BindStd, 0, {#})) (tstep (tracked_up demo_up))
     (sup_init 5, t, 2, {#1#}) \<and> tn_running t \<and> tn_dev t = Some 1"
proof -
  obtain t where t: "reachable (\<lambda>x. x = (sup_init 5, NewWithBind (Some demo_tunnel_cfg) BindStd, 0, {#})) (tstep (tracked_up demo_up))
     (sup_init 5, t, 2, {#1#})" "tn_running t" using demo_tracked by blast
  from no_device_leak [OF t(1)] t show ?thesis by (auto split: option.splits)
qed

section \<open>Hot reload\<close>

lemma Start_frame:
  assumes "Tunnel_Start up now (t, w) = (e, t', w')"
  shows "tn_cfg t' = tn_cfg t"
    and "e = None \<Longrightarrow> tn_running t'"
    and "e \<noteq> None \<Longrightarrow> tn_running t' = tn_running t"
    and "e \<noteq> None \<Longrightarrow> \<not> tn_running t \<Longrightarrow> tn_cfg t \<noteq> None \<Longrightarrow> tn_state t' = StateFailed"
  using assms
  by (auto simp: Tunnel_Start_def tun_defs Let_def split: if_splits option.splits sum.splits prod.splits)

text \<open>What a reload leaves behind in each of its outcomes.\<close>

definition reload_outcome :: "('d, 'n) tun \<Rightarrow> Tunnel \<Rightarrow> goerr + unit \<Rightarrow> ('d, 'n) tun \<Rightarrow> bool" where
  "reload_outcome t next x t' \<longleftrightarrow>
     (case x of
        Inr _ \<Rightarrow> tn_cfg t' = Some next \<and> tn_running t' = tn_running t
      | Inl _ \<Rightarrow> tn_cfg t' = tn_cfg t \<and> (tn_running t' = tn_running t \<or> tn_state t' = StateFailed) \<and>
          (\<not> tn_running t \<longrightarrow> t' = t))"

lemma reload_uapi_outcome:
  "reload_uapi up dev prev next (t, w) = (x, t', w') \<Longrightarrow> tn_running t \<Longrightarrow> reload_outcome t next x t'"
  by (auto simp: reload_uapi_def reload_outcome_def tun_defs Let_def
      split: prod.splits sum.splits option.splits if_splits)

lemma reload_rebuild_outcome:
  assumes r: "reload_rebuild up now (tn_cfg t) next (t, w) = (x, t', w')" and run: "tn_running t" "tn_cfg t \<noteq> None"
  shows "reload_outcome t next x t'"
proof -
  obtain t1 w1 where s: "Tunnel_Stop up (t, w) = (t1, w1)" by (cases "Tunnel_Stop up (t, w)")
  obtain e t2 w2 where st: "Tunnel_Start up now (t1\<lparr>tn_cfg := Some next\<rparr>, w1) = (e, t2, w2)"
    using prod_cases3 by blast
  obtain e2 t3 w3 where st2: "Tunnel_Start up now (t2\<lparr>tn_cfg := tn_cfg t\<rparr>, w2) = (e2, t3, w3)"
    using prod_cases3 by blast
  note f = Start_frame [OF st] Start_frame [OF st2] Stop_not_running [OF s]
  from r s st st2 f run show ?thesis
    by (cases e; cases e2) (auto simp: reload_rebuild_def reload_outcome_def)
qed

lemma Reload_outcome:
  assumes inv: "tun_inv t" and r: "Tunnel_Reload up now (Some next) (t, w) = (x, t', w')"
  shows "reload_outcome t next x t'"
proof -
  obtain e w1 where d: "DryRun up (Some next) w = (e, w1)" by (cases "DryRun up (Some next) w")
  show ?thesis
  proof (cases "e = None \<and> tn_running t")
    case False
    with d r show ?thesis by (auto simp: Tunnel_Reload_def reload_outcome_def split: option.splits)
  next
    case True
    then obtain dev prev where dp: "tn_dev t = Some dev" "tn_cfg t = Some prev"
      using inv by (auto simp: tun_inv_def)
    show ?thesis
      using r d True dp reload_uapi_outcome [of up dev prev "next" t w1] reload_rebuild_outcome [of up now t "next" w1]
      by (auto simp: Tunnel_Reload_def split: if_splits)
  qed
qed


lemma demo_reload:
  "\<exists>t t'. reachable tinit (tstep demo_up) (sup_init 5, t, 2) \<and> tn_running t \<and> tn_cfg t = Some demo_tunnel_cfg \<and>
     Tunnel_Reload demo_up 9 (Some (demo_tunnel_cfg\<lparr>t_MTU := 1300\<rparr>)) (t, 2) = (Inr (), t', 6)"
proof -
  obtain t where t: "Tunnel_Start demo_up 5 (NewWithBind (Some demo_tunnel_cfg) BindStd, 0) = (None, t, 2)" "tn_running t"
    "tn_dev t = Some 1" "tn_cfg t = Some demo_tunnel_cfg" using demo_start by blast
  have "reachable tinit (tstep demo_up) (sup_init 5, NewWithBind (Some demo_tunnel_cfg) BindStd, 0)"
    by (intro reachable.base) (auto simp: tinit_def)
  from reachable.more [OF this tstep.start [OF t(1)]] have "reachable tinit (tstep demo_up) (sup_init 5, t, 2)" by blast
  moreover have "\<exists>t'. Tunnel_Reload demo_up 9 (Some (demo_tunnel_cfg\<lparr>t_MTU := 1300\<rparr>)) (t, 2) = (Inr (), t', 6)"
    using t(2,3,4)
    by (simp add: Tunnel_Reload_def reload_rebuild_def DryRun_def Tunnel_Stop_def Stop_locked_def stackEqual_def Tunnel_Start_def
        buildDevice_def toUAPI_def demo_up_def peerKeys_def demo_tunnel_cfg_def demo_cfg_def primeTransportPadding_def
        kickHandshake_def keepalive_all_def tun_defs Let_def)
  ultimately show ?thesis using t by blast
qed


section \<open>Attempts of a lookup\<close>

definition counted :: "(nat \<Rightarrow> 'w \<Rightarrow> (goerr + 'a) \<times> 'w) \<Rightarrow> nat \<Rightarrow> 'w \<times> (goerr + 'a) list \<Rightarrow> (goerr + 'a) \<times> 'w \<times> (goerr + 'a) list" where
  "counted q attempt wl = (case q attempt (fst wl) of (x, w1) \<Rightarrow> (x, w1, snd wl @ [x]))"

definition not_found :: "goerr + 'a \<Rightarrow> bool" where
  "not_found x \<longleftrightarrow> (case x of Inl e \<Rightarrow> (case e_dns e of Some de \<Rightarrow> de_notfound de | None \<Rightarrow> False) | Inr _ \<Rightarrow> False)"

definition transient :: "goerr + 'a \<Rightarrow> bool" where
  "transient x \<longleftrightarrow> (case x of Inl e \<Rightarrow> fst (retryDecision e False) | Inr _ \<Rightarrow> False)"

lemma retryDecision_eq:
  "retryDecision e nf =
     (if not_found (Inl e :: goerr + 'a) then (\<not> nf, True) else (transient (Inl e :: goerr + 'a), nf))"
  by (auto simp: retryDecision_def not_found_def transient_def split: option.splits)

lemma not_found_transient: "not_found x \<Longrightarrow> transient x"
  by (auto simp: retryDecision_def not_found_def transient_def split: option.splits sum.splits)

text \<open>What the answers of the attempts from \<open>k\<close> on may be, after a not-found answer or not.\<close>

definition attempts_ok :: "nat \<Rightarrow> bool \<Rightarrow> bool \<Rightarrow> (goerr + 'a list) list \<Rightarrow> goerr + 'a list \<Rightarrow> bool" where
  "attempts_ok k nf always new y \<longleftrightarrow>
     length new \<le> 4 - k \<and>
     length (filter not_found new) \<le> (if nf then 1 else 2) \<and>
     list_all transient (butlast new) \<and>
     (case y of
        Inr out \<Rightarrow> out \<noteq> [] \<and> new \<noteq> [] \<and> last new = Inr out
      | Inl _ \<Rightarrow> always \<longrightarrow>
          length new = 4 - k \<or>
          (new \<noteq> [] \<and> (last new = Inr [] \<or> \<not> transient (last new) \<or>
             (not_found (last new) \<and> length (filter not_found new) = (if nf then 1 else 2)))))"

lemma attempts_ok_Nil: "k > 3 \<or> \<not> always \<Longrightarrow> attempts_ok k nf always [] (Inl e)"
  by (auto simp: attempts_ok_def)

lemma attempts_ok_Cons:
  assumes "attempts_ok (Suc k) (nf \<or> not_found x) always new y" and "transient x" and "k \<le> 3" and "not_found x \<Longrightarrow> \<not> nf"
  shows "attempts_ok k nf always (x # new) y"
  using assms unfolding attempts_ok_def by (cases y; cases "new = []"; cases "not_found x"; cases nf) auto

lemma lookup_loop_attempts:
  assumes "lookup_loop src host (counted q) ctxDone k le nf (w, l) = (y, w', l')"
  shows "\<exists>new. l' = l @ new \<and> attempts_ok k nf (\<forall>a wl. \<not> ctxDone a wl) new y"
  using assms
proof (induction "4 - k" arbitrary: k le nf w l)
  case 0
  then have "k > dnsAttempts" by (simp add: dnsAttempts_def)
  with 0(2) have "l' = l" "\<exists>e. y = Inl e" by (auto simp: lookup_loop.simps Let_def)
  with attempts_ok_Nil [of k] \<open>k > dnsAttempts\<close> show ?case by (auto simp: dnsAttempts_def)
next
  case (Suc n)
  then have k: "\<not> k > dnsAttempts" "k \<le> 3" "n = 4 - Suc k" by (auto simp: dnsAttempts_def)
  obtain x w1 where q: "q k w = (x, w1)" by (cases "q k w")
  show ?case
  proof (cases "ctxDone k (w, l)")
    case True
    with Suc(3) obtain e where "l' = l" "y = Inl e" by (auto simp: lookup_loop.simps Let_def)
    moreover have "\<not> (\<forall>a wl. \<not> ctxDone a wl)" using True by blast
    ultimately show ?thesis by (intro exI [of _ "[]"]) (simp add: attempts_ok_Nil del: split_paired_All)
  next
    case False
    show ?thesis
    proof (cases x)
      case (Inr out)
      with Suc(3) q k False have "l' = l @ [x] \<and> (y = Inr out \<and> out \<noteq> [] \<or> out = [] \<and> (\<exists>e. y = Inl e))"
        by (subst (asm) lookup_loop.simps) (auto simp: counted_def Let_def split: if_splits)
      with Inr k show ?thesis by (intro exI [of _ "[x]"]) (auto simp: attempts_ok_def not_found_def)
    next
      case (Inl e)
      obtain retry nf' where r: "retryDecision e nf = (retry, nf')" by (cases "retryDecision e nf")
      note r' = r [unfolded retryDecision_eq [where 'a = "Addr list"]]
      show ?thesis
      proof (cases retry)
        case True
        with Suc(3) q k False Inl r have "lookup_loop src host (counted q) ctxDone (Suc k) (Some e) nf' (w1, l @ [x]) = (y, w', l')"
          by (subst (asm) lookup_loop.simps) (auto simp: counted_def Let_def)
        from Suc(1) [OF k(3) this] obtain new where n: "l' = l @ x # new" "attempts_ok (Suc k) nf' (\<forall>a wl. \<not> ctxDone a wl) new y" by auto
        have "nf' = (nf \<or> not_found x)" "transient x" "not_found x \<Longrightarrow> \<not> nf"
          using r' True Inl not_found_transient [of x] by (auto split: if_splits)
        with n attempts_ok_Cons k show ?thesis by blast
      next
        case False': False
        with Suc(3) q k False Inl r have "l' = l @ [x]" "\<exists>e. y = Inl e"
          by (subst (asm) lookup_loop.simps, auto simp: counted_def Let_def)+
        moreover have "\<not> transient x \<or> (not_found x \<and> nf)" using r' False' Inl by (auto split: if_splits)
        ultimately show ?thesis using k not_found_transient [of x]
          by (intro exI [of _ "[x]"]) (auto simp: attempts_ok_def)
      qed
    qed
  qed
qed

text \<open>
  an uncached lookup sends at most three queries; every answer but the last is a
  transient error (a timeout or a first not-found); an address list is the last answer,
  not empty, and no more than two answers are not-found. With time left, a failure means
  three queries, or an empty answer, or an error that is not transient, or a not-found
  answer confirmed by a second one.
\<close>

theorem lookup_attempts:
  assumes "lookup_loop source host (counted query) ctxDone 1 None False (w, []) = (y, w', answers)"
  shows "length answers \<le> 3 \<and> length (filter not_found answers) \<le> 2 \<and> list_all transient (butlast answers) \<and>
     (case y of
        Inr out \<Rightarrow> out \<noteq> [] \<and> answers \<noteq> [] \<and> last answers = Inr out
      | Inl _ \<Rightarrow> (\<forall>a wl. \<not> ctxDone a wl) \<longrightarrow>
          length answers = 3 \<or>
          (answers \<noteq> [] \<and> (last answers = Inr [] \<or> \<not> transient (last answers) \<or>
             (not_found (last answers) \<and> length (filter not_found answers) = 2))))"
  using lookup_loop_attempts [OF assms] by (cases y) (simp_all add: attempts_ok_def)

definition demo_query :: "nat \<Rightarrow> nat \<Rightarrow> (goerr + Addr list) \<times> nat" where
  "demo_query attempt w =
     (if attempt = 1
      then (Inl \<lparr>e_chain = [], e_dns = Some \<lparr>de_notfound = True, de_timeout = False, de_err = ''no such host''\<rparr>,
                 e_timeout = False, e_msg = ''no such host''\<rparr>, w + 1)
      else (Inr [Addr4 [1, 2, 3, 4]], w + 1))"

lemma demo_query_runs:
  "\<exists>as. lookup_loop ''in-tunnel DNS'' ''a.example'' (counted demo_query) (\<lambda>_ _. False) 1 None False (0, []) =
     (Inr [Addr4 [1, 2, 3, 4]], 2, as) \<and> length as = 2"
  by (simp add: lookup_loop.simps [of _ _ _ _ "Suc 0"] lookup_loop.simps [of _ _ _ _ "Suc (Suc 0)"] counted_def demo_query_def
      retryDecision_def dnsAttempts_def Let_def)

theorem lookup_attempts_witness:
  "\<exists>as. lookup_loop ''in-tunnel DNS'' ''a.example'' (counted demo_query) (\<lambda>_ _. False) 1 None False (0, []) =
     (Inr [Addr4 [1, 2, 3, 4]], 2, as) \<and> length as = 2 \<and> last as = Inr [Addr4 [1, 2, 3, 4]] \<and> list_all transient (butlast as)"
proof -
  obtain as where a: "lookup_loop ''in-tunnel DNS'' ''a.example'' (counted demo_query) (\<lambda>_ _. False) 1 None False (0, []) =
     (Inr [Addr4 [1, 2, 3, 4]], 2, as)" "length as = 2" using demo_query_runs by blast
  from lookup_attempts [OF a(1)] a show ?thesis by simp
qed

section \<open>Who is asked for a name\<close>

lemma lookup_loop_cong:
  assumes "\<And>attempt w. q attempt w = q' attempt w"
  shows "lookup_loop src host q ctxDone k le nf w = lookup_loop src host q' ctxDone k le nf w"
proof -
  have "q = q'" using assms by blast
  then show ?thesis by simp
qed

lemma dns_query_confined:
  assumes "\<And>cfg a n h w. cfgo = Some cfg \<Longrightarrow> a \<in> Unmap ` set (t_LocalDNS cfg) \<Longrightarrow> IsLoopback a \<Longrightarrow>
      res (AddrPortFrom a 53) n h w = res' (AddrPortFrom a 53) n h w"
  shows "dns_query up res net cfgo host attempt w = dns_query up res' net cfgo host attempt w"
proof (cases "\<exists>cfg. cfgo = Some cfg \<and> t_LocalDNS cfg \<noteq> []")
  case True
  then obtain cfg where c: "cfgo = Some cfg" "t_LocalDNS cfg \<noteq> []" by blast
  let ?a = "t_LocalDNS cfg ! ((attempt - 1) mod length (t_LocalDNS cfg))"
  have "?a \<in> set (t_LocalDNS cfg)" using c by simp
  then show ?thesis using c assms [OF c(1), of "Unmap ?a"] by (simp add: dns_query_def localdns_Lookup_def Let_def)
qed (auto simp: dns_query_def split: option.splits)

lemma lookupUncached_confined:
  assumes "\<And>cfg a n h w. tn_cfg t = Some cfg \<Longrightarrow> a \<in> Unmap ` set (t_LocalDNS cfg) \<Longrightarrow> IsLoopback a \<Longrightarrow>
      res (AddrPortFrom a 53) n h w = res' (AddrPortFrom a 53) n h w"
  shows "lookupUncached up res ctxDone wt t host w = lookupUncached up res' ctxDone wt t host w"
proof -
  have "dns_query up res net (tn_cfg t) host a w = dns_query up res' net (tn_cfg t) host a w" for net a w
    by (rule dns_query_confined) (rule assms)
  then have "lookup_loop (dns_source (tn_cfg t)) host (dns_query up res net (tn_cfg t) host) ctxDone 1 None False w =
      lookup_loop (dns_source (tn_cfg t)) host (dns_query up res' net (tn_cfg t) host) ctxDone 1 None False w" for net w
    by (rule lookup_loop_cong)
  then show ?thesis by (simp add: lookupUncached_def split: option.split)
qed

text \<open>
  C6: two worlds in which a resolver outside the tunnel behaves differently cannot be
  told apart by a lookup, unless they differ on port 53 of a loopback address that the
  configuration lists: with no local server configured the machine's resolver is never
  asked, whatever happens inside the tunnel, and otherwise only loopback servers are.
\<close>

theorem lookup_confined:
  assumes "\<And>cfg a n h w. tn_cfg t = Some cfg \<Longrightarrow> a \<in> Unmap ` set (t_LocalDNS cfg) \<Longrightarrow> IsLoopback a \<Longrightarrow>
      res (AddrPortFrom a 53) n h w = res' (AddrPortFrom a 53) n h w"
  shows "Tunnel_LookupHost up res ctxDone wt lk host (t, w) = Tunnel_LookupHost up res' ctxDone wt lk host (t, w)"
proof -
  have "lookupUncached up res ctxDone wt t host = lookupUncached up res' ctxDone wt t host"
    by (rule ext, rule lookupUncached_confined, rule assms)
  then show ?thesis by (simp add: Tunnel_LookupHost_def)
qed

text \<open>A running tunnel without local servers never notices what the machine's resolver does.\<close>

definition demo_local :: "(nat, nat) tun" where
  "demo_local = (NewWithBind (Some demo_tunnel_cfg) BindStd)\<lparr>tn_running := True, tn_net := Some 0\<rparr>"

definition demo_wait :: waiting where
  "demo_wait = ([], \<lparr>v_running = True, v_ready = 1\<rparr>, StateConnected, errors_New [])"

definition demo_lookup :: lookup_env where
  "demo_lookup = \<lparr>lk_now = 0, lk_now2 = 1, lk_cancelled = False, lk_joined = ([], None), lk_gaveup = None\<rparr>"

theorem lookup_confined_witness:
  "Tunnel_LookupHost demo_up (\<lambda>a n h w. (Inr [Addr4 [6, 6, 6, 6]], w + 100)) (\<lambda>_ _. False) demo_wait demo_lookup
     ''a.example'' (demo_local, 0) =
   Tunnel_LookupHost demo_up (\<lambda>a n h w. (Inl (errors_New ''refused''), w)) (\<lambda>_ _. False) demo_wait demo_lookup
     ''a.example'' (demo_local, 0)"
  by (rule lookup_confined) (auto simp: demo_local_def NewWithBind_def demo_tunnel_cfg_def)

section \<open>The backoff schedule\<close>

lemma nextBackoff_min: "minBackoff \<le> b \<Longrightarrow> nextBackoff (min b maxBackoff) = min (2 * b) maxBackoff"
  by (auto simp: nextBackoff_def minBackoff_def maxBackoff_def min_def)

text \<open>
  the delays between the handshake attempts of an unhealthy tunnel are one second
  doubled at each attempt, capped at one minute.
\<close>

theorem backoff_schedule: "(nextBackoff ^^ n) minBackoff = min (2 ^ n * 1000000000) 60000000000"
proof (induction n)
  case 0
  show ?case by (simp add: minBackoff_def)
next
  case (Suc n)
  have "minBackoff \<le> 2 ^ n * 1000000000" by (simp add: minBackoff_def)
  from nextBackoff_min [OF this] Suc show ?case by (simp add: maxBackoff_def mult.assoc)
qed

end
