(* ===== verification/Config_App.thy ===== *)
theory Config_App
  imports Config_Tunnel
begin

text \<open>
  The application configuration (\<open>internal/config/app.go\<close>): defaults, loading,
  normalising, the loopback rule for the listen address, and saving.

  \<open>filepath.Abs\<close>, \<open>filepath.Join\<close>, the JSON codec and the file system calls are
  parameters.
\<close>

record App =
  a_ConfigPath :: string
  a_Socks5Listen :: string
  a_AutoStart :: bool
  a_LogLevel :: string
  a_MaxConnections :: int
  a_LogMaxSizeMB :: int
  a_LogMaxFiles :: int
  a_UDPAssociate :: "bool option"
  a_UDPBind :: string
  a_path :: string

datatype read_result = Missing | ReadError goerr | Content "byte list"

text \<open>
  The environment: \<open>programDataDir\<close>, the path functions, reading a file, the JSON
  decoder (which starts from the given value) and encoder.
\<close>

record app_env =
  ev_override :: "string option"
  ev_programData :: "string option"
  ev_Join :: "string \<Rightarrow> string \<Rightarrow> string"
  ev_Abs :: "string \<Rightarrow> string option"
  ev_ReadFile :: "string \<Rightarrow> read_result"
  ev_Decode :: "string \<Rightarrow> App \<Rightarrow> goerr + App"
  ev_Marshal :: "App \<Rightarrow> goerr + byte list"

definition DefaultRootDir :: string where
  "DefaultRootDir = ''C:'' @ [CHR 0x5C] @ ''ProgramData'' @ [CHR 0x5C] @ ''AWGSocks''"
definition DefaultSocksListen :: string where "DefaultSocksListen = ''127.0.0.1:10808''"
definition DefaultLogLevel :: string where "DefaultLogLevel = ''info''"
definition DefaultUDPBind :: string where "DefaultUDPBind = ''std''"

definition RootDir :: "app_env \<Rightarrow> string" where
  "RootDir ev =
     (case ev_override ev of
        Some p \<Rightarrow> p
      | None \<Rightarrow>
          (case ev_programData ev of
             Some pd \<Rightarrow> if pd \<noteq> [] then ev_Join ev pd ''AWGSocks'' else DefaultRootDir
           | None \<Rightarrow> DefaultRootDir))"

definition AppConfigPath :: "app_env \<Rightarrow> string" where
  "AppConfigPath ev = ev_Join ev (RootDir ev) ''config.json''"

definition TunnelConfigPath :: "app_env \<Rightarrow> string" where
  "TunnelConfigPath ev = ev_Join ev (RootDir ev) ''client.conf''"

definition LogDir :: "app_env \<Rightarrow> string" where
  "LogDir ev = ev_Join ev (RootDir ev) ''logs''"

definition DefaultApp :: "app_env \<Rightarrow> App" where
  "DefaultApp ev =
     \<lparr>a_ConfigPath = TunnelConfigPath ev, a_Socks5Listen = DefaultSocksListen, a_AutoStart = True,
      a_LogLevel = DefaultLogLevel, a_MaxConnections = 0, a_LogMaxSizeMB = 0, a_LogMaxFiles = 0,
      a_UDPAssociate = Some True, a_UDPBind = DefaultUDPBind, a_path = []\<rparr>"

section \<open>The loopback rule\<close>

datatype listen_err = ListenSyntax | ListenPortZero | ListenHost | ListenNotLoopback

definition splitHostPort :: "string \<Rightarrow> (string \<times> u16) option" where
  "splitHostPort addr =
     (case ParseAddrPort addr of
        None \<Rightarrow> None
      | Some ap \<Rightarrow> Some (Addr_String (ap_addr ap), ap_port ap))"

definition ValidateLoopbackListen :: "string \<Rightarrow> listen_err + unit" where
  "ValidateLoopbackListen addr =
     (case splitHostPort addr of
        None \<Rightarrow> Inl ListenSyntax
      | Some (host, port) \<Rightarrow>
          if port = 0 then Inl ListenPortZero
          else (case ParseAddr host of
              None \<Rightarrow> Inl ListenHost
            | Some ip \<Rightarrow> if \<not> IsLoopback ip then Inl ListenNotLoopback else Inr ()))"

section \<open>Normalising\<close>

datatype app_err =
    BadConfigPath string | BadListen listen_err | BadLogLevel string | BadUDPBind string
  | NegativeMaxConnections int | NegativeLogLimits | AppRead goerr | AppParse goerr

text \<open>A field that is blank takes its default.\<close>

definition orDefault :: "string \<Rightarrow> string \<Rightarrow> string" where
  "orDefault v dflt = (if TrimSpace v = [] then dflt else v)"

definition Normalize :: "app_env \<Rightarrow> App \<Rightarrow> app_err + App" where
  "Normalize ev a =
     (let cp = orDefault (a_ConfigPath a) (TunnelConfigPath ev) in
      case ev_Abs ev cp of
        None \<Rightarrow> Inl (BadConfigPath cp)
      | Some full \<Rightarrow>
          (let listen = orDefault (a_Socks5Listen a) DefaultSocksListen in
           rbind (mapErr BadListen (ValidateLoopbackListen listen)) (\<lambda>_.
             let level = orDefault (a_LogLevel a) DefaultLogLevel in
             if ToLower level \<notin> set [''debug'', ''info'', ''warn'', ''warning'', ''error''] then Inl (BadLogLevel level)
             else
               (let udp = (case a_UDPAssociate a of None \<Rightarrow> Some True | Some b \<Rightarrow> Some b);
                    b = ToLower (TrimSpace (a_UDPBind a))
                in if b \<notin> set [[], ''std'', ''rio''] then Inl (BadUDPBind (a_UDPBind a))
                   else if a_MaxConnections a < 0 then Inl (NegativeMaxConnections (a_MaxConnections a))
                   else if a_LogMaxSizeMB a < 0 \<or> a_LogMaxFiles a < 0 then Inl NegativeLogLimits
                   else Inr (a\<lparr>a_ConfigPath := full, a_Socks5Listen := listen, a_LogLevel := level,
                          a_UDPAssociate := udp, a_UDPBind := (if b = [] then DefaultUDPBind else b)\<rparr>)))))"

definition LoadApp :: "app_env \<Rightarrow> string \<Rightarrow> app_err + App" where
  "LoadApp ev path0 =
     (let path = (if path0 = [] then AppConfigPath ev else path0);
          full = (case ev_Abs ev path of None \<Rightarrow> path | Some p \<Rightarrow> p)
      in case ev_ReadFile ev full of
           Missing \<Rightarrow> Normalize ev ((DefaultApp ev)\<lparr>a_path := full\<rparr>)
         | ReadError e \<Rightarrow> Inl (AppRead e)
         | Content raw \<Rightarrow>
             (case ev_Decode ev (decodeText raw) (DefaultApp ev) of
                Inl e \<Rightarrow> Inl (AppParse e)
              | Inr app \<Rightarrow> Normalize ev (app\<lparr>a_path := full\<rparr>)))"

text \<open>Reading a tunnel configuration; a missing file is an error here.\<close>

datatype load_err = LoadMissing | LoadRead goerr | LoadParse tun_err

definition LoadTunnel ::
  "app_env \<Rightarrow> (string \<Rightarrow> string \<Rightarrow> goerr + conf_Config) \<Rightarrow> (string \<Rightarrow> string) \<Rightarrow> (string \<Rightarrow> bool) \<Rightarrow> string
     \<Rightarrow> load_err + Tunnel" where
  "LoadTunnel ev confParse pbase nameValid path =
     (let full = (case ev_Abs ev path of None \<Rightarrow> path | Some p \<Rightarrow> p) in
      case ev_ReadFile ev full of
        Missing \<Rightarrow> Inl LoadMissing
      | ReadError e \<Rightarrow> Inl (LoadRead e)
      | Content raw \<Rightarrow> mapErr LoadParse (ParseTunnel confParse pbase nameValid raw full))"

definition UDPEnabled :: "App \<Rightarrow> bool" where
  "UDPEnabled a \<longleftrightarrow> (case a_UDPAssociate a of None \<Rightarrow> True | Some b \<Rightarrow> b)"

definition App_Path :: "app_env \<Rightarrow> App \<Rightarrow> string" where
  "App_Path ev a = (if a_path a = [] then AppConfigPath ev else a_path a)"

section \<open>Saving\<close>

text \<open>
  What the file system does with the three calls: whether the directory can be
  made, what \<open>WriteFile\<close> leaves in the temporary file (everything, or a part of it
  with an error), whether the rename succeeds.
\<close>

record fs_env =
  fe_mkdir :: bool
  fe_write :: "byte list option"
  fe_rename :: bool

type_synonym files = "string \<rightharpoonup> byte list"

definition Save :: "app_env \<Rightarrow> fs_env \<Rightarrow> string \<Rightarrow> App \<Rightarrow> files \<Rightarrow> bool \<times> App \<times> files" where
  "Save ev fe path0 a fs =
     (let path = (if path0 = [] then App_Path ev a else path0); tmp = path @ ''.tmp'' in
      if \<not> fe_mkdir fe then (False, a, fs)
      else (case ev_Marshal ev a of
          Inl e \<Rightarrow> (False, a, fs)
        | Inr raw0 \<Rightarrow>
            (let raw = raw0 @ [10] in
             case fe_write fe of
               Some part \<Rightarrow> (False, a, fs(tmp \<mapsto> part))
             | None \<Rightarrow>
                 if \<not> fe_rename fe then (False, a, (fs(tmp \<mapsto> raw))(tmp := None))
                 else (True, a\<lparr>a_path := path\<rparr>, (fs(path \<mapsto> raw))(tmp := None)))))"

section \<open>Properties\<close>

definition listen_ok :: "string \<Rightarrow> bool" where
  "listen_ok s \<longleftrightarrow> (\<exists>ap ip. ParseAddrPort s = Some ap \<and> ap_port ap \<noteq> 0 \<and>
     ParseAddr (Addr_String (ap_addr ap)) = Some ip \<and> IsLoopback ip)"

lemma ValidateLoopbackListen_iff: "ValidateLoopbackListen s = Inr () \<longleftrightarrow> listen_ok s"
  by (auto simp: ValidateLoopbackListen_def splitHostPort_def listen_ok_def split: option.splits if_splits)

definition app_ok :: "App \<Rightarrow> bool" where
  "app_ok a \<longleftrightarrow> listen_ok (a_Socks5Listen a) \<and> a_UDPBind a \<in> {''std'', ''rio''} \<and>
     ToLower (a_LogLevel a) \<in> {''debug'', ''info'', ''warn'', ''warning'', ''error''} \<and>
     a_UDPAssociate a \<noteq> None \<and> 0 \<le> a_MaxConnections a \<and> 0 \<le> a_LogMaxSizeMB a \<and> 0 \<le> a_LogMaxFiles a"

lemma Normalize_app_ok:
  assumes "Normalize ev a = Inr a'"
  shows "app_ok a' \<and> a_AutoStart a' = a_AutoStart a \<and> UDPEnabled a' = UDPEnabled a \<and> a_path a' = a_path a"
proof -
  let ?listen = "orDefault (a_Socks5Listen a) DefaultSocksListen"
    and ?level = "orDefault (a_LogLevel a) DefaultLogLevel" and ?b = "ToLower (TrimSpace (a_UDPBind a))"
  have ok: "ValidateLoopbackListen ?listen = Inr ()"
    "ToLower ?level \<in> {''debug'', ''info'', ''warn'', ''warning'', ''error''}" "?b \<in> {[], ''std'', ''rio''}"
    "\<not> a_MaxConnections a < 0" "\<not> (a_LogMaxSizeMB a < 0 \<or> a_LogMaxFiles a < 0)"
    using assms by (auto simp: Normalize_def Let_def rbind_Inr_iff split: option.splits if_splits)
  then obtain full where a': "a' = a\<lparr>a_ConfigPath := full, a_Socks5Listen := ?listen, a_LogLevel := ?level,
      a_UDPAssociate := (case a_UDPAssociate a of None \<Rightarrow> Some True | Some b \<Rightarrow> Some b),
      a_UDPBind := (if ?b = [] then DefaultUDPBind else ?b)\<rparr>"
    using assms by (auto simp: Normalize_def Let_def split: option.splits)
  show ?thesis unfolding a' app_ok_def using ok
    by (cases "a_UDPAssociate a") (auto simp: ValidateLoopbackListen_iff UDPEnabled_def DefaultUDPBind_def)
qed

text \<open>
  C38: every application configuration the program runs with, loaded from a file or
  the defaults of a fresh installation, has a listen address that is a loopback
  address with a port, a known bind mode and log level and no negative limit; the
  decision on UDP ASSOCIATE is that of the file.
\<close>

theorem LoadApp_ok:
  assumes "LoadApp ev path = Inr a"
  shows "app_ok a \<and> (\<forall>raw app. ev_ReadFile ev (a_path a) = Content raw \<longrightarrow>
      ev_Decode ev (decodeText raw) (DefaultApp ev) = Inr app \<longrightarrow> UDPEnabled a = UDPEnabled app)"
proof -
  let ?abs = "case ev_Abs ev (if path = [] then AppConfigPath ev else path) of
    None \<Rightarrow> if path = [] then AppConfigPath ev else path | Some p \<Rightarrow> p"
  from assms obtain app where n: "Normalize ev (app\<lparr>a_path := ?abs\<rparr>) = Inr a"
    and src: "\<And>raw. ev_ReadFile ev ?abs = Content raw \<Longrightarrow> ev_Decode ev (decodeText raw) (DefaultApp ev) = Inr app"
    by (auto simp: LoadApp_def Let_def split: read_result.splits sum.splits)
  from Normalize_app_ok [OF n] src show ?thesis by (auto simp: UDPEnabled_def)
qed

text \<open>
  saving is atomic. Whatever fails, the configuration file keeps its old content;
  on success it has exactly the new content and a final newline, the temporary file
  is gone and no other file has changed.
\<close>

theorem Save_atomic:
  "(let path = (if path0 = [] then App_Path ev a else path0) in
    case Save ev fe path0 a fs of
      (False, a', fs') \<Rightarrow> a' = a \<and> fs' path = fs path
    | (True, a', fs') \<Rightarrow> (\<exists>raw. ev_Marshal ev a = Inr raw \<and> fs' = (fs(path \<mapsto> raw @ [10]))(path @ ''.tmp'' := None) \<and>
         fs' path = Some (raw @ [10]) \<and> a_path a' = path))"
  by (auto simp: Save_def Let_def split: sum.split option.split)


definition demo_env :: app_env where
  "demo_env = \<lparr>ev_override = Some ''R'', ev_programData = None, ev_Join = (\<lambda>a b. a @ ''/'' @ b), ev_Abs = Some,
     ev_ReadFile = (\<lambda>p. Missing), ev_Decode = (\<lambda>t a. Inr a), ev_Marshal = (\<lambda>a. Inr [123, 125])\<rparr>"

lemma demo_LoadApp: "\<exists>a. LoadApp demo_env [] = Inr a \<and> a_Socks5Listen a = ''127.0.0.1:10808''"
proof -
  have d: "dec 127 = ''127''" "dec 0 = ''0''" "dec (Suc 0) = ''1''" by (simp_all add: dec.simps chr_def)
  have "ValidateLoopbackListen ''127.0.0.1:10808'' = Inr ()"
    by (simp add: ValidateLoopbackListen_def splitHostPort_def ParseAddrPort_def splitAddrPort_def netip_eval string4_def d)
  then show ?thesis
    by (simp add: LoadApp_def demo_env_def DefaultApp_def Normalize_def Let_def TunnelConfigPath_def RootDir_def
        DefaultSocksListen_def DefaultLogLevel_def DefaultUDPBind_def mapErr_def orDefault_def TrimSpace_def ascii_space_def
        uspace2_def uspace3_def ascii_lower_def)
qed

theorem LoadApp_ok_witness:
  "\<exists>a. LoadApp demo_env [] = Inr a \<and> a_Socks5Listen a = ''127.0.0.1:10808'' \<and> listen_ok ''127.0.0.1:10808''"
proof -
  obtain a where a: "LoadApp demo_env [] = Inr a" "a_Socks5Listen a = ''127.0.0.1:10808''" using demo_LoadApp by blast
  from LoadApp_ok [OF a(1)] a show ?thesis by (auto simp: app_ok_def)
qed

end
