(* ===== verification/Socks5_Udp.thy ===== *)
theory Socks5_Udp
  imports Socks5_Core "HOL-Library.Multiset"
begin

text \<open>
  UDP ASSOCIATE (\<open>internal/socks5/udp.go\<close>): the relay of one association, its
  client-facing loopback socket, its in-tunnel sockets (one per address family) and
  the handler of the request.

  The goroutines of a relay are a sequence of events: a datagram from the client, a
  datagram from the tunnel, a tick of the idle watchdog. \<open>tunnelConn\<close> opened a socket
  outside its lock, so what another goroutine did in between is a parameter.
\<close>

section \<open>State\<close>

record 'p relay =
  r_local :: UDPAddr
  r_expect :: AddrPort
  r_tunnel :: "(bool \<rightharpoonup> 'p) option"
  r_lastActive :: int
  r_closed :: bool

text \<open>
  \<open>us_out\<close> is what has been written to the client-facing socket, with the address
  it was written to.
\<close>

record ('w, 'p) udp_st =
  us_srv :: Server
  us_relay :: "'p relay"
  us_w :: 'w
  us_out :: "(AddrPort \<times> byte list) list"

definition udpBufferSize :: nat where "udpBufferSize = 65535"
definition udpIdleTimeout :: int where "udpIdleTimeout = 5 * 60 * 1000000000"

definition touch :: "int \<Rightarrow> 'p relay \<Rightarrow> 'p relay" where
  "touch now r = r\<lparr>r_lastActive := now\<rparr>"

section \<open>Addresses\<close>

fun addrPortOf :: "net_Addr \<Rightarrow> AddrPort option" where
  "addrPortOf (NetUDP v) =
     (case AddrFromSlice (ua_IP v) of
        None \<Rightarrow> None
      | Some addr \<Rightarrow> Some (AddrPortFrom (Unmap addr) (word_of_int (ua_Port v))))"
| "addrPortOf (NetOther s) = ParseAddrPort s"

text \<open>\<open>AddrFromSlice\<close> of a slice that is neither 4 nor 16 long is the zero address.\<close>

definition LocalAddrPort :: "'p relay \<Rightarrow> AddrPort" where
  "LocalAddrPort r =
     AddrPortFrom (Unmap (case AddrFromSlice (ua_IP (r_local r)) of Some a \<Rightarrow> a | None \<Rightarrow> Addr0))
       (word_of_int (ua_Port (r_local r)))"

text \<open>The loopback guard: the only write the client-facing socket has.\<close>

definition WriteToUDPAddrPort :: "os_net \<Rightarrow> byte list \<Rightarrow> AddrPort \<Rightarrow> bool" where
  "WriteToUDPAddrPort os b addr \<longleftrightarrow>
     (if \<not> IsLoopback (Unmap (ap_addr addr)) then False else os_SendUDP os b addr)"

section \<open>Relay operations\<close>

definition acceptFrom :: "AddrPort \<Rightarrow> 'p relay \<Rightarrow> bool \<times> 'p relay" where
  "acceptFrom from r =
     (if \<not> IsLoopback (Unmap (ap_addr from)) then (False, r)
      else if \<not> IsValid (ap_addr (r_expect r)) \<or> IsUnspecified (ap_addr (r_expect r)) \<or> ap_port (r_expect r) = 0
        then (True, r\<lparr>r_expect := from\<rparr>)
      else (r_expect r = from, r))"

definition close_family :: "('w, 'p) Dialer \<Rightarrow> (bool \<rightharpoonup> 'p) \<Rightarrow> bool \<Rightarrow> 'w \<Rightarrow> 'w" where
  "close_family d m v6 w = (case m v6 of Some c \<Rightarrow> pc_Close d c w | None \<Rightarrow> w)"

definition relay_Close :: "('w, 'p) Dialer \<Rightarrow> 'p relay \<times> 'w \<Rightarrow> 'p relay \<times> 'w" where
  "relay_Close d rw =
     (case rw of (r, w) \<Rightarrow>
        if r_closed r then (r, w)
        else (r\<lparr>r_closed := True, r_tunnel := None\<rparr>,
              case r_tunnel r of
                None \<Rightarrow> w
              | Some m \<Rightarrow> close_family d m True (close_family d m False w)))"

definition relay_closed_err :: goerr where
  "relay_closed_err = errors_New ''relay is closed''"

text \<open>
  The part of \<open>tunnelConn\<close> after the socket has been opened: it is registered, or
  closed again when the relay was closed or the family was opened in the meantime.
\<close>

definition tunnelConn_register ::
  "('w, 'p) Dialer \<Rightarrow> bool \<Rightarrow> 'p \<Rightarrow> 'p relay \<times> 'w \<Rightarrow> (goerr + 'p) \<times> 'p relay \<times> 'w" where
  "tunnelConn_register d v6 c rw =
     (case rw of (r, w) \<Rightarrow>
        case r_tunnel r of
          None \<Rightarrow> (Inl relay_closed_err, r, pc_Close d c w)
        | Some m \<Rightarrow>
            (case m v6 of
               Some existing \<Rightarrow> (Inr existing, r, pc_Close d c w)
             | None \<Rightarrow> (Inr c, r\<lparr>r_tunnel := Some (m(v6 \<mapsto> c))\<rparr>, w)))"

text \<open>
  What another goroutine of the relay may do while the socket is being opened:
  nothing, the same for the same family, or closing the relay.
\<close>

datatype meanwhile = Nothing | OtherOpens | OtherCloses

fun meanwhile_run :: "('w, 'p) Dialer \<Rightarrow> meanwhile \<Rightarrow> bool \<Rightarrow> 'p relay \<times> 'w \<Rightarrow> 'p relay \<times> 'w" where
  "meanwhile_run d Nothing v6 rw = rw"
| "meanwhile_run d OtherCloses v6 rw = relay_Close d rw"
| "meanwhile_run d OtherOpens v6 (r, w) =
     (case ListenUDP d v6 w of
        (Inl e, w1) \<Rightarrow> (r, w1)
      | (Inr c, w1) \<Rightarrow> snd (tunnelConn_register d v6 c (r, w1)))"

definition tunnelConn ::
  "('w, 'p) Dialer \<Rightarrow> meanwhile \<Rightarrow> bool \<Rightarrow> 'p relay \<times> 'w \<Rightarrow> (goerr + 'p) \<times> 'p relay \<times> 'w" where
  "tunnelConn d mw v6 rw =
     (case rw of (r, w) \<Rightarrow>
        case r_tunnel r of
          None \<Rightarrow> (Inl relay_closed_err, r, w)
        | Some m \<Rightarrow>
            (case m v6 of
               Some c \<Rightarrow> (Inr c, r, w)
             | None \<Rightarrow>
                 (case ListenUDP d v6 w of
                    (Inl e, w1) \<Rightarrow> (Inl e, meanwhile_run d mw v6 (r, w1))
                  | (Inr c, w1) \<Rightarrow> tunnelConn_register d v6 c (meanwhile_run d mw v6 (r, w1)))))"

fun warmUp_loop ::
  "('w, 'p) Dialer \<Rightarrow> meanwhile \<Rightarrow> goerr option \<Rightarrow> bool list \<Rightarrow> 'p relay \<times> 'w \<Rightarrow> goerr option \<times> 'p relay \<times> 'w" where
  "warmUp_loop d mw firstErr [] rw = (firstErr, rw)"
| "warmUp_loop d mw firstErr (v6 # fs) rw =
     (case tunnelConn d mw v6 rw of
        (Inl e, rw') \<Rightarrow> warmUp_loop d mw (if firstErr = None then Some e else firstErr) fs rw'
      | (Inr _, rw') \<Rightarrow> (None, rw'))"

definition warmUp :: "('w, 'p) Dialer \<Rightarrow> meanwhile \<Rightarrow> 'p relay \<times> 'w \<Rightarrow> goerr option \<times> 'p relay \<times> 'w" where
  "warmUp d mw rw = warmUp_loop d mw None [False, True] rw"

definition resolve :: "('w, 'p) Dialer \<Rightarrow> udpDestination \<Rightarrow> 'w \<Rightarrow> AddrPort option \<times> 'w" where
  "resolve d dst w =
     (if u_host dst = [] then
        (let addr = Unmap (u_addr dst) in
         (if \<not> IsUnspecified addr then Some (AddrPortFrom addr (u_port dst)) else None, w))
      else if \<not> HasDNS d w then (None, w)
      else (case LookupHost d (u_host dst) w of
          (Inl e, w1) \<Rightarrow> (None, w1)
        | (Inr addrs, w1) \<Rightarrow>
            (case routable addrs of
               [] \<Rightarrow> (None, w1)
             | a # _ \<Rightarrow> (Some (AddrPortFrom a (u_port dst)), w1))))"

definition forward ::
  "('w, 'p) Dialer \<Rightarrow> meanwhile \<Rightarrow> udpDestination \<Rightarrow> byte list \<Rightarrow> ('w, 'p) udp_st \<Rightarrow> ('w, 'p) udp_st" where
  "forward d mw dst payload st =
     (case resolve d dst (us_w st) of
        (None, w1) \<Rightarrow> st\<lparr>us_srv := drop1 (us_srv st), us_w := w1\<rparr>
      | (Some target, w1) \<Rightarrow>
          (case tunnelConn d mw (Is6 (ap_addr target)) (us_relay st, w1) of
             (Inl e, r, w2) \<Rightarrow> st\<lparr>us_srv := drop1 (us_srv st), us_relay := r, us_w := w2\<rparr>
           | (Inr c, r, w2) \<Rightarrow>
               (case pc_WriteTo d c payload target w2 of
                  (Inl e, w3) \<Rightarrow> st\<lparr>us_srv := drop1 (us_srv st), us_relay := r, us_w := w3\<rparr>
                | (Inr n, w3) \<Rightarrow>
                    st\<lparr>us_srv := (us_srv st)\<lparr>statUDPSent := statUDPSent (us_srv st) + 1,
                         statUDPBytesUp := statUDPBytesUp (us_srv st) + word_of_nat n\<rparr>,
                       us_relay := r, us_w := w3\<rparr>)))"

text \<open>One iteration of \<open>pumpFromClient\<close>, for a datagram \<open>data\<close> read at \<open>now\<close>.\<close>

definition pumpFromClient ::
  "('w, 'p) Dialer \<Rightarrow> int \<Rightarrow> AddrPort \<Rightarrow> byte list \<Rightarrow> meanwhile \<Rightarrow> ('w, 'p) udp_st \<Rightarrow> ('w, 'p) udp_st" where
  "pumpFromClient d now from data mw st =
     (case acceptFrom from (touch now (us_relay st)) of
        (False, r) \<Rightarrow> st\<lparr>us_srv := drop1 (us_srv st), us_relay := r\<rparr>
      | (True, r) \<Rightarrow>
          (case parseUDPHeader (take udpBufferSize data) of
             Inl e \<Rightarrow> st\<lparr>us_srv := drop1 (us_srv st), us_relay := r\<rparr>
           | Inr (dst, payload) \<Rightarrow> forward d mw dst payload (st\<lparr>us_relay := r\<rparr>)))"

text \<open>One iteration of \<open>pumpFromTunnel\<close>.\<close>

definition pumpFromTunnel ::
  "os_net \<Rightarrow> int \<Rightarrow> net_Addr \<Rightarrow> byte list \<Rightarrow> ('w, 'p) udp_st \<Rightarrow> ('w, 'p) udp_st" where
  "pumpFromTunnel os now from data st =
     (let buf = take udpBufferSize data;
          st1 = st\<lparr>us_relay := touch now (us_relay st)\<rparr>;
          client = r_expect (us_relay st1)
      in case addrPortOf from of
           None \<Rightarrow> st1
         | Some src \<Rightarrow>
             if \<not> IsValid (ap_addr client) \<or> ap_port client = 0 then st1
             else
               (let srv = (us_srv st1)\<lparr>statUDPReceived := statUDPReceived (us_srv st1) + 1,
                      statUDPBytesDown := statUDPBytesDown (us_srv st1) + word_of_nat (length buf)\<rparr>;
                    out = buildUDPHeader [] src @ buf
                in if WriteToUDPAddrPort os out client
                   then st1\<lparr>us_srv := srv, us_out := us_out st1 @ [(client, out)]\<rparr>
                   else st1\<lparr>us_srv := drop1 srv\<rparr>))"

definition st_Close :: "('w, 'p) Dialer \<Rightarrow> ('w, 'p) udp_st \<Rightarrow> ('w, 'p) udp_st" where
  "st_Close d st = (case relay_Close d (us_relay st, us_w st) of (r, w) \<Rightarrow> st\<lparr>us_relay := r, us_w := w\<rparr>)"

text \<open>A tick of \<open>watchIdle\<close>.\<close>

definition watchIdle :: "('w, 'p) Dialer \<Rightarrow> int \<Rightarrow> ('w, 'p) udp_st \<Rightarrow> ('w, 'p) udp_st" where
  "watchIdle d now st =
     (if now - r_lastActive (us_relay st) > udpIdleTimeout then st_Close d st else st)"

datatype udp_event =
    FromClient int AddrPort "byte list" meanwhile
  | FromTunnel int net_Addr "byte list"
  | IdleTick int

text \<open>Closing the relay closes its sockets and cancels its context, so every pump returns.\<close>

fun udp_step :: "('w, 'p) Dialer \<Rightarrow> os_net \<Rightarrow> udp_event \<Rightarrow> ('w, 'p) udp_st \<Rightarrow> ('w, 'p) udp_st" where
  "udp_step d os (FromClient now from data mw) st =
     (if r_closed (us_relay st) then st else pumpFromClient d now from data mw st)"
| "udp_step d os (FromTunnel now from data) st =
     (if r_closed (us_relay st) then st else pumpFromTunnel os now from data st)"
| "udp_step d os (IdleTick now) st =
     (if r_closed (us_relay st) then st else watchIdle d now st)"

definition udp_run :: "('w, 'p) Dialer \<Rightarrow> os_net \<Rightarrow> udp_event list \<Rightarrow> ('w, 'p) udp_st \<Rightarrow> ('w, 'p) udp_st" where
  "udp_run d os evs st = fold (udp_step d os) evs st"

definition newUDPRelay :: "os_net \<Rightarrow> int \<Rightarrow> AddrPort \<Rightarrow> goerr + 'p relay" where
  "newUDPRelay os now declared =
     (case os_ListenUDP os of
        Inl e \<Rightarrow> Inl (Errorf_w ''could not open the UDP relay socket: '' e)
      | Inr a \<Rightarrow> Inr \<lparr>r_local = a, r_expect = declared, r_tunnel = Some Map.empty,
                      r_lastActive = now, r_closed = False\<rparr>)"

section \<open>The request handler\<close>

definition declared_expect :: "destination \<Rightarrow> AddrPort" where
  "declared_expect declared =
     (if d_host declared = [] \<and> IsValid (d_addr declared) then AddrPortFrom (Unmap (d_addr declared)) (d_port declared)
      else AddrPort0)"

definition assoc_add :: "int \<Rightarrow> Server \<Rightarrow> Server" where
  "assoc_add k s = s\<lparr>statUDPAssoc := statUDPAssoc s + k\<rparr>"

text \<open>
  \<open>evs\<close> is what happens until the client closes the control connection. The result
  is the client connection, the server, the outside world and what was written to
  the client-facing socket.
\<close>

definition handleUDPAssociate ::
  "('w, 'p) Dialer \<Rightarrow> os_net \<Rightarrow> int \<Rightarrow> meanwhile \<Rightarrow> udp_event list \<Rightarrow> conn \<Rightarrow> destination \<Rightarrow> Server \<times> 'w
     \<Rightarrow> conn \<times> (Server \<times> 'w) \<times> (AddrPort \<times> byte list) list" where
  "handleUDPAssociate d os now mw evs client declared sw =
     (case sw of (s, w) \<Rightarrow>
        if \<not> s_udpEnabled s then
          (snd (writeReply client repCommandNotSupported AddrPort0), (s, w), [])
        else (case newUDPRelay os now (declared_expect declared) of
            Inl e \<Rightarrow> (snd (writeReply client repGeneralFailure AddrPort0), (fail1 s, w), [])
          | Inr r \<Rightarrow>
              (case warmUp d mw (r, w) of
                 (Some e, r1, w1) \<Rightarrow>
                   (snd (writeReply client (replyForError (Some e) repNetworkUnreachable) AddrPort0),
                    (fail1 s, snd (relay_Close d (r1, w1))), [])
               | (None, r1, w1) \<Rightarrow>
                   (case writeReply client repSuccess (LocalAddrPort r1) of
                      (False, client1) \<Rightarrow> (client1, (assoc_add (- 1) (assoc_add 1 s), snd (relay_Close d (r1, w1))), [])
                    | (True, client1) \<Rightarrow>
                        (let st = udp_run d os evs
                               \<lparr>us_srv = assoc_add 1 s, us_relay = r1, us_w = w1, us_out = []\<rparr>;
                             st1 = st_Close d (st\<lparr>us_srv := assoc_add (- 1) (us_srv st)\<rparr>)
                         in (client1\<lparr>c_in := []\<rparr>, (us_srv st1, us_w st1), us_out st1))))))"


section \<open>Only the local client is served\<close>

lemma acceptFrom_loopback: "acceptFrom from r = (True, r') \<Longrightarrow> IsLoopback (ap_addr from) \<and> r_expect r' = from"
  by (auto simp: acceptFrom_def split: if_splits)

lemma acceptFrom_frame [frame_simps]:
  "r_tunnel (snd (acceptFrom from r)) = r_tunnel r" "r_closed (snd (acceptFrom from r)) = r_closed r"
  "r_lastActive (snd (acceptFrom from r)) = r_lastActive r" "r_local (snd (acceptFrom from r)) = r_local r"
  by (simp_all add: acceptFrom_def)

text \<open>An association is claimed once its address is a loopback one with a port.\<close>

definition claimed :: "AddrPort \<Rightarrow> 'p relay \<Rightarrow> bool" where
  "claimed a r \<longleftrightarrow> r_expect r = a \<and> IsLoopback (ap_addr a) \<and> ap_port a \<noteq> 0"

lemma acceptFrom_claims:
  "acceptFrom from r = (True, r') \<Longrightarrow> ap_port from \<noteq> 0 \<Longrightarrow> claimed from r'"
  by (auto simp: claimed_def dest: acceptFrom_loopback)

lemma acceptFrom_claimed:
  assumes "claimed a r"
  shows "acceptFrom from r = (from = a, r)"
proof -
  have "IsValid (ap_addr a)" "\<not> IsUnspecified (ap_addr a)" "IsLoopback (ap_addr a)"
    using assms by (auto simp: claimed_def IsLoopback_IsValid dest: IsLoopback_not_unspecified)
  with assms show ?thesis by (auto simp: acceptFrom_def claimed_def)
qed

text \<open>The sources a relay accepts from, one after the other.\<close>

fun accepted :: "AddrPort list \<Rightarrow> 'p relay \<Rightarrow> AddrPort list" where
  "accepted [] r = []"
| "accepted (f # fs) r =
     (case acceptFrom f r of (ok, r') \<Rightarrow> (if ok then [f] else []) @ accepted fs r')"

lemma accepted_claimed: "claimed a r \<Longrightarrow> set (accepted fs r) \<subseteq> {a}"
  by (induction fs arbitrary: r) (auto simp: acceptFrom_claimed split: if_splits)

lemma accepted_one:
  "\<forall>f\<in>set fs. ap_port f \<noteq> 0 \<Longrightarrow> \<exists>a. set (accepted fs r) \<subseteq> {a} \<and> (accepted fs r \<noteq> [] \<longrightarrow> IsLoopback (ap_addr a))"
proof (induction fs arbitrary: r)
  case (Cons f fs)
  show ?case
  proof (cases "fst (acceptFrom f r)")
    case True
    then obtain r' where r': "acceptFrom f r = (True, r')" by (cases "acceptFrom f r") auto
    have c: "claimed f r'" using acceptFrom_claims [OF r'] Cons.prems by simp
    with r' accepted_claimed [OF c, of fs] show ?thesis
      by (intro exI [of _ f]) (auto simp: claimed_def)
  next
    case False
    then obtain r' where "acceptFrom f r = (False, r')" by (cases "acceptFrom f r") auto
    with Cons.IH [of r'] Cons.prems show ?thesis by simp
  qed
qed simp

text \<open>
  C12: an association serves one local client. Whatever address the client declared
  and whatever datagrams arrive (a datagram has a source port), every datagram
  accepted comes from one and the same loopback address and port: the first one
  accepted claims the association.
\<close>

theorem one_client_per_association:
  assumes "\<forall>f\<in>set fs. ap_port f \<noteq> 0" and "a \<in> set (accepted fs r)" and "b \<in> set (accepted fs r)"
  shows "a = b \<and> IsLoopback (ap_addr a)"
proof -
  from accepted_one [OF assms(1), of r] obtain x where
    x: "set (accepted fs r) \<subseteq> {x}" "accepted fs r \<noteq> [] \<longrightarrow> IsLoopback (ap_addr x)" by blast
  from assms(2) have "accepted fs r \<noteq> []" by auto
  with x assms(2,3) show ?thesis by blast
qed

definition demo_relay :: "nat relay" where
  "demo_relay = \<lparr>r_local = \<lparr>ua_IP = [127, 0, 0, 1], ua_Port = 40000\<rparr>, r_expect = AddrPort0,
     r_tunnel = Some Map.empty, r_lastActive = 0, r_closed = False\<rparr>"

theorem one_client_per_association_witness:
  "(let lo = AddrPortFrom (Addr4 [127, 0, 0, 1]) 5000; out = AddrPortFrom (Addr4 [10, 0, 0, 9]) 5000;
        lo2 = AddrPortFrom (Addr4 [127, 0, 0, 1]) 5001
    in accepted [out, lo, lo2, lo] demo_relay = [lo, lo] \<and> IsLoopback (ap_addr lo))"
proof -
  let ?lo = "AddrPortFrom (Addr4 [127, 0, 0, 1]) 5000" and ?out = "AddrPortFrom (Addr4 [10, 0, 0, 9]) 5000"
    and ?lo2 = "AddrPortFrom (Addr4 [127, 0, 0, 1]) 5001"
  have e: "accepted [?out, ?lo, ?lo2, ?lo] demo_relay = [?lo, ?lo]"
    by (simp add: acceptFrom_def demo_relay_def AddrPort0_def v4_loopback_def
        IsUnspecified_def IPv4Unspecified_def IPv6Unspecified_def AddrPortFrom_def)
  have "IsLoopback (ap_addr ?lo)"
    using one_client_per_association [of "[?out, ?lo, ?lo2, ?lo]" ?lo demo_relay ?lo]
    by (simp add: e del: accepted.simps)
  with e show ?thesis by (simp add: Let_def)
qed


section \<open>What leaves the relay\<close>

lemma forward_out [frame_simps]: "us_out (forward d mw dst p st) = us_out st"
  by (auto simp: forward_def split: prod.splits option.splits sum.splits)

lemma pumpFromClient_out [frame_simps]: "us_out (pumpFromClient d now from data mw st) = us_out st"
  by (auto simp: pumpFromClient_def frame_simps split: prod.splits bool.splits sum.splits)

lemma st_Close_frame [frame_simps]: "us_out (st_Close d st) = us_out st" "us_srv (st_Close d st) = us_srv st"
  by (simp_all add: st_Close_def split: prod.splits)

lemma watchIdle_frame [frame_simps]: "us_out (watchIdle d now st) = us_out st" "us_srv (watchIdle d now st) = us_srv st"
  by (simp_all add: watchIdle_def frame_simps)

lemma pumpFromTunnel_out:
  "us_out (pumpFromTunnel os now from data st) = us_out st \<or>
   (\<exists>src. addrPortOf from = Some src \<and> IsLoopback (ap_addr (r_expect (us_relay st))) \<and>
      us_out (pumpFromTunnel os now from data st) =
        us_out st @ [(r_expect (us_relay st), buildUDPHeader [] src @ take udpBufferSize data)])"
  by (auto simp: pumpFromTunnel_def Let_def WriteToUDPAddrPort_def touch_def split: option.splits)

lemma pumpFromTunnel_in:
  "x \<in> set (us_out (pumpFromTunnel os now from data st)) \<Longrightarrow> x \<in> set (us_out st) \<or> IsLoopback (ap_addr (fst x))"
  using pumpFromTunnel_out [of os now "from" data st] by auto

lemma udp_step_out:
  "x \<in> set (us_out (udp_step d os ev st)) \<Longrightarrow> x \<in> set (us_out st) \<or> IsLoopback (ap_addr (fst x))"
  by (cases ev) (auto simp: frame_simps dest: pumpFromTunnel_in split: if_splits)

lemma udp_run_out:
  "x \<in> set (us_out (udp_run d os evs st)) \<Longrightarrow> x \<in> set (us_out st) \<or> IsLoopback (ap_addr (fst x))"
proof (induction evs arbitrary: st)
  case (Cons ev evs)
  then show ?case using udp_step_out [of x d os ev st] by (auto simp: udp_run_def)
qed (simp add: udp_run_def)

text \<open>
  C11: the client-facing UDP socket never sends a datagram off the machine, whatever
  address the client declared, whatever arrives from the tunnel and in whatever
  order: everything \<open>handleUDPAssociate\<close> writes to it goes to a loopback address.
\<close>

theorem udp_replies_stay_local:
  assumes "handleUDPAssociate d os now mw evs client declared (s, w) = (client', sw', out)"
    and "(dst, b) \<in> set out"
  shows "IsLoopback (ap_addr dst)"
proof -
  from assms obtain r1 w1 where
    "out = us_out (udp_run d os evs \<lparr>us_srv = assoc_add 1 s, us_relay = r1, us_w = w1, us_out = []\<rparr>)"
    by (fastforce simp: handleUDPAssociate_def Let_def frame_simps
        split: if_splits sum.splits prod.splits option.splits bool.splits)
  with assms(2) show ?thesis using udp_run_out [of "(dst, b)" d os evs] by fastforce
qed


definition demo_dialer :: "(nat, nat) Dialer" where
  "demo_dialer =
     \<lparr>DialTCP = (\<lambda>t w. (Inr (demo_conn []), w)), LookupHost = (\<lambda>h w. (Inr [Addr4 [9, 9, 9, 9]], w)),
      HasDNS = (\<lambda>w. True), ListenUDP = (\<lambda>v6 w. if v6 then (Inl (sentinel_err ErrNoRoute), w) else (Inr w, w + 1)),
      pc_WriteTo = (\<lambda>c b t w. (Inr (length b), w)), pc_Close = (\<lambda>c w. w)\<rparr>"

definition demo_os :: os_net where
  "demo_os = \<lparr>os_Listen = (\<lambda>s. Inr s), os_ListenUDP = Inr \<lparr>ua_IP = [127, 0, 0, 1], ua_Port = 40000\<rparr>,
     os_SendUDP = (\<lambda>b a. True)\<rparr>"

definition demo_evs :: "udp_event list" where
  "demo_evs = [FromClient 1 (AddrPortFrom (Addr4 [127, 0, 0, 1]) 5000) [0, 0, 0, 1, 1, 1, 1, 1, 0, 53, 7] Nothing,
     FromTunnel 2 (NetUDP \<lparr>ua_IP = [1, 1, 1, 1], ua_Port = 53\<rparr>) [8]]"

lemmas demo_defs = demo_dialer_def demo_os_def demo_evs_def demo_conn_def AddrPort0_def AddrPortFrom_def

lemmas udp_eval = handleUDPAssociate_def newUDPRelay_def warmUp_def tunnelConn_def tunnelConn_register_def
  declared_expect_def writeReply_def Write_def udp_run_def pumpFromClient_def pumpFromTunnel_def acceptFrom_def
  touch_def forward_def resolve_def st_Close_def relay_Close_def close_family_def WriteToUDPAddrPort_def
  udpBufferSize_def v4_loopback_def IsUnspecified_def IPv4Unspecified_def IPv6Unspecified_def
  AddrFromSlice_def LocalAddrPort_def be16_def put16_def buildUDPHeader_def parseUDPHeader_def udp_address_def

theorem udp_replies_stay_local_witness:
  "(let out = snd (snd (handleUDPAssociate demo_dialer demo_os 0 Nothing demo_evs (demo_conn [])
        \<lparr>d_host = [], d_addr = Addr4 [0, 0, 0, 0], d_port = 0\<rparr> (New ''127.0.0.1:1080'' 0, 0)))
    in out = [(AddrPortFrom (Addr4 [127, 0, 0, 1]) 5000, [0, 0, 0, 1, 1, 1, 1, 1, 0, 53, 8])]
       \<and> IsLoopback (ap_addr (fst (hd out))))"
proof -
  let ?h = "handleUDPAssociate demo_dialer demo_os 0 Nothing demo_evs (demo_conn [])
        \<lparr>d_host = [], d_addr = Addr4 [0, 0, 0, 0], d_port = 0\<rparr> (New ''127.0.0.1:1080'' 0, 0)"
  have e: "snd (snd ?h) = [(AddrPortFrom (Addr4 [127, 0, 0, 1]) 5000, [0, 0, 0, 1, 1, 1, 1, 1, 0, 53, 8])]"
    by (simp add: udp_eval demo_defs New_def NewWithOptions_def Let_def)
  have "?h = (fst ?h, fst (snd ?h), snd (snd ?h))" by simp
  from udp_replies_stay_local [OF this, of "AddrPortFrom (Addr4 [127, 0, 0, 1]) 5000" "[0, 0, 0, 1, 1, 1, 1, 1, 0, 53, 8]"]
  show ?thesis by (simp add: e)
qed

text \<open>
  every datagram a client sends is accounted for exactly once, as sent or as
  dropped, and it changes no other session counter and nothing of the server's
  configuration.
\<close>

theorem client_datagram_counted:
  "(let s = us_srv st; s' = us_srv (pumpFromClient d now from data mw st) in
     statUDPSent s' + statUDPDropped s' = statUDPSent s + statUDPDropped s + 1 \<and>
     same_config s s' \<and> statFailed s' = statFailed s \<and> statNoName s' = statNoName s \<and>
     statUDPReceived s' = statUDPReceived s \<and> statUDPAssoc s' = statUDPAssoc s)"
  by (simp add: pumpFromClient_def forward_def drop1_def same_config_def Let_def
      split: prod.splits bool.splits sum.splits option.splits)


section \<open>No in-tunnel socket is leaked\<close>

text \<open>The sockets a relay holds.\<close>

definition family :: "(bool \<rightharpoonup> 'p) \<Rightarrow> bool \<Rightarrow> 'p multiset" where
  "family m v6 = (case m v6 of None \<Rightarrow> {#} | Some c \<Rightarrow> {#c#})"

definition held :: "'p relay \<Rightarrow> 'p multiset" where
  "held r = (case r_tunnel r of None \<Rightarrow> {#} | Some m \<Rightarrow> family m False + family m True)"

text \<open>
  An egress whose open sockets can be counted: opening adds one, closing removes
  one, nothing else changes the count.
\<close>

locale socket_ledger =
  fixes d :: "('w, 'p) Dialer" and opened :: "'w \<Rightarrow> 'p multiset"
  assumes listen_ok: "ListenUDP d v6 w = (Inr c, w') \<Longrightarrow> opened w' = add_mset c (opened w)"
    and listen_err: "ListenUDP d v6 w = (Inl e, w') \<Longrightarrow> opened w' = opened w"
    and send: "opened (snd (pc_WriteTo d c b t w)) = opened w"
    and lookup: "opened (snd (LookupHost d h w)) = opened w"
    and closing: "c \<in># opened w \<Longrightarrow> opened (pc_Close d c w) = opened w - {#c#}"
begin

definition ledger :: "'p multiset \<Rightarrow> 'p relay \<times> 'w \<Rightarrow> bool" where
  "ledger base rw \<longleftrightarrow> opened (snd rw) = base + held (fst rw) \<and> (r_closed (fst rw) \<longrightarrow> r_tunnel (fst rw) = None)"

lemma close_family_opens:
  "opened w = base + family m v6 \<Longrightarrow> opened (close_family d m v6 w) = base"
  by (auto simp: close_family_def family_def closing split: option.splits)

lemma Close_opens:
  assumes "ledger base rw"
  shows "opened (snd (relay_Close d rw)) = base \<and> ledger base (relay_Close d rw)"
proof -
  obtain r w where rw: "rw = (r, w)" by (cases rw)
  show ?thesis
  proof (cases "r_tunnel r")
    case None
    with assms rw show ?thesis by (auto simp: ledger_def relay_Close_def held_def)
  next
    case (Some m)
    with assms rw have "\<not> r_closed r" and "opened w = (base + family m True) + family m False"
      by (auto simp: ledger_def held_def ac_simps)
    then have "opened (close_family d m True (close_family d m False w)) = base"
      by (intro close_family_opens)
    with Some rw \<open>\<not> r_closed r\<close> show ?thesis by (simp add: relay_Close_def ledger_def held_def)
  qed
qed

lemma register_opens:
  assumes "ledger base (r, w0)" and "opened w = add_mset c (opened w0)"
  shows "ledger base (snd (tunnelConn_register d v6 c (r, w)))"
  using assms
  by (auto simp: tunnelConn_register_def ledger_def held_def family_def closing split: option.splits)

lemma meanwhile_opens: "ledger base rw \<Longrightarrow> ledger base (meanwhile_run d mw v6 rw)"
proof (cases mw)
  case OtherOpens
  assume l: "ledger base rw"
  obtain r w where rw: "rw = (r, w)" by (cases rw)
  obtain x w1 where x: "ListenUDP d v6 w = (x, w1)" by (cases "ListenUDP d v6 w")
  show ?thesis
  proof (cases x)
    case (Inl e)
    with l x rw OtherOpens listen_err [of v6 w e w1] show ?thesis by (simp add: ledger_def)
  next
    case (Inr c)
    with l x rw OtherOpens listen_ok [of v6 w c w1] show ?thesis
      by (auto intro: register_opens)
  qed
qed (auto dest: Close_opens)

lemma meanwhile_shift:
  assumes "ledger (add_mset c base) rw"
  shows "ledger base (snd (tunnelConn_register d v6 c (meanwhile_run d mw v6 rw)))"
proof -
  obtain r w where rw: "meanwhile_run d mw v6 rw = (r, w)" by (cases "meanwhile_run d mw v6 rw")
  from meanwhile_opens [OF assms, of mw v6] rw
  have "opened w = add_mset c (base + held r)" "r_closed r \<longrightarrow> r_tunnel r = None" by (auto simp: ledger_def)
  then show ?thesis unfolding rw
    by (auto simp: tunnelConn_register_def ledger_def held_def family_def closing split: option.splits)
qed

lemma tunnelConn_opens:
  assumes "ledger base rw"
  shows "ledger base (snd (tunnelConn d mw v6 rw))"
proof -
  obtain r w where rw: "rw = (r, w)" by (cases rw)
  obtain x w1 where x: "ListenUDP d v6 w = (x, w1)" by (cases "ListenUDP d v6 w")
  show ?thesis
  proof (cases x)
    case (Inl e)
    then have "ledger base (r, w1)" using assms x rw listen_err [of v6 w e w1] by (simp add: ledger_def)
    with assms rw x Inl show ?thesis
      by (auto simp: tunnelConn_def intro: meanwhile_opens split: option.splits)
  next
    case (Inr c)
    then have "ledger (add_mset c base) (r, w1)"
      using assms x rw listen_ok [of v6 w c w1] by (simp add: ledger_def)
    with assms rw x Inr show ?thesis
      by (auto simp: tunnelConn_def intro: meanwhile_shift split: option.splits)
  qed
qed

lemma warmUp_loop_opens: "ledger base rw \<Longrightarrow> ledger base (snd (warmUp_loop d mw fe fs rw))"
proof (induction fs arbitrary: fe rw)
  case (Cons v6 fs)
  obtain x rw' where x: "tunnelConn d mw v6 rw = (x, rw')" by (cases "tunnelConn d mw v6 rw")
  with tunnelConn_opens [OF Cons.prems, of mw v6] have "ledger base rw'" by simp
  with Cons.IH x show ?case by (auto split: sum.splits)
qed simp

lemma resolve_opens: "opened (snd (resolve d dst w)) = opened w"
  using lookup [of "u_host dst" w]
  by (auto simp: resolve_def Let_def split: prod.splits sum.splits list.splits)

definition st_ledger :: "'p multiset \<Rightarrow> ('w, 'p) udp_st \<Rightarrow> bool" where
  "st_ledger base st \<longleftrightarrow> ledger base (us_relay st, us_w st)"

lemma forward_opens:
  assumes "st_ledger base st"
  shows "st_ledger base (forward d mw dst p st)"
proof -
  obtain t w1 where t: "resolve d dst (us_w st) = (t, w1)" by (cases "resolve d dst (us_w st)")
  have l1: "ledger base (us_relay st, w1)"
    using assms resolve_opens [of dst "us_w st"] t by (simp add: st_ledger_def ledger_def)
  show ?thesis
  proof (cases t)
    case None
    with t l1 show ?thesis by (simp add: forward_def st_ledger_def)
  next
    case (Some a)
    obtain x r w2 where x: "tunnelConn d mw (Is6 (ap_addr a)) (us_relay st, w1) = (x, r, w2)"
      using prod_cases3 by blast
    with tunnelConn_opens [OF l1, of mw "Is6 (ap_addr a)"] have l2: "ledger base (r, w2)" by simp
    have "ledger base (r, snd (pc_WriteTo d c p a w2))" for c
      using l2 send [of c p a w2] by (simp add: ledger_def)
    then have "\<And>c y w3. pc_WriteTo d c p a w2 = (y, w3) \<Longrightarrow> ledger base (r, w3)" by (metis snd_conv)
    with t Some x l2 show ?thesis
      by (auto simp: forward_def st_ledger_def split: sum.splits prod.splits)
  qed
qed

lemma ledger_relay_cong:
  "r_tunnel r' = r_tunnel r \<Longrightarrow> r_closed r' = r_closed r \<Longrightarrow> ledger base (r', w) = ledger base (r, w)"
  by (simp add: ledger_def held_def)

lemma pumpFromClient_opens:
  assumes "st_ledger base st"
  shows "st_ledger base (pumpFromClient d now from data mw st)"
proof -
  obtain ok r where a: "acceptFrom from (touch now (us_relay st)) = (ok, r)"
    by (cases "acceptFrom from (touch now (us_relay st))")
  have "r_tunnel r = r_tunnel (us_relay st)" "r_closed r = r_closed (us_relay st)"
    using acceptFrom_frame [of "from" "touch now (us_relay st)"] a by (simp_all add: touch_def)
  then have l: "ledger base (r, us_w st)" 
    using assms ledger_relay_cong [of r "us_relay st" base "us_w st"] by (simp add: st_ledger_def)
  then have "st_ledger base (st\<lparr>us_relay := r\<rparr>)" by (simp add: st_ledger_def)
  with a l show ?thesis
    by (auto simp: pumpFromClient_def st_ledger_def forward_opens [unfolded st_ledger_def]
        split: bool.splits sum.splits prod.splits)
qed

lemma pumpFromTunnel_opens:
  "st_ledger base st \<Longrightarrow> st_ledger base (pumpFromTunnel os now from data st)"
  by (auto simp: pumpFromTunnel_def Let_def st_ledger_def touch_def ledger_def held_def split: option.splits)

lemma st_Close_opens: "st_ledger base st \<Longrightarrow> st_ledger base (st_Close d st) \<and> opened (us_w (st_Close d st)) = base"
  using Close_opens [of base "(us_relay st, us_w st)"]
  by (auto simp: st_ledger_def st_Close_def split: prod.splits)

lemma udp_step_opens: "st_ledger base st \<Longrightarrow> st_ledger base (udp_step d os ev st)"
  by (cases ev) (auto simp: pumpFromClient_opens pumpFromTunnel_opens watchIdle_def st_Close_opens)

lemma udp_run_opens: "st_ledger base st \<Longrightarrow> st_ledger base (udp_run d os evs st)"
  by (induction evs arbitrary: st) (auto simp: udp_run_def udp_step_opens)

lemma associate_opens:
  "opened (snd (fst (snd (handleUDPAssociate d os now mw evs client declared (s, w))))) = opened w"
proof (cases "s_udpEnabled s")
  case True
  show ?thesis
  proof (cases "newUDPRelay os now (declared_expect declared) :: goerr + 'p relay")
    case (Inr r)
    then have l0: "ledger (opened w) (r, w)"
      by (auto simp: newUDPRelay_def ledger_def held_def family_def split: sum.splits)
    obtain x r1 w1 where x: "warmUp d mw (r, w) = (x, r1, w1)" using prod_cases3 by blast
    have l1: "ledger (opened w) (r1, w1)"
      using warmUp_loop_opens [OF l0, of mw None "[False, True]"] x by (simp add: warmUp_def)
    have l2: "st_ledger (opened w) ((udp_run d os evs st)\<lparr>us_srv := sv\<rparr>)" if "us_relay st = r1" "us_w st = w1" for st sv
      using udp_run_opens [of "opened w" st os evs] l1 that by (simp add: st_ledger_def)
    show ?thesis
    proof (cases x)
      case None
      with True Inr x Close_opens [OF l1] show ?thesis
        by (auto simp: handleUDPAssociate_def Let_def st_Close_opens l2 split: prod.splits bool.splits)
    next
      case (Some e)
      with True Inr x Close_opens [OF l1] show ?thesis
        by (auto simp: handleUDPAssociate_def)
    qed
  qed (use True in \<open>simp add: handleUDPAssociate_def\<close>)
qed (simp add: handleUDPAssociate_def)

end

text \<open>Any egress, with the sockets it has handed out and not seen closed beside it.\<close>

definition tracked :: "('w, 'p) Dialer \<Rightarrow> ('w \<times> 'p multiset, 'p) Dialer" where
  "tracked d =
     \<lparr>DialTCP = (\<lambda>t (w, k). case DialTCP d t w of (x, w') \<Rightarrow> (x, w', k)),
      LookupHost = (\<lambda>h (w, k). case LookupHost d h w of (x, w') \<Rightarrow> (x, w', k)),
      HasDNS = (\<lambda>(w, k). HasDNS d w),
      ListenUDP = (\<lambda>v6 (w, k). case ListenUDP d v6 w of
         (Inl e, w') \<Rightarrow> (Inl e, w', k) | (Inr c, w') \<Rightarrow> (Inr c, w', add_mset c k)),
      pc_WriteTo = (\<lambda>c b t (w, k). case pc_WriteTo d c b t w of (x, w') \<Rightarrow> (x, w', k)),
      pc_Close = (\<lambda>c (w, k). (pc_Close d c w, k - {#c#}))\<rparr>"

interpretation trk: socket_ledger "tracked d" snd for d :: "('w, 'p) Dialer"
  by unfold_locales (auto simp: tracked_def split: prod.splits sum.splits)

text \<open>
  C13: an association leaks no in-tunnel socket. Counting every socket the egress
  hands out and every one that is closed again, the same sockets are open after
  \<open>handleUDPAssociate\<close> as before it: on every path of the handler, for every sequence
  of datagrams and idle ticks, also when another goroutine opened the same family or
  closes the relay while a socket is being opened.
\<close>

theorem associate_leaks_no_socket:
  "snd (snd (fst (snd (handleUDPAssociate (tracked d) os now mw evs client declared (s, w, sockets))))) = sockets"
  using trk.associate_opens [of d os now mw evs client declared s "(w, sockets)"] by simp


section \<open>Where datagrams may go\<close>

lemma resolve_egress_ok:
  "resolve d dst w = (Some t, w') \<Longrightarrow> u_port dst \<noteq> 0 \<Longrightarrow> egress_ok t"
  by (auto simp: resolve_def egress_ok_def Let_def dest!: routable_Cons
      split: if_splits prod.splits sum.splits list.splits)

lemma resolve_guarded [simp]: "resolve (guarded dial send d) dst w = resolve d dst w"
  by (simp add: resolve_def cong: case_congs)

lemma relay_Close_guarded [simp]: "relay_Close (guarded dial send d) rw = relay_Close d rw"
  by (simp add: relay_Close_def close_family_def cong: case_congs)

lemma register_guarded [simp]: "tunnelConn_register (guarded dial send d) v6 c rw = tunnelConn_register d v6 c rw"
  by (simp add: tunnelConn_register_def cong: case_congs)

lemma meanwhile_guarded [simp]: "meanwhile_run (guarded dial send d) mw v6 rw = meanwhile_run d mw v6 rw"
  by (cases mw; cases rw) (simp_all cong: case_congs)

lemma tunnelConn_guarded [simp]: "tunnelConn (guarded dial send d) mw v6 rw = tunnelConn d mw v6 rw"
  by (simp add: tunnelConn_def cong: case_congs)

lemma warmUp_guarded [simp]: "warmUp (guarded dial send d) mw rw = warmUp d mw rw"
  by (simp add: warmUp_def cong: case_congs)

lemma forward_guarded: "u_port dst \<noteq> 0 \<Longrightarrow> forward (guarded dial send d) mw dst p st = forward d mw dst p st"
  by (auto simp: forward_def resolve_egress_ok split: prod.splits option.splits sum.splits)

lemma parseUDPHeader_port: "parseUDPHeader b = Inr (dst, p) \<Longrightarrow> u_port dst \<noteq> 0"
  by (auto simp: parseUDPHeader_def elim!: rbind_InrE split: list.split_asm if_split_asm)

lemma udp_step_guarded [simp]: "udp_step (guarded dial send d) os ev st = udp_step d os ev st"
  by (cases ev) (auto simp: pumpFromClient_def watchIdle_def st_Close_def forward_guarded parseUDPHeader_port
      split: prod.splits bool.splits sum.splits)

lemma udp_run_guarded [simp]: "udp_run (guarded dial send d) os evs st = udp_run d os evs st"
  by (induction evs arbitrary: st) (simp_all add: udp_run_def)

lemma st_Close_guarded [simp]: "st_Close (guarded dial send d) st = st_Close d st"
  by (simp add: st_Close_def)

lemma handleUDPAssociate_guarded [simp]:
  "handleUDPAssociate (guarded dial send d) os now mw evs client declared sw
     = handleUDPAssociate d os now mw evs client declared sw"
  by (simp add: handleUDPAssociate_def cong: case_congs)

lemma handleUDPAssociate_counts:
  assumes "handleUDPAssociate d os now mw evs client declared (s, w) = (client', (s', w'), out)"
  shows "statNoName s' = statNoName s" and "statFailed s \<le> statFailed s'" and "statUDPAssoc s' = statUDPAssoc s"
    and "same_config s s'"
proof -
  define keeps :: "Server \<Rightarrow> Server \<Rightarrow> bool" where
    "keeps a b \<longleftrightarrow> statNoName b = statNoName a \<and> statFailed b = statFailed a \<and>
       statUDPAssoc b = statUDPAssoc a \<and> same_config a b" for a b
  have step: "keeps (us_srv st) (us_srv (udp_step d os ev st))" for ev and st :: "('a, 'b) udp_st"
    by (cases ev)
      (auto simp: keeps_def frame_simps pumpFromClient_def forward_def pumpFromTunnel_def drop1_def same_config_def
        Let_def split: prod.splits bool.splits sum.splits option.splits)
  have run: "keeps (us_srv st) (us_srv (udp_run d os evs st))" for st :: "('a, 'b) udp_st"
  proof (induction evs arbitrary: st)
    case (Cons ev evs)
    from step [of st ev] Cons.IH [of "udp_step d os ev st"] show ?case
      by (auto simp: udp_run_def keeps_def same_config_def)
  qed (simp add: udp_run_def keeps_def)
  have "statNoName s' = statNoName s \<and> statFailed s \<le> statFailed s' \<and> statUDPAssoc s' = statUDPAssoc s \<and> same_config s s'"
    using assms run
    by (force simp: handleUDPAssociate_def Let_def frame_simps fail1_def assoc_add_def keeps_def same_config_def
        split: if_splits sum.splits prod.splits option.splits bool.splits)
  then show "statNoName s' = statNoName s" and "statFailed s \<le> statFailed s'" and "statUDPAssoc s' = statUDPAssoc s"
    and "same_config s s'" by auto
qed

end
