(* ===== verification/Socks5_Server.thy ===== *)
theory Socks5_Server
  imports Socks5_Udp
begin

text \<open>
  The SOCKS5 server (\<open>internal/socks5/server.go\<close>): one session from greeting to
  relay, and the life of the listener (\<open>Start\<close>, the accept loop, sessions ending,
  \<open>Stop\<close>) as a step relation.
\<close>

section \<open>Opening the tunnelled connection\<close>

fun dial_loop ::
  "('w, 'p) Dialer \<Rightarrow> u16 \<Rightarrow> Addr list \<Rightarrow> goerr option \<Rightarrow> 'w \<Rightarrow> (goerr option + conn \<times> AddrPort) \<times> 'w" where
  "dial_loop d port [] lastErr w = (Inl lastErr, w)"
| "dial_loop d port (a # as) lastErr w =
     (let target = AddrPortFrom (Unmap a) port in
      case DialTCP d target w of
        (Inr c, w1) \<Rightarrow> (Inr (c, target), w1)
      | (Inl e, w1) \<Rightarrow> dial_loop d port as (Some e) w1)"

definition dial_candidates ::
  "('w, 'p) Dialer \<Rightarrow> u16 \<Rightarrow> Addr list \<Rightarrow> 'w \<Rightarrow> (conn option \<times> AddrPort \<times> byte) \<times> 'w" where
  "dial_candidates d port cands w =
     (case dial_loop d port cands None w of
        (Inr (c, target), w1) \<Rightarrow> ((Some c, target, repSuccess), w1)
      | (Inl lastErr, w1) \<Rightarrow>
          let lastErr' = (case lastErr of None \<Rightarrow> errors_New ''no destination address'' | Some e \<Rightarrow> e)
          in ((None, AddrPort0, replyForError (Some lastErr') repHostUnreachable), w1))"

definition connect ::
  "('w, 'p) Dialer \<Rightarrow> destination \<Rightarrow> Server \<times> 'w \<Rightarrow> (conn option \<times> AddrPort \<times> byte) \<times> Server \<times> 'w" where
  "connect d dest sw =
     (case sw of (s, w) \<Rightarrow>
        if d_host dest \<noteq> [] then
          (let s1 = hostname1 s in
           if \<not> HasDNS d w then ((None, AddrPort0, repHostUnreachable), noname1 s1, w)
           else (case LookupHost d (d_host dest) w of
               (Inl e, w1) \<Rightarrow>
                 ((None, AddrPort0, replyForError (Some e) repHostUnreachable),
                  (if \<not> errors_Is e ErrTunnelDown \<and> \<not> errors_Is e ErrNotReady then noname1 s1 else s1), w1)
             | (Inr addrs, w1) \<Rightarrow>
                 if routable addrs = [] then ((None, AddrPort0, repHostUnreachable), noname1 s1, w1)
                 else (case dial_candidates d (d_port dest) (routable addrs) w1 of (r, w2) \<Rightarrow> (r, s1, w2))))
        else if IsUnspecified (Unmap (d_addr dest)) then ((None, AddrPort0, repHostUnreachable), s, w)
        else (case dial_candidates d (d_port dest) [d_addr dest] w of (r, w1) \<Rightarrow> (r, s, w1)))"

section \<open>Relaying\<close>

definition relayBufferSize :: nat where "relayBufferSize = 32768"

function copyBuffer :: "nat \<Rightarrow> conn \<Rightarrow> conn \<Rightarrow> nat \<times> conn \<times> conn" where
  "copyBuffer n dst src =
     (if c_in src = [] then (n, dst, src)
      else
        (let chunk = take relayBufferSize (c_in src);
             src' = src\<lparr>c_in := drop relayBufferSize (c_in src)\<rparr>
         in case Write chunk dst of
              (True, dst') \<Rightarrow> copyBuffer (n + length chunk) dst' src'
            | (False, dst') \<Rightarrow> (n, dst', src')))"
  by pat_completeness auto
termination
  by (relation "measure (\<lambda>(n, dst, src). length (c_in src))") (auto simp: relayBufferSize_def)

declare copyBuffer.simps [simp del]

definition closeWrite :: "conn \<Rightarrow> conn" where
  "closeWrite c = (if c_half c then CloseWrite c else CloseConn c)"

text \<open>The two directions of \<open>relay\<close>: client and remote, with the server's byte counters.\<close>

definition relay_up :: "conn \<times> conn \<times> Server \<Rightarrow> conn \<times> conn \<times> Server" where
  "relay_up x =
     (case x of (client, remote, s) \<Rightarrow>
        case copyBuffer 0 remote client of
          (n, remote', client') \<Rightarrow> (client', closeWrite remote', s\<lparr>statTx := statTx s + word_of_nat n\<rparr>))"

definition relay_down :: "conn \<times> conn \<times> Server \<Rightarrow> conn \<times> conn \<times> Server" where
  "relay_down x =
     (case x of (client, remote, s) \<Rightarrow>
        case copyBuffer 0 client remote of
          (n, client', remote') \<Rightarrow> (closeWrite client', remote', s\<lparr>statRx := statRx s + word_of_nat n\<rparr>))"

definition relay :: "conn \<times> conn \<times> Server \<Rightarrow> conn \<times> conn \<times> Server" where
  "relay x = relay_down (relay_up x)"

section \<open>A session\<close>

text \<open>
  The outcome of a session: the two connections, the server, the outside world and
  the datagrams written to a UDP relay's client-facing socket. \<open>o_panic\<close> is the use of
  a nil connection.
\<close>

record 'w session =
  o_client :: conn
  o_remote :: "conn option"
  o_srv :: Server
  o_w :: 'w
  o_udp :: "(AddrPort \<times> byte list) list"
  o_panic :: bool

definition ended :: "conn \<Rightarrow> Server \<times> 'w \<Rightarrow> 'w session" where
  "ended c sw = \<lparr>o_client = c, o_remote = None, o_srv = fst sw, o_w = snd sw, o_udp = [], o_panic = False\<rparr>"

definition handleConnect :: "('w, 'p) Dialer \<Rightarrow> destination \<Rightarrow> conn \<Rightarrow> Server \<times> 'w \<Rightarrow> 'w session" where
  "handleConnect d dest c2 sw =
     (case connect d dest sw of
        ((remote, target, rep), s1, w1) \<Rightarrow>
          if rep \<noteq> repSuccess then ended (snd (writeReply c2 rep AddrPort0)) (fail1 s1, w1)
          else (case remote of
              None \<Rightarrow> (ended c2 (s1, w1))\<lparr>o_panic := True\<rparr>
            | Some rc \<Rightarrow>
                (case writeReply c2 repSuccess target of
                   (False, c3) \<Rightarrow> (ended c3 (s1, w1))\<lparr>o_remote := Some (CloseConn rc)\<rparr>
                 | (True, c3) \<Rightarrow>
                     (case relay (c3, rc, s1) of
                        (c4, rc', s2) \<Rightarrow> (ended c4 (s2, w1))\<lparr>o_remote := Some (CloseConn rc')\<rparr>))))"

definition handle ::
  "('w, 'p) Dialer \<Rightarrow> os_net \<Rightarrow> int \<Rightarrow> meanwhile \<Rightarrow> udp_event list \<Rightarrow> conn \<Rightarrow> Server \<times> 'w \<Rightarrow> 'w session" where
  "handle d os now mw evs client sw =
     (if c_closed client then ended client sw
      else (case negotiate client of
          (Inl e, c1) \<Rightarrow> ended c1 sw
        | (Inr _, c1) \<Rightarrow>
            (case readRequest c1 of
               (Inl e, c2) \<Rightarrow> ended c2 sw
             | (Inr (cmd, dest), c2) \<Rightarrow>
                 if cmd = cmdConnect then
                   (if d_port dest = 0 then ended (snd (writeReply c2 repGeneralFailure AddrPort0)) sw
                    else handleConnect d dest c2 sw)
                 else if cmd = cmdUDPAssociate then
                   (case handleUDPAssociate d os now mw evs c2 dest sw of
                      (c3, sw', out) \<Rightarrow> (ended c3 sw')\<lparr>o_udp := out\<rparr>)
                 else ended (snd (writeReply c2 repCommandNotSupported AddrPort0)) sw)))"


section \<open>Relaying delivers every byte\<close>

lemma copyBuffer_ok:
  "c_wok dst \<Longrightarrow> copyBuffer n dst src =
     (n + length (c_in src), dst\<lparr>c_out := c_out dst @ c_in src\<rparr>, src\<lparr>c_in := []\<rparr>)"
proof (induction "length (c_in src)" arbitrary: n dst src rule: less_induct)
  case (less src n dst)
  show ?case
  proof (cases "c_in src = []")
    case False
    let ?ch = "take relayBufferSize (c_in src)"
    have "copyBuffer n dst src =
        copyBuffer (n + length ?ch) (dst\<lparr>c_out := c_out dst @ ?ch\<rparr>) (src\<lparr>c_in := drop relayBufferSize (c_in src)\<rparr>)"
      using False less.prems by (subst copyBuffer.simps) (simp add: Write_def Let_def)
    also have "\<dots> = (n + length ?ch + length (drop relayBufferSize (c_in src)),
        dst\<lparr>c_out := (c_out dst @ ?ch) @ drop relayBufferSize (c_in src)\<rparr>, src\<lparr>c_in := []\<rparr>)"
      using False less.prems by (subst less.hyps) (simp_all add: relayBufferSize_def)
    finally show ?thesis by simp
  qed (simp add: copyBuffer.simps)
qed

lemma copyBuffer_err:
  "\<not> c_wok dst \<Longrightarrow> copyBuffer n dst src = (n, dst, src\<lparr>c_in := drop relayBufferSize (c_in src)\<rparr>)"
  by (simp add: copyBuffer.simps [of n dst src] Write_def Let_def)

lemmas copyBuffer_cases = copyBuffer_ok copyBuffer_err

text \<open>
  relaying. On two healthy connections that support half-close, the remote gets
  exactly the bytes the client sent, the client exactly those the remote sent, in
  order and whatever their number; the counters grow by these numbers (at their
  64-bit width), both write sides are shut and neither connection is closed.
\<close>

theorem relay_delivers:
  assumes "c_wok client" "c_wok remote" "c_half client" "c_half remote"
  shows "relay (client, remote, s) =
    (client\<lparr>c_in := [], c_out := c_out client @ c_in remote, c_wok := False, c_wshut := True\<rparr>,
     remote\<lparr>c_in := [], c_out := c_out remote @ c_in client, c_wok := False, c_wshut := True\<rparr>,
     s\<lparr>statTx := statTx s + word_of_nat (length (c_in client)),
       statRx := statRx s + word_of_nat (length (c_in remote))\<rparr>)"
  using assms by (simp add: relay_def relay_up_def relay_down_def copyBuffer_ok closeWrite_def CloseWrite_def)

theorem relay_delivers_witness:
  "relay (demo_conn [1, 2, 3], demo_conn [4], New ''127.0.0.1:1080'' 0) =
    ((demo_conn [])\<lparr>c_out := [4], c_wok := False, c_wshut := True\<rparr>,
     (demo_conn [])\<lparr>c_out := [1, 2, 3], c_wok := False, c_wshut := True\<rparr>,
     (New ''127.0.0.1:1080'' 0)\<lparr>statTx := 3, statRx := 1\<rparr>)"
  using relay_delivers [of "demo_conn [1, 2, 3]" "demo_conn [4]" "New ''127.0.0.1:1080'' 0"]
  by (simp add: demo_conn_def New_def NewWithOptions_def)

text \<open>
  the two goroutines of \<open>relay\<close> do not interfere: with connections that support
  half-close the result is the same whichever direction runs first, also when one
  of the connections can no longer be written.
\<close>

theorem relay_order_irrelevant:
  assumes "c_half client" "c_half remote"
  shows "relay_down (relay_up (client, remote, s)) = relay_up (relay_down (client, remote, s))"
  using assms
  by (cases "c_wok client"; cases "c_wok remote")
    (simp_all add: relay_up_def relay_down_def copyBuffer_cases closeWrite_def CloseWrite_def)

theorem relay_order_irrelevant_witness:
  "relay_down (relay_up (demo_conn [1], demo_conn [2], New [] 0)) = relay_up (relay_down (demo_conn [1], demo_conn [2], New [] 0))"
  by (rule relay_order_irrelevant) (simp_all add: demo_conn_def)


section \<open>Opening connections\<close>

lemma dial_loop_ok:
  "dial_loop d port as le w = (Inr (c, t), w') \<Longrightarrow> \<exists>a\<in>set as. t = AddrPortFrom (Unmap a) port"
  by (induction as arbitrary: le w) (auto simp: Let_def split: prod.splits sum.splits)

lemma dial_candidates_rep:
  "dial_candidates d port cands w = ((co, t, rep), w') \<Longrightarrow>
     (rep = repSuccess \<longleftrightarrow> co \<noteq> None) \<and>
     (co \<noteq> None \<longrightarrow> (\<exists>a\<in>set cands. t = AddrPortFrom (Unmap a) port))"
  by (auto simp: dial_candidates_def Let_def replyForError_success_iff [of "Some _", simplified]
      dest: dial_loop_ok split: prod.splits sum.splits)

lemma replyForError_Some_not_success: "replyForError (Some e) fb \<noteq> repSuccess"
  by (simp add: replyForError_success_iff)

text \<open>
  the result of \<open>connect\<close> is consistent and never improvised. The reply code is
  success exactly when there is a connection; then the target it reports has the
  requested port and is the requested address itself or, for a name, an address the
  in-tunnel lookup returned, always in unmapped form and never unspecified.
\<close>

theorem connect_consistent:
  assumes "connect d dest (s, w) = ((co, t, rep), s', w')"
  shows "(rep = repSuccess \<longleftrightarrow> co \<noteq> None) \<and>
    (co \<noteq> None \<longrightarrow>
       ap_port t = d_port dest \<and> \<not> IsUnspecified (ap_addr t) \<and> \<not> Is4In6 (ap_addr t) \<and>
       (if d_host dest = [] then ap_addr t = Unmap (d_addr dest)
        else HasDNS d w \<and> (\<exists>addrs. fst (LookupHost d (d_host dest) w) = Inr addrs \<and> ap_addr t \<in> Unmap ` set addrs)))"
proof (cases "d_host dest = []")
  case True
  show ?thesis
  proof (cases "IsUnspecified (Unmap (d_addr dest))")
    case False
    with assms True have "dial_candidates d (d_port dest) [d_addr dest] w = ((co, t, rep), w')"
      by (auto simp: connect_def split: prod.splits)
    from dial_candidates_rep [OF this] show ?thesis using True False by auto
  qed (use assms True in \<open>auto simp: connect_def\<close>)
next
  case False
  show ?thesis
  proof (cases "\<exists>addrs w1. HasDNS d w \<and> LookupHost d (d_host dest) w = (Inr addrs, w1) \<and> routable addrs \<noteq> []")
    case True
    then obtain addrs w1 where l: "HasDNS d w" "LookupHost d (d_host dest) w = (Inr addrs, w1)" "routable addrs \<noteq> []"
      by blast
    with assms False have "dial_candidates d (d_port dest) (routable addrs) w1 = ((co, t, rep), w')"
      by (auto simp: connect_def Let_def split: prod.splits)
    from dial_candidates_rep [OF this] have r: "rep = repSuccess \<longleftrightarrow> co \<noteq> None"
      and "co \<noteq> None \<Longrightarrow> \<exists>a\<in>set (routable addrs). t = AddrPortFrom (Unmap a) (d_port dest)" by auto
    then have "co \<noteq> None \<Longrightarrow> \<exists>a. a \<in> set (routable addrs) \<and> t = AddrPortFrom a (d_port dest)"
      using routable_in by fastforce
    moreover have "set (routable addrs) \<subseteq> Unmap ` set addrs" by (auto simp: routable_eq)
    ultimately show ?thesis using r l False routable_in by fastforce
  next
    case none: False
    with False assms show ?thesis
      by (auto simp: connect_def Let_def replyForError_Some_not_success split: if_splits prod.splits sum.splits)
  qed
qed

theorem connect_consistent_witness:
  "fst (connect demo_dialer \<lparr>d_host = ''a.example'', d_addr = Addr0, d_port = 80\<rparr> (New [] 0, 0))
     = (Some (demo_conn []), AddrPortFrom (Addr4 [9, 9, 9, 9]) 80, repSuccess)
   \<and> \<not> IsUnspecified (Addr4 [9, 9, 9, 9])"
proof -
  let ?d = "\<lparr>d_host = ''a.example'', d_addr = Addr0, d_port = 80\<rparr>"
  have e: "connect demo_dialer ?d (New [] 0, 0) =
      ((Some (demo_conn []), AddrPortFrom (Addr4 [9, 9, 9, 9]) 80, repSuccess), hostname1 (New [] 0), 0)"
    by (simp add: connect_def demo_dialer_def Let_def dial_candidates_def IsUnspecified_def
        IPv4Unspecified_def IPv6Unspecified_def)
  from connect_consistent [OF e] show ?thesis by (simp add: e)
qed

section \<open>Where a session may connect to\<close>

lemma dial_loop_guarded:
  assumes "\<forall>a\<in>set as. \<not> IsUnspecified (Unmap a)" and "port \<noteq> 0"
  shows "dial_loop (guarded dial send d) port as le w = dial_loop d port as le w"
  using assms by (induction as arbitrary: le w) (simp_all add: egress_ok_def Let_def cong: case_congs)

lemma dial_candidates_guarded:
  "\<forall>a\<in>set as. \<not> IsUnspecified (Unmap a) \<Longrightarrow> port \<noteq> 0 \<Longrightarrow>
     dial_candidates (guarded dial send d) port as w = dial_candidates d port as w"
  by (simp add: dial_candidates_def dial_loop_guarded)

lemma connect_guarded:
  assumes "d_port dest \<noteq> 0"
  shows "connect (guarded dial send d) dest sw = connect d dest sw"
proof -
  have "\<forall>a\<in>set (routable as). \<not> IsUnspecified (Unmap a)" for as
    using routable_in by fastforce
  with assms show ?thesis
    by (simp add: connect_def dial_candidates_guarded Let_def cong: case_congs)
qed

lemma handleConnect_guarded:
  "d_port dest \<noteq> 0 \<Longrightarrow> handleConnect (guarded dial send d) dest c sw = handleConnect d dest c sw"
  by (simp add: handleConnect_def connect_guarded)


section \<open>Counters of a session\<close>

lemma connect_counts:
  assumes "connect d dest (s, w) = ((co, t, rep), s', w')"
  shows "statFailed s' = statFailed s" and "same_config s s'" and "statNoName s \<le> statNoName s'"
    and "statNoName s' \<le> statNoName s + (if rep = repSuccess then 0 else 1)"
    and "statUDPAssoc s' = statUDPAssoc s"
proof -
  show "statFailed s' = statFailed s" "same_config s s'" "statNoName s \<le> statNoName s'"
    "statNoName s' \<le> statNoName s + (if rep = repSuccess then 0 else 1)" "statUDPAssoc s' = statUDPAssoc s"
    using assms
    by (auto simp: connect_def noname1_def hostname1_def same_config_def Let_def replyForError_Some_not_success
        split: if_splits prod.splits sum.splits)
qed

lemma relay_frame [frame_simps]:
  "statFailed (snd (snd (relay x))) = statFailed (snd (snd x))"
  "statNoName (snd (snd (relay x))) = statNoName (snd (snd x))"
  "statUDPAssoc (snd (snd (relay x))) = statUDPAssoc (snd (snd x))"
  "same_config (snd (snd x)) (snd (snd (relay x)))"
  by (cases x; simp add: relay_def relay_up_def relay_down_def same_config_def split: prod.splits)+

lemma connect_rep:
  assumes "connect d dest (s, w) = ((co, t, rep), s', w')"
  shows "rep = repSuccess \<longleftrightarrow> co \<noteq> None"
  using assms dial_candidates_rep
  by (fastforce simp: connect_def Let_def replyForError_Some_not_success split: if_splits prod.splits sum.splits)

text \<open>The server after a CONNECT: one more failure, unchanged, or as \<open>relay\<close> leaves it.\<close>

lemma handleConnect_srv:
  assumes "connect d dest (s, w) = ((co, t, rep), s1, w1)"
  shows "rep \<noteq> repSuccess \<Longrightarrow> o_srv (handleConnect d dest c (s, w)) = fail1 s1"
    and "rep = repSuccess \<Longrightarrow> o_srv (handleConnect d dest c (s, w)) = s1 \<or>
      (\<exists>c3 rc. o_srv (handleConnect d dest c (s, w)) = snd (snd (relay (c3, rc, s1))))"
proof -
  show "o_srv (handleConnect d dest c (s, w)) = fail1 s1" if "rep \<noteq> repSuccess"
    using that by (simp add: handleConnect_def assms ended_def)
  assume "rep = repSuccess"
  with connect_rep [OF assms] obtain rc where co: "co = Some rc" by auto
  obtain ok c3 where w: "writeReply c repSuccess t = (ok, c3)" by (cases "writeReply c repSuccess t")
  show "o_srv (handleConnect d dest c (s, w)) = s1 \<or>
      (\<exists>c3 rc. o_srv (handleConnect d dest c (s, w)) = snd (snd (relay (c3, rc, s1))))"
  proof (cases ok)
    case True
    have "o_srv (handleConnect d dest c (s, w)) = snd (snd (relay (c3, rc, s1)))"
      using True w co \<open>rep = repSuccess\<close> by (simp add: handleConnect_def assms ended_def split: prod.splits)
    then show ?thesis by blast
  next
    case False
    then show ?thesis using w co \<open>rep = repSuccess\<close> by (simp add: handleConnect_def assms ended_def)
  qed
qed

lemma handleConnect_no_panic: "\<not> o_panic (handleConnect d dest c (s, w))"
proof -
  obtain co t rep s1 w1 where e: "connect d dest (s, w) = ((co, t, rep), s1, w1)" by (metis prod_cases3 surj_pair)
  from connect_rep [OF e] show ?thesis
    by (auto simp: handleConnect_def e ended_def split: option.split prod.split bool.split)
qed

lemma handleConnect_counts:
  "statNoName (o_srv (handleConnect d dest c (s, w))) - statNoName s
     \<le> statFailed (o_srv (handleConnect d dest c (s, w))) - statFailed s"
  "same_config s (o_srv (handleConnect d dest c (s, w)))"
  "statUDPAssoc (o_srv (handleConnect d dest c (s, w))) = statUDPAssoc s"
proof -
  obtain co t rep s1 w1 where e: "connect d dest (s, w) = ((co, t, rep), s1, w1)" by (metis prod_cases3 surj_pair)
  note k = connect_counts [OF e] and srv = handleConnect_srv [OF e, of c]
  have f: "statFailed (snd (snd (relay (c3, rc, s1)))) = statFailed s1"
    "statNoName (snd (snd (relay (c3, rc, s1)))) = statNoName s1"
    "same_config s1 (snd (snd (relay (c3, rc, s1))))"
    "statUDPAssoc (snd (snd (relay (c3, rc, s1)))) = statUDPAssoc s1" for c3 rc
    using relay_frame [of "(c3, rc, s1)"] by simp_all
  let ?s = "o_srv (handleConnect d dest c (s, w))"
  have "statNoName ?s - statNoName s \<le> statFailed ?s - statFailed s \<and> same_config s ?s \<and>
    statUDPAssoc ?s = statUDPAssoc s"
  proof (cases "rep = repSuccess")
    case True
    with srv(2) have "?s = s1 \<or> (\<exists>c3 rc. ?s = snd (snd (relay (c3, rc, s1))))" by blast
    then have "statNoName ?s = statNoName s1" "statFailed ?s = statFailed s1" "same_config s1 ?s"
      "statUDPAssoc ?s = statUDPAssoc s1"
      using f by auto
    with k True show ?thesis using same_config_trans by auto
  next
    case False
    with srv(1) k show ?thesis by (simp add: fail1_def same_config_def)
  qed
  then show "statNoName ?s - statNoName s \<le> statFailed ?s - statFailed s" "same_config s ?s"
    "statUDPAssoc ?s = statUDPAssoc s" by auto
qed

lemma handle_accounts:
  "(let r = handle d os now mw evs client (s, w); s' = o_srv r in
     \<not> o_panic r \<and> same_config s s' \<and> statUDPAssoc s' = statUDPAssoc s \<and>
     statNoName s' - statNoName s \<le> statFailed s' - statFailed s)"
proof -
  let ?P = "\<lambda>r. \<not> o_panic r \<and> same_config s (o_srv r) \<and> statUDPAssoc (o_srv r) = statUDPAssoc s \<and>
     statNoName (o_srv r) - statNoName s \<le> statFailed (o_srv r) - statFailed s"
  have e: "?P (ended c (s, w))" for c by (simp add: ended_def)
  have c: "?P (handleConnect d dest c (s, w))" for dest c
    by (intro conjI handleConnect_no_panic handleConnect_counts)
  have u: "?P (case handleUDPAssociate d os now mw evs c dest (s, w) of
      (c3, sw', out) \<Rightarrow> (ended c3 sw')\<lparr>o_udp := out\<rparr>)" for dest c
  proof -
    obtain c3 s' w' out where h: "handleUDPAssociate d os now mw evs c dest (s, w) = (c3, (s', w'), out)"
      by (metis prod_cases3 surj_pair)
    from handleUDPAssociate_counts [OF h] show ?thesis by (simp add: h ended_def)
  qed
  show ?thesis unfolding Let_def handle_def
    using e c u by (simp split: prod.split sum.split)
qed


lemma handle_same_config: "same_config s (o_srv (handle d os now mw evs client (s, w)))"
  using handle_accounts [of d os now mw evs client s w] by (simp add: Let_def)

text \<open>
  a session keeps the server's accounts. It never uses a nil connection, leaves
  the listener's state alone, balances the association counter, and every request
  it counts as unresolved it also counts as failed, so that "unresolved" stays a
  part of "failed".
\<close>

theorem session_accounts:
  "(let r = handle d os now mw evs client (s, w); s' = o_srv r in
     \<not> o_panic r \<and> same_config s s' \<and> statUDPAssoc s' = statUDPAssoc s \<and>
     statNoName s' - statNoName s \<le> statFailed s' - statFailed s)"
  by (rule handle_accounts)

section \<open>A tunnel that is down\<close>

text \<open>
  What the server relies on when the tunnel is down: every operation of the egress
  fails with one of the two sentinels and leaves the tunnel down.
\<close>

definition down_err :: "goerr \<Rightarrow> bool" where
  "down_err e \<longleftrightarrow> errors_Is e ErrTunnelDown \<or> errors_Is e ErrNotReady"

lemma reply_down: "down_err e \<Longrightarrow> replyForError (Some e) fb = repNetworkUnreachable"
  by (simp add: down_err_def replyForError_down)

locale fail_closed =
  fixes d :: "('w, 'p) Dialer" and down :: "'w \<Rightarrow> bool"
  assumes dial_down: "down w \<Longrightarrow> \<exists>e w'. DialTCP d t w = (Inl e, w') \<and> down_err e \<and> down w'"
    and lookup_down: "down w \<Longrightarrow> \<exists>e w'. LookupHost d h w = (Inl e, w') \<and> down_err e \<and> down w'"
    and listen_down: "down w \<Longrightarrow> \<exists>e w'. ListenUDP d v6 w = (Inl e, w') \<and> down_err e \<and> down w'"
begin

lemma dial_loop_down:
  "down w \<Longrightarrow> as \<noteq> [] \<Longrightarrow> \<exists>e w'. dial_loop d port as le w = (Inl (Some e), w') \<and> down_err e \<and> down w'"
proof (induction as arbitrary: le w)
  case (Cons a as)
  from dial_down [OF Cons.prems(1)] obtain e w1 where
    e: "DialTCP d (AddrPortFrom (Unmap a) port) w = (Inl e, w1)" "down_err e" "down w1" by blast
  then show ?case using Cons.IH [of w1 "Some e"] by (cases as) (auto simp: Let_def)
qed simp

lemma connect_down:
  assumes "down w" and "if d_host dest = [] then \<not> IsUnspecified (Unmap (d_addr dest)) else HasDNS d w"
  shows "\<exists>s' w'. connect d dest (s, w) = ((None, AddrPort0, repNetworkUnreachable), s', w') \<and> down w' \<and>
    statNoName s' = statNoName s \<and> statFailed s' = statFailed s"
proof (cases "d_host dest = []")
  case True
  from dial_loop_down [OF assms(1), of "[d_addr dest]"] obtain e w' where
    "dial_loop d (d_port dest) [d_addr dest] None w = (Inl (Some e), w')" "down_err e" "down w'" by blast
  then show ?thesis using True assms(2) by (auto simp: connect_def dial_candidates_def reply_down)
next
  case False
  from lookup_down [OF assms(1)] obtain e w' where
    "LookupHost d (d_host dest) w = (Inl e, w')" "down_err e" "down w'" by blast
  then show ?thesis using False assms(2)
    by (auto simp: connect_def Let_def reply_down hostname1_def down_err_def)
qed

lemma tunnelConn_down:
  assumes "down w" and "r_tunnel r = Some Map.empty"
  shows "\<exists>e w'. tunnelConn d Nothing v6 (r, w) = (Inl e, r, w') \<and> down_err e \<and> down w'"
  using listen_down [OF assms(1), of v6] assms(2) by (auto simp: tunnelConn_def)

lemma warmUp_down:
  assumes "down w" and "r_tunnel r = Some Map.empty"
  shows "\<exists>e w'. warmUp d Nothing (r, w) = (Some e, r, w') \<and> down_err e \<and> down w'"
proof -
  obtain e w1 where 1: "tunnelConn d Nothing False (r, w) = (Inl e, r, w1)" "down_err e" "down w1"
    using tunnelConn_down [OF assms] by blast
  obtain e2 w2 where 2: "tunnelConn d Nothing True (r, w1) = (Inl e2, r, w2)" "down w2"
    using tunnelConn_down [OF 1(3) assms(2)] by blast
  show ?thesis using 1 2 by (simp add: warmUp_def)
qed

text \<open>What a client is told while the tunnel is down, and that nothing is opened for it.\<close>

lemma session_down:
  assumes "down w" and "\<not> c_closed client" and "negotiate client = (Inr (), c1)"
    and "readRequest c1 = (Inr (cmd, dest), c2)"
    and "cmd = cmdConnect \<and> d_port dest \<noteq> 0 \<and>
           (if d_host dest = [] then \<not> IsUnspecified (Unmap (d_addr dest)) else HasDNS d w)
         \<or> cmd = cmdUDPAssociate \<and> s_udpEnabled s \<and> (\<exists>a. os_ListenUDP os = Inr a)"
  shows "\<exists>r. handle d os now Nothing evs client (s, w) = r \<and> down (o_w r) \<and> o_remote r = None \<and> o_udp r = [] \<and>
    o_client r = snd (writeReply c2 repNetworkUnreachable AddrPort0) \<and> statFailed (o_srv r) = statFailed s + 1"
proof (cases "cmd = cmdConnect")
  case True
  with assms(5) have "d_port dest \<noteq> 0" and
    "if d_host dest = [] then \<not> IsUnspecified (Unmap (d_addr dest)) else HasDNS d w" by auto
  with connect_down [OF assms(1) this(2), of s] True assms(2-4) show ?thesis
    by (auto simp: handle_def handleConnect_def ended_def fail1_def)
next
  case False
  with assms(5) obtain a where u: "cmd = cmdUDPAssociate" "s_udpEnabled s" "os_ListenUDP os = Inr a" by auto
  then obtain r :: "'p relay" where r: "newUDPRelay os now (declared_expect dest) = Inr r"
    and t: "r_tunnel r = Some Map.empty" "r_closed r = False" by (auto simp: newUDPRelay_def)
  from warmUp_down [OF assms(1) t(1)] obtain e w' where
    "warmUp d Nothing (r, w) = (Some e, r, w')" "down_err e" "down w'" by blast
  with u r t assms(2-4) show ?thesis
    by (auto simp: handle_def handleUDPAssociate_def reply_down ended_def fail1_def relay_Close_def close_family_def)
qed

end

end
