(* ===== verification/Socks5_Listener.thy ===== *)
theory Socks5_Listener
  imports Socks5_Server
begin

text \<open>
  The life of the SOCKS5 listener (\<open>Start\<close>, \<open>acceptLoop\<close>, the end of a session and
  \<open>Stop\<close> of \<open>internal/socks5/server.go\<close>) as a step relation. A step is a stretch of
  one goroutine between two points where another may run: \<open>Accept\<close> returning is one
  step and what the loop does with the connection another, and \<open>Stop\<close> is its three
  stages (the snapshot under the lock, the closing, the end of the wait).
\<close>

section \<open>Starting\<close>

datatype start_err = StartParse | StartNotLoopback | StartListen goerr

definition Start :: "os_net \<Rightarrow> Server \<Rightarrow> (start_err + unit) \<times> Server" where
  "Start os s =
     (case ParseAddrPort (s_listen s) of
        None \<Rightarrow> (Inl StartParse, s)
      | Some ap \<Rightarrow>
          if \<not> IsLoopback (ap_addr ap) then (Inl StartNotLoopback, s)
          else (case os_Listen os (s_listen s) of
              Inl e \<Rightarrow> (Inl (StartListen e), s)
            | Inr a \<Rightarrow> (Inr (), s\<lparr>s_ln := Some a, s_started := True\<rparr>)))"

definition isLoopbackConn :: "string \<Rightarrow> bool" where
  "isLoopbackConn remote =
     (case SplitHostPort remote of
        None \<Rightarrow> False
      | Some (host, _) \<Rightarrow>
          (case ParseAddr host of
             None \<Rightarrow> False
           | Some addr \<Rightarrow> IsLoopback (Unmap addr)))"

section \<open>The state of the listener\<close>

text \<open>
  Where the accept loop is: not started, in \<open>Accept\<close> after so many consecutive
  errors, with a connection in hand, or returned.
\<close>

datatype loop = NotRunning | Accepting nat | Got nat string | Exited

datatype stopping = NoStop | Snapshot "nat set" | Draining | Stopped

text \<open>
  \<open>y_running\<close> are the session goroutines with the remote address of their connection,
  \<open>y_sem\<close> the tokens in the semaphore, \<open>y_closed\<close> the connections that were closed.
\<close>

record sys =
  y_srv :: Server
  y_loop :: loop
  y_sem :: nat
  y_running :: "nat \<rightharpoonup> string"
  y_closed :: "nat set"
  y_stop :: stopping

definition maxConsecutiveErrors :: nat where "maxConsecutiveErrors = 10"

definition trackConn :: "nat \<Rightarrow> Server \<Rightarrow> Server" where
  "trackConn c s = s\<lparr>s_active := insert c (s_active s)\<rparr>"

definition untrackConn :: "nat \<Rightarrow> Server \<Rightarrow> Server" where
  "untrackConn c s = s\<lparr>s_active := s_active s - {c}\<rparr>"

definition reject1 :: "Server \<Rightarrow> Server" where
  "reject1 s = s\<lparr>statRejected := statRejected s + 1\<rparr>"

text \<open>\<open>Accept\<close> returned an error after \<open>n\<close> consecutive ones.\<close>

definition acceptError :: "nat \<Rightarrow> sys \<Rightarrow> sys" where
  "acceptError n y =
     (if s_closing (y_srv y) then y\<lparr>y_loop := Exited\<rparr>
      else if n + 1 \<ge> maxConsecutiveErrors then y\<lparr>y_loop := Exited\<rparr>
      else y\<lparr>y_loop := Accepting (n + 1)\<rparr>)"

text \<open>What the loop does with an accepted connection.\<close>

definition acceptConn :: "nat \<Rightarrow> string \<Rightarrow> sys \<Rightarrow> sys" where
  "acceptConn c remote y =
     (let y1 = y\<lparr>y_loop := Accepting 0\<rparr>; s = y_srv y in
      if \<not> isLoopbackConn remote then y1\<lparr>y_srv := reject1 s, y_closed := insert c (y_closed y)\<rparr>
      else if int (y_sem y) \<ge> s_maxConns s then y1\<lparr>y_srv := reject1 s, y_closed := insert c (y_closed y)\<rparr>
      else
        (let s1 = trackConn c s in
         y1\<lparr>y_sem := y_sem y + 1,
            y_srv := s1\<lparr>statTotal := statTotal s1 + 1, statActive := statActive s1 + 1\<rparr>,
            y_running := (y_running y)(c \<mapsto> remote)\<rparr>))"

text \<open>The deferred function of a session goroutine.\<close>

definition sessionEnd :: "nat \<Rightarrow> sys \<Rightarrow> sys" where
  "sessionEnd c y =
     y\<lparr>y_sem := y_sem y - 1,
       y_srv := untrackConn c ((y_srv y)\<lparr>statActive := statActive (y_srv y) - 1\<rparr>),
       y_closed := insert c (y_closed y),
       y_running := (y_running y)(c := None)\<rparr>"

text \<open>The stages of \<open>Stop\<close>. A second call returns at once.\<close>

definition Stop_begin :: "sys \<Rightarrow> sys" where
  "Stop_begin y =
     (if s_closing (y_srv y) then y
      else y\<lparr>y_srv := (y_srv y)\<lparr>s_closing := True, s_ln := None\<rparr>, y_stop := Snapshot (s_active (y_srv y))\<rparr>)"

definition Stop_close :: "nat set \<Rightarrow> sys \<Rightarrow> sys" where
  "Stop_close conns y = y\<lparr>y_closed := y_closed y \<union> conns, y_stop := Draining\<rparr>"

definition Stop_end :: "sys \<Rightarrow> sys" where
  "Stop_end y = y\<lparr>y_srv := (y_srv y)\<lparr>s_started := False\<rparr>, y_stop := Stopped\<rparr>"

definition sys_init :: "Server \<Rightarrow> sys" where
  "sys_init s = \<lparr>y_srv = s, y_loop = NotRunning, y_sem = 0, y_running = Map.empty, y_closed = {}, y_stop = NoStop\<rparr>"

text \<open>
  Once \<open>Stop\<close> has closed the listener, \<open>Accept\<close> only returns errors. \<open>work\<close> is a
  session running \<open>handle\<close>; \<open>fin\<close> is its return, which nothing forces to happen.
\<close>

inductive step :: "('w, 'p) Dialer \<Rightarrow> os_net \<Rightarrow> sys \<Rightarrow> sys \<Rightarrow> bool"
  for d :: "('w, 'p) Dialer" and os :: os_net where
  start: "y_loop y = NotRunning \<Longrightarrow> y_stop y = NoStop \<Longrightarrow> Start os (y_srv y) = (Inr (), s') \<Longrightarrow>
     step d os y (y\<lparr>y_srv := s', y_loop := Accepting 0\<rparr>)"
| accept_err: "y_loop y = Accepting n \<Longrightarrow> step d os y (acceptError n y)"
| accept_ok: "y_loop y = Accepting n \<Longrightarrow> y_stop y \<noteq> Draining \<Longrightarrow> y_stop y \<noteq> Stopped \<Longrightarrow>
     y_running y c = None \<Longrightarrow> c \<notin> y_closed y \<Longrightarrow> step d os y (y\<lparr>y_loop := Got c remote\<rparr>)"
| dispatch: "y_loop y = Got c remote \<Longrightarrow> step d os y (acceptConn c remote y)"
| work: "y_running y c = Some remote \<Longrightarrow>
     step d os y (y\<lparr>y_srv := o_srv (handle d os now mw evs client (y_srv y, w))\<rparr>)"
| fin: "y_running y c = Some remote \<Longrightarrow> step d os y (sessionEnd c y)"
| stop_begin: "step d os y (Stop_begin y)"
| stop_close: "y_stop y = Snapshot conns \<Longrightarrow> step d os y (Stop_close conns y)"
| stop_end: "y_stop y = Draining \<Longrightarrow> y_running y = Map.empty \<Longrightarrow> y_loop y = Exited \<or> y_loop y = NotRunning \<Longrightarrow>
     step d os y (Stop_end y)"

inductive reach :: "('w, 'p) Dialer \<Rightarrow> os_net \<Rightarrow> Server \<Rightarrow> sys \<Rightarrow> bool"
  for d :: "('w, 'p) Dialer" and os :: os_net and s0 :: Server where
  init: "reach d os s0 (sys_init s0)"
| more: "reach d os s0 y \<Longrightarrow> step d os y y' \<Longrightarrow> reach d os s0 y'"

inductive_cases stepE: "step d os y y'"

section \<open>The invariant of the listener\<close>

definition sys_inv :: "sys \<Rightarrow> bool" where
  "sys_inv y \<longleftrightarrow>
     finite (dom (y_running y)) \<and> dom (y_running y) = s_active (y_srv y) \<and>
     y_sem y = card (dom (y_running y)) \<and> statActive (y_srv y) = int (y_sem y) \<and>
     int (y_sem y) \<le> s_maxConns (y_srv y) \<and> statActive (y_srv y) \<le> statTotal (y_srv y) \<and>
     0 \<le> statRejected (y_srv y) \<and>
     (\<forall>r\<in>ran (y_running y). isLoopbackConn r) \<and>
     (case y_loop y of Got c _ \<Rightarrow> y_running y c = None | NotRunning \<Rightarrow> y_running y = Map.empty | _ \<Rightarrow> True) \<and>
     (s_closing (y_srv y) \<longleftrightarrow> y_stop y \<noteq> NoStop) \<and>
     (y_stop y = Stopped \<longrightarrow> y_running y = Map.empty \<and> (y_loop y = Exited \<or> y_loop y = NotRunning))"


lemma Start_ok: "Start os s = (Inr (), s') \<Longrightarrow>
    \<exists>ap a. ParseAddrPort (s_listen s) = Some ap \<and> IsLoopback (ap_addr ap) \<and> os_Listen os (s_listen s) = Inr a \<and>
      s' = s\<lparr>s_ln := Some a, s_started := True\<rparr>"
  by (auto simp: Start_def split: option.splits if_splits sum.splits)

lemma sys_inv_accept:
  assumes "sys_inv y" and "y_loop y = Got c remote"
  shows "sys_inv (acceptConn c remote y)"
proof -
  have c: "y_running y c = None" and fin: "finite (dom (y_running y))" using assms by (auto simp: sys_inv_def)
  then have card: "card (insert c (dom (y_running y))) = Suc (card (dom (y_running y)))"
    by (simp add: domIff)
  have ran: "ran ((y_running y)(c \<mapsto> remote)) = insert remote (ran (y_running y))"
    using c by (simp add: ran_map_upd)
  from assms show ?thesis using c fin card ran
    by (auto simp: sys_inv_def acceptConn_def Let_def trackConn_def reject1_def)
qed

lemma sys_inv_end:
  assumes "sys_inv y" and "y_running y c = Some remote"
  shows "sys_inv (sessionEnd c y)"
proof -
  have c: "c \<in> dom (y_running y)" and fin: "finite (dom (y_running y))" using assms by (auto simp: sys_inv_def)
  then have card: "card (dom (y_running y) - {c}) = card (dom (y_running y)) - 1" "0 < card (dom (y_running y))"
    by (auto simp: card_gt_0_iff)
  have ran: "ran ((y_running y)(c := None)) \<subseteq> ran (y_running y)"
    by (auto simp: ran_def)
  have eqs: "y_sem y = card (dom (y_running y))" "statActive (y_srv y) = int (y_sem y)"
    "int (y_sem y) \<le> s_maxConns (y_srv y)" "statActive (y_srv y) \<le> statTotal (y_srv y)"
    using assms(1) by (auto simp: sys_inv_def)
  show ?thesis unfolding sys_inv_def
  proof (intro conjI)
    show "case y_loop (sessionEnd c y) of Got c' _ \<Rightarrow> y_running (sessionEnd c y) c' = None
        | NotRunning \<Rightarrow> y_running (sessionEnd c y) = Map.empty | _ \<Rightarrow> True"
      using assms by (auto simp: sys_inv_def sessionEnd_def split: loop.splits)
    show "y_stop (sessionEnd c y) = Stopped \<longrightarrow> y_running (sessionEnd c y) = Map.empty \<and>
        (y_loop (sessionEnd c y) = Exited \<or> y_loop (sessionEnd c y) = NotRunning)"
      using assms by (auto simp: sys_inv_def sessionEnd_def)
  qed (use assms(1) card ran eqs in \<open>auto simp: sys_inv_def sessionEnd_def untrackConn_def\<close>)
qed

lemma sys_inv_work:
  assumes "sys_inv y" and "same_config (y_srv y) s'"
  shows "sys_inv (y\<lparr>y_srv := s'\<rparr>)"
  using assms by (auto simp: sys_inv_def same_config_def split: loop.splits)

lemma sys_inv_step:
  assumes "step d os y y'" and "sys_inv y"
  shows "sys_inv y'"
  using assms
proof cases
  case (dispatch c remote)
  then show ?thesis using assms(2) by (simp add: sys_inv_accept)
next
  case (work c remote now mw evs client w)
  then show ?thesis using assms(2) by (simp add: sys_inv_work handle_same_config)
next
  case (fin c remote)
  then show ?thesis using assms(2) by (simp add: sys_inv_end)
next
  case (start s')
  then show ?thesis using assms(2) by (auto simp: sys_inv_def dest!: Start_ok)
qed (use assms(2) in \<open>auto simp: sys_inv_def acceptError_def Stop_begin_def Stop_close_def Stop_end_def split: loop.splits\<close>)

lemma sys_inv_init: "sys_inv (sys_init (NewWithOptions listen n udp))"
  by (simp add: sys_inv_def sys_init_def NewWithOptions_def less_imp_le)

lemma sys_inv_reach: "reach d os (NewWithOptions listen n udp) y \<Longrightarrow> sys_inv y"
  by (induction rule: reach.induct) (auto intro: sys_inv_init sys_inv_step)

section \<open>A concrete run\<close>

definition demo_server :: Server where
  "demo_server = NewWithOptions ''127.0.0.1:1080'' 0 True"

lemma demo_loopback: "isLoopbackConn ''127.0.0.1:5000''"
  by (simp add: isLoopbackConn_def SplitHostPort_def netip_eval)

lemma demo_listen: "ParseAddrPort ''127.0.0.1:1080'' = Some (AddrPortFrom (Addr4 [127, 0, 0, 1]) 1080)"
  by (simp add: ParseAddrPort_def splitAddrPort_def netip_eval)

lemma demo_started:
  "reach demo_dialer demo_os demo_server
     ((sys_init demo_server)\<lparr>y_srv := demo_server\<lparr>s_ln := Some ''127.0.0.1:1080'', s_started := True\<rparr>, y_loop := Accepting 0\<rparr>)"
proof -
  have "Start demo_os demo_server = (Inr (), demo_server\<lparr>s_ln := Some ''127.0.0.1:1080'', s_started := True\<rparr>)"
    by (simp add: Start_def demo_server_def NewWithOptions_def demo_listen v4_loopback_def demo_os_def)
  then show ?thesis by (intro reach.more [OF reach.init step.start]) (simp_all add: sys_init_def)
qed

lemma demo_got:
  "reach demo_dialer demo_os demo_server
     ((sys_init demo_server)\<lparr>y_srv := demo_server\<lparr>s_ln := Some ''127.0.0.1:1080'', s_started := True\<rparr>,
        y_loop := Got 7 ''127.0.0.1:5000''\<rparr>)"
  using reach.more [OF demo_started step.accept_ok [of _ 0 7 demo_dialer demo_os "''127.0.0.1:5000''"]]
  by (simp add: sys_init_def)

lemma demo_session:
  "reach demo_dialer demo_os demo_server
     ((sys_init demo_server)\<lparr>y_srv := demo_server\<lparr>s_ln := Some ''127.0.0.1:1080'', s_started := True,
          s_active := {7}, statTotal := 1, statActive := 1\<rparr>,
        y_loop := Accepting 0, y_sem := 1, y_running := [7 \<mapsto> ''127.0.0.1:5000'']\<rparr>)"
  using reach.more [OF demo_got step.dispatch [of _ 7 "''127.0.0.1:5000''"]]
  by (simp add: acceptConn_def demo_loopback Let_def trackConn_def sys_init_def demo_server_def
      NewWithOptions_def ResolveMaxConns_def defaultMaxConns_def)

lemma demo_session_ex:
  "\<exists>y. reach demo_dialer demo_os (NewWithOptions ''127.0.0.1:1080'' 0 True) y \<and> y_running y = [7 \<mapsto> ''127.0.0.1:5000'']"
  by (rule exI, rule conjI, rule demo_session [unfolded demo_server_def]) simp

section \<open>Properties\<close>



text \<open>
  a successful \<open>Start\<close> has bound the configured address and that address is a
  loopback one; every other outcome leaves the server untouched.
\<close>

theorem Start_loopback_only:
  "(case Start os s of
      (Inr _, s') \<Rightarrow> \<exists>ap a. ParseAddrPort (s_listen s) = Some ap \<and> IsLoopback (ap_addr ap) \<and>
         os_Listen os (s_listen s) = Inr a \<and> s' = s\<lparr>s_ln := Some a, s_started := True\<rparr>
    | (Inl _, s') \<Rightarrow> s' = s)"
  by (auto simp: Start_def split: option.split sum.split)


lemma demo_stopped:
  "reach demo_dialer demo_os demo_server
     ((sys_init demo_server)\<lparr>y_srv := demo_server\<lparr>s_closing := True\<rparr>, y_stop := Stopped\<rparr>)"
proof -
  let ?y0 = "sys_init demo_server"
  let ?y1 = "?y0\<lparr>y_srv := demo_server\<lparr>s_closing := True\<rparr>, y_stop := Snapshot {}\<rparr>"
  have 1: "reach demo_dialer demo_os demo_server ?y1"
    using reach.more [OF reach.init [of demo_dialer demo_os demo_server] step.stop_begin]
    by (simp add: Stop_begin_def sys_init_def demo_server_def NewWithOptions_def)
  have 2: "reach demo_dialer demo_os demo_server (?y1\<lparr>y_stop := Draining\<rparr>)"
    using reach.more [OF 1 step.stop_close [of _ "{}"]] by (simp add: Stop_close_def sys_init_def)
  show ?thesis
    using reach.more [OF 2 step.stop_end] by (simp add: Stop_end_def sys_init_def demo_server_def NewWithOptions_def)
qed

lemma demo_stopped_ex:
  "\<exists>y. reach demo_dialer demo_os (NewWithOptions ''127.0.0.1:1080'' 0 True) y \<and> y_stop y = Stopped"
  by (rule exI, rule conjI, rule demo_stopped [unfolded demo_server_def]) simp


section \<open>Two behaviours worth knowing\<close>

lemma errors_to_exit:
  assumes "reach d os s0 y" "y_loop y = Accepting n" "n < maxConsecutiveErrors" "\<not> s_closing (y_srv y)"
  shows "reach d os s0 (y\<lparr>y_loop := Exited\<rparr>)"
  using assms
proof (induction "maxConsecutiveErrors - n" arbitrary: n y)
  case (Suc k)
  note s = reach.more [OF Suc.prems(1) step.accept_err [OF Suc.prems(2)]]
  show ?case
  proof (cases "n + 1 \<ge> maxConsecutiveErrors")
    case True
    with s Suc.prems show ?thesis by (simp add: acceptError_def)
  next
    case False
    with s Suc.prems have "reach d os s0 (y\<lparr>y_loop := Accepting (n + 1)\<rparr>)" by (simp add: acceptError_def)
    from Suc.hyps(1) [OF _ this, of "n + 1"] False Suc.hyps(2) Suc.prems show ?thesis by simp
  qed
qed simp

text \<open>
  after ten consecutive accept errors the accept loop ends for good, and the
  server still reports itself as listening: \<open>Listening\<close> reflects \<open>Start\<close> and \<open>Stop\<close>,
  not the loop. From every accepting state this is reachable.
\<close>

theorem listening_after_giving_up:
  assumes "reach d os s0 y" "y_loop y = Accepting n" "n < maxConsecutiveErrors" "Listening (y_srv y)"
  shows "\<exists>y'. reach d os s0 y' \<and> y_loop y' = Exited \<and> Listening (y_srv y') \<and>
    (\<forall>y''. step d os y' y'' \<longrightarrow> y_loop y'' = Exited)"
proof -
  have "reach d os s0 (y\<lparr>y_loop := Exited\<rparr>)"
    using errors_to_exit [OF assms(1-3)] assms(4) by (simp add: Listening_def)
  moreover have "y_loop y'' = Exited" if "step d os (y\<lparr>y_loop := Exited\<rparr>) y''" for y''
    using that by cases (auto simp: sessionEnd_def Stop_begin_def Stop_close_def Stop_end_def)
  ultimately show ?thesis using assms(4) by (intro exI [of _ "y\<lparr>y_loop := Exited\<rparr>"]) simp
qed

theorem listening_after_giving_up_witness:
  "\<exists>y'. reach demo_dialer demo_os demo_server y' \<and> y_loop y' = Exited \<and> Listening (y_srv y')"
  using listening_after_giving_up [OF demo_started, of 0]
  by (auto simp: maxConsecutiveErrors_def Listening_def demo_server_def NewWithOptions_def)

text \<open>
  a connection that \<open>Accept\<close> has returned but the loop has not tracked yet when
  \<open>Stop\<close> takes its snapshot becomes a session that \<open>Stop\<close> does not close, and \<open>Stop\<close>
  cannot finish while that session runs.
\<close>

theorem stop_misses_untracked:
  assumes "reach d os s0 y" "y_loop y = Got c remote" "y_stop y = NoStop" "\<not> s_closing (y_srv y)"
    and "c \<notin> y_closed y" "c \<notin> s_active (y_srv y)" "isLoopbackConn remote" "int (y_sem y) < s_maxConns (y_srv y)"
  shows "\<exists>y'. reach d os s0 y' \<and> y_stop y' = Draining \<and> y_running y' c = Some remote \<and> c \<notin> y_closed y' \<and>
    (\<forall>y''. step d os y' y'' \<longrightarrow> y_running y'' c = Some remote \<longrightarrow> y_stop y'' = Draining)"
proof -
  let ?s = "(y_srv y)\<lparr>s_closing := True, s_ln := None\<rparr>"
  let ?y1 = "y\<lparr>y_srv := ?s, y_stop := Snapshot (s_active (y_srv y))\<rparr>"
  let ?y2 = "y\<lparr>y_srv := ?s, y_closed := y_closed y \<union> s_active (y_srv y), y_stop := Draining\<rparr>"
  let ?y3 = "acceptConn c remote ?y2"
  have "reach d os s0 ?y1"
    using reach.more [OF assms(1) step.stop_begin] assms(4) by (simp add: Stop_begin_def)
  from reach.more [OF this step.stop_close [of _ "s_active (y_srv y)"]] have "reach d os s0 ?y2"
    by (simp add: Stop_close_def)
  from reach.more [OF this step.dispatch [of _ c remote]] have "reach d os s0 ?y3"
    using assms(2) by simp
  moreover have "y_stop ?y3 = Draining" "y_running ?y3 c = Some remote" "c \<notin> y_closed ?y3" "s_closing (y_srv ?y3)"
    using assms(5-8) by (simp_all add: acceptConn_def Let_def trackConn_def)
  moreover have "y_stop y'' = Draining" if "step d os ?y3 y''" "y_running y'' c = Some remote" for y''
    using that calculation(2-5)
    by cases (auto simp: acceptError_def sessionEnd_def Stop_begin_def Stop_close_def Stop_end_def acceptConn_def Let_def)
  ultimately show ?thesis by blast
qed

theorem stop_misses_untracked_witness:
  "\<exists>y'. reach demo_dialer demo_os demo_server y' \<and> y_stop y' = Draining \<and> y_running y' 7 = Some ''127.0.0.1:5000'' \<and>
     7 \<notin> y_closed y'"
  using stop_misses_untracked [OF demo_got, of 7 "''127.0.0.1:5000''"]
  by (auto simp: sys_init_def demo_server_def NewWithOptions_def demo_loopback ResolveMaxConns_def defaultMaxConns_def)

end
