(* ===== verification/Logging_Redact.thy ===== *)
theory Logging_Redact
  imports Go_Strings "HOL-Library.Sublist"
begin

text \<open>
  Redaction of log lines (\<open>internal/logging/redact.go\<close>), over a model of the part of
  Go's regular expressions it uses: leftmost matches, among those the first in the
  order of preference of the alternatives and of greedy repetition.

  Text is bytes. The three expressions only name ASCII characters, and the two letters
  outside ASCII that \<open>(?i)\<close> folds onto \<open>k\<close> and \<open>s\<close> are written out as their UTF-8.
\<close>

section \<open>Regular expressions\<close>

datatype rx =
    Cls "char \<Rightarrow> bool"
  | Many "char \<Rightarrow> bool"
  | Rep nat "char \<Rightarrow> bool"
  | Boundary
  | Cat rx rx
  | Alt rx rx
  | Empty

text \<open>A position: the character before it and the rest of the text.\<close>

type_synonym pos = "char option \<times> string"

definition is_word :: "char \<Rightarrow> bool" where
  "is_word c \<longleftrightarrow> is_digit c \<or> (65 \<le> ord c \<and> ord c \<le> 90) \<or> (97 \<le> ord c \<and> ord c \<le> 122) \<or> c = CHR ''_''"

definition word_opt :: "char option \<Rightarrow> bool" where
  "word_opt x = (case x of None \<Rightarrow> False | Some c \<Rightarrow> is_word c)"

definition first :: "'a list \<Rightarrow> 'a option" where
  "first xs = (case xs of [] \<Rightarrow> None | x # _ \<Rightarrow> Some x)"

fun many :: "(char \<Rightarrow> bool) \<Rightarrow> char option \<Rightarrow> string \<Rightarrow> pos list" where
  "many p pv [] = [(pv, [])]"
| "many p pv (c # cs) = (if p c then many p (Some c) cs @ [(pv, c # cs)] else [(pv, c # cs)])"

fun rep :: "nat \<Rightarrow> (char \<Rightarrow> bool) \<Rightarrow> char option \<Rightarrow> string \<Rightarrow> pos list" where
  "rep 0 p pv s = [(pv, s)]"
| "rep (Suc n) p pv s = (case s of [] \<Rightarrow> [] | c # cs \<Rightarrow> if p c then rep n p (Some c) cs else [])"

text \<open>Where a match that starts at a position can end, in order of preference.\<close>

primrec ends :: "rx \<Rightarrow> pos \<Rightarrow> pos list" where
  "ends (Cls p) x = (case snd x of [] \<Rightarrow> [] | c # cs \<Rightarrow> if p c then [(Some c, cs)] else [])"
| "ends (Many p) x = many p (fst x) (snd x)"
| "ends (Rep n p) x = rep n p (fst x) (snd x)"
| "ends Boundary x = (if word_opt (fst x) \<noteq> word_opt (first (snd x)) then [x] else [])"
| "ends (Cat r q) x = concat (map (ends q) (ends r x))"
| "ends (Alt r q) x = ends r x @ ends q x"
| "ends Empty x = [x]"

text \<open>\<open>ReplaceAllStringFunc\<close> for an expression that does not match the empty string.\<close>

function replace_all :: "rx \<Rightarrow> (string \<Rightarrow> string) \<Rightarrow> pos \<Rightarrow> string" where
  "replace_all r f (pv, []) = []"
| "replace_all r f (pv, c # cs) =
     (case ends r (pv, c # cs) of
        (pv', rest) # _ \<Rightarrow>
          if length rest < length (c # cs)
          then f (take (length (c # cs) - length rest) (c # cs)) @ replace_all r f (pv', rest)
          else c # replace_all r f (Some c, cs)
      | [] \<Rightarrow> c # replace_all r f (Some c, cs))"
  by pat_completeness auto
termination by (relation "measure (\<lambda>(r, f, pv, s). length s)") auto

declare replace_all.simps [simp del]

section \<open>The three expressions\<close>

definition is_hex :: "char \<Rightarrow> bool" where
  "is_hex c \<longleftrightarrow> is_digit c \<or> (65 \<le> ord c \<and> ord c \<le> 70) \<or> (97 \<le> ord c \<and> ord c \<le> 102)"

definition is_b64 :: "char \<Rightarrow> bool" where
  "is_b64 c \<longleftrightarrow> is_digit c \<or> (65 \<le> ord c \<and> ord c \<le> 90) \<or> (97 \<le> ord c \<and> ord c \<le> 122) \<or> c = CHR ''+'' \<or> c = CHR ''/''"

text \<open>\<open>\s\<close> is tab, newline, form feed, carriage return or space.\<close>

definition rx_space :: "char \<Rightarrow> bool" where
  "rx_space c \<longleftrightarrow> ord c \<in> {9, 10, 12, 13, 32}"

definition Chr :: "nat \<Rightarrow> rx" where
  "Chr n = Cls (\<lambda>c. ord c = n)"

text \<open>One letter under \<open>(?i)\<close>: the Kelvin sign folds to \<open>k\<close>, the long s to \<open>s\<close>.\<close>

definition fold_letter :: "char \<Rightarrow> rx" where
  "fold_letter a =
     (let both = Cls (\<lambda>c. ascii_lower c = a) in
      if a = CHR ''k'' then Alt both (Cat (Chr 0xE2) (Cat (Chr 0x84) (Chr 0xAA)))
      else if a = CHR ''s'' then Alt both (Cat (Chr 0xC5) (Chr 0xBF))
      else both)"

fun fold_word :: "string \<Rightarrow> rx" where
  "fold_word [] = Empty"
| "fold_word (c # cs) = Cat (fold_letter c) (fold_word cs)"

definition opt_sep :: rx where
  "opt_sep = Alt (Cls (\<lambda>c. c = CHR ''_'' \<or> c = CHR '' '')) Empty"

definition secretName :: rx where
  "secretName =
     Alt (Cat (fold_word ''private'') (Cat opt_sep (fold_word ''key'')))
    (Alt (Cat (fold_word ''preshared'') (Cat opt_sep (fold_word ''key'')))
    (Alt (Cat (fold_word ''header'') (Cat opt_sep (Cat (fold_word ''protection'') (Cat opt_sep (fold_word ''key'')))))
    (Alt (fold_word ''privatekey'') (Alt (fold_word ''presharedkey'') (fold_word ''headerprotectionkey'')))))"

definition assignedValue :: rx where
  "assignedValue =
     Cat (Cls (\<lambda>c. c = CHR ''='' \<or> c = CHR '':''))
    (Cat (Many rx_space)
    (Cat (Cls (\<lambda>c. \<not> rx_space c)) (Many (\<lambda>c. \<not> rx_space c))))"

definition reSecretAssign :: rx where
  "reSecretAssign = Cat Boundary (Cat secretName (Cat (Many rx_space) assignedValue))"

definition reHexKey :: rx where
  "reHexKey = Cat Boundary (Cat (Rep 64 is_hex) Boundary)"

definition reBase64Key :: rx where
  "reBase64Key = Cat Boundary (Cat (Rep 43 is_b64) (Cls (\<lambda>c. c = CHR ''='')))"

section \<open>Redact\<close>

definition redacted :: string where "redacted = ''[REDACTED]''"

definition until_sep :: "string \<Rightarrow> string" where
  "until_sep m = takeWhile (\<lambda>c. c \<noteq> CHR ''='' \<and> c \<noteq> CHR '':'') m"

definition redact_assign :: "string \<Rightarrow> string" where
  "redact_assign m =
     (let h = until_sep m in
      if length h = length m then redacted else h @ [m ! length h] @ redacted)"

definition Redact :: "string \<Rightarrow> string" where
  "Redact s =
     (if s = [] then s
      else
        (let s1 = replace_all reSecretAssign redact_assign (None, s);
             s2 = replace_all reHexKey (\<lambda>_. redacted) (None, s1)
         in replace_all reBase64Key (\<lambda>_. redacted) (None, s2)))"

definition secretLine :: "string \<Rightarrow> bool" where
  "secretLine key \<longleftrightarrow> ToLower (TrimSpace key) \<in> set [''private_key'', ''preshared_key'', ''header_protection_key'']"

definition redact_uapi_line :: "string \<Rightarrow> string" where
  "redact_uapi_line line =
     (case Cut (CHR ''='') line of
        Some (key, _) \<Rightarrow> if secretLine key then key @ ''='' @ redacted else line
      | None \<Rightarrow> line)"

definition TrimRight_nl :: "string \<Rightarrow> string" where
  "TrimRight_nl s = rev (dropWhile (\<lambda>c. c = CHR 0x0A) (rev s))"

definition RedactUAPI :: "string \<Rightarrow> string" where
  "RedactUAPI uapi =
     TrimRight_nl (concat (map (\<lambda>l. redact_uapi_line l @ [CHR 0x0A]) (split_on (CHR 0x0A) uapi)))"

section \<open>No key is left in a redacted text\<close>

text \<open>No match of an expression starts anywhere in the text.\<close>

fun clean :: "rx \<Rightarrow> char option \<Rightarrow> string \<Rightarrow> bool" where
  "clean r pv [] = (ends r (pv, []) = [])"
| "clean r pv (c # cs) = (ends r (pv, c # cs) = [] \<and> clean r (Some c) cs)"

definition last_or :: "char option \<Rightarrow> string \<Rightarrow> char option" where
  "last_or pv u = (if u = [] then pv else Some (last u))"

lemma last_or_simps [simp]: "last_or pv [] = pv" "last_or pv (c # u) = last_or (Some c) u"
  by (simp_all add: last_or_def)

lemma clean_suffix: "clean r pv (u @ s) \<Longrightarrow> clean r (last_or pv u) s"
  by (induction u arbitrary: pv) auto

lemma rep_eq: "rep n p pv s = (if n \<le> length s \<and> list_all p (take n s) then [(last_or pv (take n s), drop n s)] else [])"
  by (induction n arbitrary: pv s) (auto split: list.splits)

lemma first_simps [simp]: "first [] = None" "first (x # xs) = Some x"
  by (simp_all add: first_def)

lemma word_mark [simp]: "\<not> is_word (CHR ''['')" "\<not> is_word (CHR '']'')"
  by (simp_all add: is_word_def is_digit_def)

text \<open>
  The shape of the two key expressions: a boundary, a run of characters of a class and
  a tail that looks at one character. The laws are what makes replacing by the mark
  neither uncover nor create a match.
\<close>

locale token_regex =
  fixes n :: nat and p :: "char \<Rightarrow> bool" and tail :: rx
  assumes long: "8 < n"
    and mark: "\<not> p (CHR ''['')" "\<not> p (CHR '']'')"
    and tail_first: "ends tail (pv, x) \<noteq> [] \<Longrightarrow> first y = first x \<Longrightarrow> ends tail (pv, y) \<noteq> []"
    and tail_mark: "p c \<Longrightarrow> ends tail (Some c, CHR ''['' # x) \<noteq> [] \<Longrightarrow> ends Boundary (Some c, y) \<noteq> [] \<Longrightarrow>
      ends tail (Some c, y) \<noteq> []"
    and tail_end: "p c \<Longrightarrow> (pv', rest) \<in> set (ends tail (Some c, x)) \<Longrightarrow> \<not> word_opt pv' \<or> \<not> word_opt (first rest)"
    and tail_suffix: "(pv', rest) \<in> set (ends tail (pv, x)) \<Longrightarrow> \<exists>u. x = u @ rest \<and> pv' = last_or pv u"
begin

definition rx_tok :: rx where
  "rx_tok = Cat Boundary (Cat (Rep n p) tail)"

lemma ends_tok:
  "ends rx_tok (pv, s) =
     (if word_opt pv \<noteq> word_opt (first s) \<and> n \<le> length s \<and> list_all p (take n s)
      then ends tail (Some (last (take n s)), drop n s) else [])"
proof -
  have "take n s \<noteq> []" if "n \<le> length s" using that long by auto
  then show ?thesis using long by (auto simp: rx_tok_def rep_eq last_or_def)
qed

lemma ends_tok_suffix:
  assumes "(pv', rest) \<in> set (ends rx_tok (pv, s))"
  shows "\<exists>u. s = u @ rest \<and> pv' = last_or pv u \<and> length rest < length s \<and> (\<not> word_opt pv' \<or> \<not> word_opt (first rest))"
proof -
  from assms have a: "n \<le> length s" "list_all p (take n s)" "(pv', rest) \<in> set (ends tail (Some (last (take n s)), drop n s))"
    by (auto simp: ends_tok split: if_splits)
  obtain u where u: "drop n s = u @ rest" "pv' = last_or (Some (last (take n s))) u" using tail_suffix [OF a(3)] by blast
  have ne: "take n s \<noteq> []" using a(1) long by auto
  then have "p (last (take n s))" using a(2) by (meson last_in_set list_all_iff)
  from tail_end [OF this a(3)] have e: "\<not> word_opt pv' \<or> \<not> word_opt (first rest)" .
  have s: "s = (take n s @ u) @ rest" using u(1) by (metis append.assoc append_take_drop_id)
  have "pv' = last_or pv (take n s @ u)" using u(2) ne by (simp add: last_or_def)
  moreover have "length rest < length s" using s ne by (metis append_is_Nil_conv length_append length_greater_0_conv less_add_same_cancel2)
  ultimately show ?thesis using s e by blast
qed

text \<open>The output agrees with the input up to the first mark, which stands for a match.\<close>

lemma replace_agrees:
  "\<exists>u y. s = u @ y \<and>
     (y = [] \<and> replace_all rx_tok (\<lambda>_. redacted) (pv, s) = u \<or>
      ends rx_tok (last_or pv u, y) \<noteq> [] \<and> (\<exists>x. replace_all rx_tok (\<lambda>_. redacted) (pv, s) = u @ CHR ''['' # x))"
proof (induction s arbitrary: pv)
  case Nil
  show ?case by (simp add: replace_all.simps)
next
  case (Cons c cs)
  show ?case
  proof (cases "ends rx_tok (pv, c # cs)")
    case Nil
    obtain u y where u: "cs = u @ y"
      "y = [] \<and> replace_all rx_tok (\<lambda>_. redacted) (Some c, cs) = u \<or>
      ends rx_tok (last_or (Some c) u, y) \<noteq> [] \<and> (\<exists>x. replace_all rx_tok (\<lambda>_. redacted) (Some c, cs) = u @ CHR ''['' # x)"
      using Cons.IH by blast
    with Nil show ?thesis by (intro exI [of _ "c # u"] exI [of _ y]) (auto simp: replace_all.simps)
  next
    case (Cons m ms)
    obtain pv' rest where m: "m = (pv', rest)" by (cases m)
    then have "length rest < length (c # cs)" using ends_tok_suffix [of pv' rest pv "c # cs"] Cons by auto
    with Cons m show ?thesis
      by (intro exI [of _ "[]"] exI [of _ "c # cs"]) (auto simp: replace_all.simps redacted_def)
  qed
qed

lemma clean_mark:
  assumes "clean rx_tok (Some (CHR '']'')) x"
  shows "clean rx_tok pv (redacted @ x)"
proof -
  have "ends rx_tok (pv', u @ CHR '']'' # x) = []" if "length u \<le> 8" for u pv'
  proof -
    have "CHR '']'' \<in> set (take n (u @ CHR '']'' # x))" using that long by (auto simp: take_Cons')
    then show ?thesis using mark by (auto simp: ends_tok list_all_iff)
  qed
  from this [of "''REDACTED''"] this [of "''EDACTED''"] this [of "''DACTED''"] this [of "''ACTED''"] this [of "''CTED''"]
    this [of "''TED''"] this [of "''ED''"] this [of "''D''"] this [of "[]"] assms mark long
  show ?thesis by (simp add: redacted_def ends_tok take_Cons')
qed

end

text \<open>Replacing the matches of one expression of this shape, seen by another or the same.\<close>

locale token_pair = r: token_regex n p tail + q: token_regex m p' tail'
  for n p tail m p' tail'
begin

lemma no_new_match:
  assumes "ends r.rx_tok (pv, c # cs) = []"
    and "word_opt pvo = word_opt pv"
  shows "ends r.rx_tok (pvo, c # replace_all q.rx_tok (\<lambda>_. redacted) (Some c, cs)) = []"
proof (rule ccontr)
  let ?g = "replace_all q.rx_tok (\<lambda>_. redacted) (Some c, cs)"
  assume ne: "ends r.rx_tok (pvo, c # ?g) \<noteq> []"
  obtain u y where u: "cs = u @ y" and g: "y = [] \<and> ?g = u \<or>
      ends q.rx_tok (last_or (Some c) u, y) \<noteq> [] \<and> (\<exists>x. ?g = u @ CHR ''['' # x)" using q.replace_agrees by blast
  show False
  proof (cases "y = []")
    case True
    then have "ends q.rx_tok (last_or (Some c) u, y) = []" using q.long by (simp add: q.ends_tok)
    with g True u have "?g = cs" by auto
    with ne assms show False by (auto simp: r.ends_tok split: if_splits)
  next
    case False
    then obtain x where x: "?g = u @ CHR ''['' # x" and e: "ends q.rx_tok (last_or (Some c) u, y) \<noteq> []" using g by blast
    have b: "ends Boundary (last_or (Some c) u, y) \<noteq> []" using e by (auto simp: q.ends_tok split: if_splits)
    from ne have a: "word_opt pvo \<noteq> word_opt (Some c)" "list_all p (take n (c # u @ CHR ''['' # x))"
      "ends tail (Some (last (take n (c # u @ CHR ''['' # x))), drop n (c # u @ CHR ''['' # x)) \<noteq> []"
      by (auto simp: r.ends_tok x split: if_splits)
    have n: "n \<le> length (c # u)"
    proof (rule ccontr)
      assume "\<not> n \<le> length (c # u)"
      then have "CHR ''['' \<in> set (take n (c # u @ CHR ''['' # x))"
        by (auto simp: take_Cons' not_le Suc_le_eq)
      with a(2) r.mark show False by (auto simp: list_all_iff)
    qed
    then have t: "take n (c # u @ CHR ''['' # x) = take n (c # u)" "take n (c # u @ y) = take n (c # u)"
      "drop n (c # u @ CHR ''['' # x) = drop n (c # u) @ CHR ''['' # x" "drop n (c # u @ y) = drop n (c # u) @ y"
      using take_append [of n "c # u"] drop_append [of n "c # u"] by simp_all
    have tail: "ends tail (Some (last (take n (c # u))), drop n (c # u) @ y) \<noteq> []"
    proof (cases "drop n (c # u)")
      case Nil
      then have tk: "take n (c # u) = c # u" using n by simp
      have pc: "p (last (c # u))" using a(2) t tk by (metis last_in_set list.distinct(1) list_all_iff)
      have "ends Boundary (Some (last (c # u)), y) \<noteq> []" using b by (auto simp: last_or_def split: if_splits)
      from r.tail_mark [OF pc _ this] a(3) t tk Nil show ?thesis by simp
    next
      case (Cons d ds)
      with r.tail_first [of "Some (last (take n (c # u)))" "drop n (c # u) @ CHR ''['' # x" "drop n (c # u) @ y"] a(3) t
      show ?thesis by simp
    qed
    have "ends r.rx_tok (pv, c # u @ y) \<noteq> []"
      using a(1,2) n t tail assms(2) by (simp add: r.ends_tok)
    with assms(1) u show False by simp
  qed
qed

lemma replace_clean:
  assumes "rx_eq \<or> clean r.rx_tok pv s" and "rx_eq \<Longrightarrow> q.rx_tok = r.rx_tok"
    and "word_opt pvo = word_opt pv \<or> \<not> word_opt pvo \<and> \<not> word_opt (first s)"
  shows "clean r.rx_tok pvo (replace_all q.rx_tok (\<lambda>_. redacted) (pv, s))"
  using assms
proof (induction "length s" arbitrary: pv pvo s rule: less_induct)
  case (less s)
  show ?case
  proof (cases s)
    case Nil
    then show ?thesis using r.long by (simp add: replace_all.simps r.ends_tok)
  next
    case s: (Cons c cs)
    show ?thesis
    proof (cases "ends q.rx_tok (pv, c # cs)")
      case (Cons m ms)
      obtain pv' rest where m: "m = (pv', rest)" by (cases m)
      then have "(pv', rest) \<in> set (ends q.rx_tok (pv, c # cs))" using Cons by simp
      from q.ends_tok_suffix [OF this] obtain u where u: "c # cs = u @ rest" "pv' = last_or pv u"
        "length rest < length (c # cs)" "\<not> word_opt pv' \<or> \<not> word_opt (first rest)" by blast
      have "rx_eq \<or> clean r.rx_tok pv' rest" using less.prems(1) s u clean_suffix by metis
      from less.hyps [OF _ this less.prems(2), of "Some (CHR '']'')"] u s
      have "clean r.rx_tok (Some (CHR '']'')) (replace_all q.rx_tok (\<lambda>_. redacted) (pv', rest))"
        by (auto simp: word_opt_def)
      from r.clean_mark [OF this] Cons m u(3) s show ?thesis by (simp add: replace_all.simps)
    next
      case Nil
      have nm: "ends r.rx_tok (pv, c # cs) = []" using less.prems(1,2) Nil s by auto
      have "rx_eq \<or> clean r.rx_tok (Some c) cs" using less.prems(1) s by auto
      then have "clean r.rx_tok (Some c) (replace_all q.rx_tok (\<lambda>_. redacted) (Some c, cs))"
        using less.hyps [of cs "Some c" "Some c"] less.prems(2) s by auto
      moreover have "ends r.rx_tok (pvo, c # replace_all q.rx_tok (\<lambda>_. redacted) (Some c, cs)) = []"
        using less.prems(3)
      proof
        assume "word_opt pvo = word_opt pv"
        from no_new_match [OF nm this] show ?thesis .
      next
        assume "\<not> word_opt pvo \<and> \<not> word_opt (first s)"
        then show ?thesis by (simp add: r.ends_tok s)
      qed
      ultimately show ?thesis using Nil s by (simp add: replace_all.simps)
    qed
  qed
qed

end

lemma hex_word: "is_hex c \<Longrightarrow> is_word c"
  by (auto simp: is_hex_def is_word_def)

interpretation hexk: token_regex 64 is_hex Boundary
  by unfold_locales
    (auto simp: is_hex_def is_digit_def word_opt_def is_word_def first_def split: if_splits list.splits dest: hex_word)

interpretation b64k: token_regex 43 is_b64 "Cls (\<lambda>c. c = CHR ''='')"
  by unfold_locales
    (auto simp: is_b64_def is_digit_def word_opt_def is_word_def first_def last_or_def split: if_splits list.splits)

lemma hexk_rx [simp]: "hexk.rx_tok = reHexKey"
  by (simp add: hexk.rx_tok_def reHexKey_def)

lemma b64k_rx [simp]: "b64k.rx_tok = reBase64Key"
  by (simp add: b64k.rx_tok_def reBase64Key_def)

interpretation hex_hex: token_pair 64 is_hex Boundary 64 is_hex Boundary
  by unfold_locales

interpretation b64_b64: token_pair 43 is_b64 "Cls (\<lambda>c. c = CHR ''='')" 43 is_b64 "Cls (\<lambda>c. c = CHR ''='')"
  by unfold_locales

interpretation hex_b64: token_pair 64 is_hex Boundary 43 is_b64 "Cls (\<lambda>c. c = CHR ''='')"
  by unfold_locales

lemma Redact_clean:
  "clean reHexKey None (Redact s) \<and> clean reBase64Key None (Redact s)"
proof (cases "s = []")
  case True
  then show ?thesis using hexk.ends_tok [of None "[]"] b64k.ends_tok [of None "[]"] by (simp add: Redact_def)
next
  case False
  define s1 where "s1 = replace_all reSecretAssign redact_assign (None, s)"
  define s2 where "s2 = replace_all reHexKey (\<lambda>_. redacted) (None, s1)"
  have "clean reHexKey None s2"
    using hex_hex.replace_clean [of True None s1 None] by (simp add: s2_def)
  moreover have "Redact s = replace_all reBase64Key (\<lambda>_. redacted) (None, s2)"
    using False by (simp add: Redact_def s1_def s2_def)
  ultimately show ?thesis
    using b64_b64.replace_clean [of True None s2 None] hex_b64.replace_clean [of False None s2 None] by simp
qed

lemma clean_hex:
  assumes "clean reHexKey None (a @ k @ b)" and "length k = 64" and "list_all is_hex k" and "\<not> word_opt (last_or None a)"
  shows "word_opt (first b)"
proof -
  have k: "k \<noteq> []" using assms(2) by auto
  then have w: "is_word (hd k)" "is_word (last k)" using assms(3) by (simp_all add: list_all_iff hex_word)
  have "ends reHexKey (last_or None a, k @ b) = []"
    using clean_suffix [OF assms(1)] k by (cases "k @ b") auto
  with assms(2-) k w show ?thesis
    using hexk.ends_tok [of "last_or None a" "k @ b"] by (cases k) (auto simp: word_opt_def split: if_splits option.splits)
qed

lemma clean_b64:
  assumes "clean reBase64Key None (a @ k @ ''='' @ b)" and "length k = 43" and "list_all is_b64 k"
  shows "word_opt (last_or None a) = word_opt (first k)"
proof -
  have k: "k \<noteq> []" using assms(2) by auto
  have "ends reBase64Key (last_or None a, k @ ''='' @ b) = []"
    using clean_suffix [OF assms(1)] k by (cases "k @ ''='' @ b") auto
  with assms(2-) k show ?thesis
    using b64k.ends_tok [of "last_or None a" "k @ ''='' @ b"] by (cases k) (auto split: if_splits)
qed

text \<open>
  C40: whatever is logged, a redacted line contains no 64 digit hexadecimal key that stands
  alone, and no base64 key of 43 characters and an equals sign that starts at a word
  boundary: redacting one kind neither uncovers nor creates the other.
\<close>

theorem redact_leaves_no_key:
  "\<not> (\<exists>a k b. Redact s = a @ k @ b \<and> length k = 64 \<and> list_all is_hex k \<and>
       \<not> word_opt (last_or None a) \<and> \<not> word_opt (first b)) \<and>
   \<not> (\<exists>a k b. Redact s = a @ k @ ''='' @ b \<and> length k = 43 \<and> list_all is_b64 k \<and>
       word_opt (last_or None a) \<noteq> word_opt (first k))"
  using Redact_clean [of s] clean_hex clean_b64 by metis

lemma replace_all_clean: "clean r pv s \<Longrightarrow> replace_all r f (pv, s) = s"
  by (induction s arbitrary: pv) (auto simp: replace_all.simps)

lemma many_suffix: "(pv', t) \<in> set (many p pv s) \<Longrightarrow> suffix t s"
  by (induction p pv s rule: many.induct) (auto split: if_splits intro: suffix_ConsI)

lemma ends_suffix: "(pv', t) \<in> set (ends r (pv, s)) \<Longrightarrow> suffix t s"
proof (induction r arbitrary: pv s pv' t)
  case (Cat r q)
  then obtain pv1 s1 where "(pv1, s1) \<in> set (ends r (pv, s))" "(pv', t) \<in> set (ends q (pv1, s1))" by auto
  with Cat.IH show ?case by (meson suffix_order.trans)
qed (auto simp: rep_eq suffix_drop suffix_ConsI split: list.splits if_splits intro: many_suffix)

lemma ends_Cat: "ends (Cat r q) (pv, s) \<noteq> [] \<Longrightarrow> \<exists>pv1 s1. suffix s1 s \<and> ends q (pv1, s1) \<noteq> []"
  using ends_suffix by fastforce

lemma assign_sep:
  assumes "ends reSecretAssign (pv, s) \<noteq> []"
  shows "\<exists>c t. suffix (c # t) s \<and> (c = CHR ''='' \<or> c = CHR '':'') \<and> t \<noteq> []"
proof -
  obtain pv1 s1 where 1: "suffix s1 s" "ends (Cat secretName (Cat (Many rx_space) assignedValue)) (pv1, s1) \<noteq> []"
    using ends_Cat assms unfolding reSecretAssign_def by blast
  obtain pv2 s2 where 2: "suffix s2 s1" "ends (Cat (Many rx_space) assignedValue) (pv2, s2) \<noteq> []"
    using ends_Cat [OF 1(2)] by blast
  obtain pv3 s3 where 3: "suffix s3 s2" "ends assignedValue (pv3, s3) \<noteq> []"
    using ends_Cat [OF 2(2)] by blast
  from 3(2) obtain c t where c: "s3 = c # t" "c = CHR ''='' \<or> c = CHR '':''" "t \<noteq> []"
    by (cases s3; cases "tl s3 = []") (auto simp: assignedValue_def rx_space_def split: if_splits)
  have "suffix (c # t) s" using 1(1) 2(1) 3(1) c(1) by (meson suffix_order.trans)
  with c show ?thesis by blast
qed

lemma clean_if: "(\<And>pv' t. suffix t s \<Longrightarrow> ends r (pv', t) = []) \<Longrightarrow> clean r pv s"
  by (induction s arbitrary: pv) (auto intro: suffix_ConsI)

lemma assign_clean_key: "list_all is_b64 k \<Longrightarrow> clean reSecretAssign pv (k @ ''='')"
proof (rule clean_if, rule ccontr)
  fix pv' t
  assume k: "list_all is_b64 k" and t: "suffix t (k @ ''='')" and "ends reSecretAssign (pv', t) \<noteq> []"
  then obtain c x where c: "suffix (c # x) (k @ ''='')" "c = CHR ''='' \<or> c = CHR '':''" "x \<noteq> []"
    using assign_sep suffix_order.trans by blast
  then obtain u where "k @ ''='' = u @ c # x" by (auto simp: suffix_def)
  then have "k = u @ c # butlast x" using c(3) by (metis butlast.simps(2) butlast_append butlast_snoc list.distinct(1))
  then have "is_b64 c" using k by simp
  with c(2) show False by (auto simp: is_b64_def is_digit_def)
qed

text \<open>
  a base64 key that stands alone and starts with \<open>+\<close> or \<open>/\<close> is not redacted: the word
  boundary the expression asks for is not there, and the line is logged unchanged.
\<close>

theorem redact_misses_plus_key:
  assumes "length k = 43" and "list_all is_b64 k" and "\<not> is_word (hd k)"
  shows "Redact (k @ ''='') = k @ ''=''"
proof -
  have k: "k \<noteq> []" using assms(1) by auto
  have short: "ends reHexKey (pv, t) = []" if "suffix t (k @ ''='')" for pv t
    using hexk.ends_tok [of pv t] suffix_length_le [OF that] assms(1) by simp
  have b64: "ends reBase64Key (pv, t) = []" if "suffix t (tl k @ ''='')" for pv t
  proof (rule ccontr)
    assume ne: "ends reBase64Key (pv, t) \<noteq> []"
    have "length t \<le> 43" using suffix_length_le [OF that] assms(1) by simp
    with ne show False using b64k.ends_tok [of pv t] by (auto split: if_splits)
  qed
  have "ends reBase64Key (None, k @ ''='') = []"
    using b64k.ends_tok [of None "k @ ''=''"] k assms(3) by (cases k) (auto simp: word_opt_def)
  then have "clean reBase64Key None (k @ ''='')"
    using clean_if [of "tl k @ ''=''" reBase64Key "Some (hd k)"] b64 k by (cases k) auto
  moreover have "clean reHexKey None (k @ ''='')" using short by (intro clean_if) auto
  ultimately show ?thesis
    using assign_clean_key [OF assms(2), of None] by (simp add: Redact_def replace_all_clean)
qed

theorem redact_misses_plus_key_witness:
  "Redact ((CHR ''+'' # replicate 42 (CHR ''a'')) @ ''='') = (CHR ''+'' # replicate 42 (CHR ''a'')) @ ''=''"
  by (rule redact_misses_plus_key) (simp_all add: list_all_iff is_b64_def is_word_def is_digit_def)

section \<open>Redacting a UAPI document\<close>

text \<open>A line without the value of a secret.\<close>

definition blank_secret :: "string \<Rightarrow> string" where
  "blank_secret line =
     (case Cut (CHR ''='') line of
        Some (key, _) \<Rightarrow> if secretLine key then key @ ''='' else line
      | None \<Rightarrow> line)"

lemma redact_blank: "redact_uapi_line (blank_secret l) = redact_uapi_line l"
proof (cases "Cut (CHR ''='') l")
  case (Some kv)
  obtain k v where kv: "kv = (k, v)" by (cases kv)
  with Some have "CHR ''='' \<notin> set k" by (auto dest: Cut_Some)
  then have "Cut (CHR ''='') (k @ ''='') = Some (k, [])" by (simp add: Cut_append)
  with Some kv show ?thesis by (auto simp: blank_secret_def redact_uapi_line_def)
qed (simp add: blank_secret_def)

lemma blank_no_newline: "CHR 0x0A \<notin> set l \<Longrightarrow> CHR 0x0A \<notin> set (blank_secret l)"
  by (auto simp: blank_secret_def split: option.splits dest!: Cut_Some)

text \<open>The redacted document is a function of the document without its secrets.\<close>

lemma redact_uapi_blank:
  "RedactUAPI (Join [CHR 0x0A] (map blank_secret (split_on (CHR 0x0A) uapi))) = RedactUAPI uapi"
proof -
  have "\<forall>l\<in>set (map blank_secret (split_on (CHR 0x0A) uapi)). CHR 0x0A \<notin> set l"
    using blank_no_newline split_on_no_sep_in by fastforce
  from split_on_Join_lines [OF this] show ?thesis by (simp add: RedactUAPI_def redact_blank comp_def)
qed

end
