(* ===== verification/Logging_Log.thy ===== *)
theory Logging_Log
  imports Logging_Redact "HOL-Library.Finite_Map" "HOL-Library.List_Lexorder" "HOL-Library.Char_ord"
begin

text \<open>
  The logger (\<open>internal/logging/logging.go\<close>): levels, the rotation limits, writing a line,
  rotating and pruning.

  The log directory is a finite map from the names of its regular files to their
  contents. What the file system does with each call is a parameter, and so are the two
  renderings of the clock.
\<close>

datatype Level = LevelDebug | LevelInfo | LevelWarn | LevelError

fun level_num :: "Level \<Rightarrow> nat" where
  "level_num LevelDebug = 0" | "level_num LevelInfo = 1" | "level_num LevelWarn = 2" | "level_num LevelError = 3"

definition ParseLevel :: "string \<Rightarrow> Level option" where
  "ParseLevel s =
     (let v = ToLower (TrimSpace s) in
      if v = ''debug'' then Some LevelDebug
      else if v = ''info'' \<or> v = [] then Some LevelInfo
      else if v = ''warn'' \<or> v = ''warning'' then Some LevelWarn
      else if v = ''error'' then Some LevelError
      else None)"

fun Level_String :: "Level \<Rightarrow> string" where
  "Level_String LevelDebug = ''DEBUG''" | "Level_String LevelInfo = ''INFO''"
| "Level_String LevelWarn = ''WARN''" | "Level_String LevelError = ''ERROR''"

record log_options =
  op_Dir :: bool
  op_FileName :: string
  op_Level :: Level
  op_MaxSizeBytes :: int
  op_MaxFiles :: int
  op_Console :: bool

record Logger =
  lg_opts :: log_options
  lg_file :: bool
  lg_size :: int
  lg_console :: bool
  lg_closed :: bool
  lg_maxSize :: int
  lg_maxFiles :: int

record log_world =
  lw_files :: "(string, string) fmap"
  lw_console :: "string list"

text \<open>
  The outcomes of the file system calls: the error of opening and of querying the file,
  whether it can be renamed, the directory read, a file removed, and how much of a line
  a failing write leaves behind.
\<close>

record log_io =
  li_mkdir :: "string option"
  li_open :: "string option"
  li_stat :: "string option"
  li_rename :: bool
  li_readdir :: bool
  li_remove :: "string \<Rightarrow> bool"
  li_write :: "nat option"

definition openFile :: "log_io \<Rightarrow> Logger \<times> log_world \<Rightarrow> string option \<times> Logger \<times> log_world" where
  "openFile io lw =
     (case lw of (l, w) \<Rightarrow>
        case li_open io of
          Some e \<Rightarrow> (Some (''could not open the log file: '' @ e), l, w)
        | None \<Rightarrow>
            (let name = op_FileName (lg_opts l);
                 content = (case fmlookup (lw_files w) name of None \<Rightarrow> [] | Some c \<Rightarrow> c);
                 w1 = w\<lparr>lw_files := fmupd name content (lw_files w)\<rparr>
             in case li_stat io of
                  Some e \<Rightarrow> (Some (''could not stat the log file: '' @ e), l, w1)
                | None \<Rightarrow> (None, l\<lparr>lg_file := True, lg_size := int (length content)\<rparr>, w1)))"

definition Logger_New :: "log_io \<Rightarrow> log_options \<Rightarrow> log_world \<Rightarrow> string option \<times> Logger \<times> log_world" where
  "Logger_New io opts0 w =
     (let opts1 = (if op_FileName opts0 = [] then opts0\<lparr>op_FileName := ''awgsocks.log''\<rparr> else opts0);
          opts2 = (if op_MaxSizeBytes opts1 \<le> 0 then opts1\<lparr>op_MaxSizeBytes := 8388608\<rparr> else opts1);
          opts = (if op_MaxFiles opts2 \<le> 0 then opts2\<lparr>op_MaxFiles := 5\<rparr> else opts2);
          l = \<lparr>lg_opts = opts, lg_file = False, lg_size = 0, lg_console = op_Console opts, lg_closed = False,
               lg_maxSize = op_MaxSizeBytes opts, lg_maxFiles = op_MaxFiles opts\<rparr>
      in if \<not> op_Dir opts then (None, l, w)
         else (case li_mkdir io of
             Some e \<Rightarrow> (Some (''could not create the log directory: '' @ e), l, w)
           | None \<Rightarrow> openFile io (l, w)))"

definition SetLevel :: "Level \<Rightarrow> Logger \<Rightarrow> Logger" where
  "SetLevel level l = l\<lparr>lg_opts := (lg_opts l)\<lparr>op_Level := level\<rparr>\<rparr>"

definition SetRotation :: "int \<Rightarrow> int \<Rightarrow> Logger \<Rightarrow> Logger" where
  "SetRotation maxSizeBytes maxFiles l =
     (let l1 = (if maxSizeBytes > 0 then l\<lparr>lg_maxSize := maxSizeBytes\<rparr> else l)
      in if maxFiles > 0 then l1\<lparr>lg_maxFiles := maxFiles\<rparr> else l1)"

section \<open>Pruning\<close>

definition is_rotated :: "string \<Rightarrow> string \<Rightarrow> string \<Rightarrow> bool" where
  "is_rotated base ext name \<longleftrightarrow> HasPrefix name (base @ ''-'') \<and> HasSuffix name ext"

definition rotated_names :: "string \<Rightarrow> string \<Rightarrow> (string, string) fmap \<Rightarrow> string list" where
  "rotated_names base ext files = filter (is_rotated base ext) (sorted_list_of_fset (fmdom files))"

definition remove_file :: "log_io \<Rightarrow> string \<Rightarrow> (string, string) fmap \<Rightarrow> (string, string) fmap" where
  "remove_file io name files = (if li_remove io name then fmdrop name files else files)"

definition pruneLocked :: "log_io \<Rightarrow> string \<Rightarrow> string \<Rightarrow> int \<Rightarrow> (string, string) fmap \<Rightarrow> (string, string) fmap" where
  "pruneLocked io base ext maxFiles files =
     (if \<not> li_readdir io then files
      else
        (let rotated = rotated_names base ext files in
         if int (length rotated) \<le> maxFiles then files
         else fold (remove_file io) (take (nat (int (length rotated) - maxFiles)) rotated) files))"

section \<open>Rotating and writing\<close>

definition Ext :: "string \<Rightarrow> string" where
  "Ext name = (case CutLast (CHR ''.'') name of None \<Rightarrow> [] | Some (_, e) \<Rightarrow> CHR ''.'' # e)"

definition base_name :: "string \<Rightarrow> string" where
  "base_name name = (case CutLast (CHR ''.'') name of None \<Rightarrow> name | Some (b, _) \<Rightarrow> b)"

definition rotateLocked :: "log_io \<Rightarrow> string \<Rightarrow> Logger \<times> log_world \<Rightarrow> Logger \<times> log_world" where
  "rotateLocked io stamp lw =
     (case lw of (l, w) \<Rightarrow>
        if \<not> lg_file l then (l, w)
        else
          (let l1 = l\<lparr>lg_file := False\<rparr>;
               active = op_FileName (lg_opts l);
               base = base_name active;
               ext = Ext active;
               rotated = base @ ''-'' @ stamp @ ext;
               files = (case fmlookup (lw_files w) active of
                   Some c \<Rightarrow> if li_rename io then fmdrop active (fmupd rotated c (lw_files w))
                             else remove_file io active (lw_files w)
                 | None \<Rightarrow> remove_file io active (lw_files w));
               w1 = w\<lparr>lw_files := pruneLocked io base ext (lg_maxFiles l) files\<rparr>
           in case openFile io (l1, w1) of
                (None, l2, w2) \<Rightarrow> (l2, w2)
              | (Some e, l2, w2) \<Rightarrow>
                  (l2, if lg_console l
                       then w2\<lparr>lw_console := lw_console w2 @ [''could not reopen the log file: '' @ e @ [CHR 0x0A]]\<rparr> else w2)))"

definition TrimRight_crlf :: "string \<Rightarrow> string" where
  "TrimRight_crlf s = rev (dropWhile (\<lambda>c. c = CHR 0x0D \<or> c = CHR 0x0A) (rev s))"

definition log_line :: "string \<Rightarrow> Level \<Rightarrow> string \<Rightarrow> string" where
  "log_line time level msg = time @ '' ['' @ Level_String level @ ''] '' @ Redact (TrimRight_crlf msg) @ [CHR 0x0A]"

text \<open>A write to the active file; a closed file (a nil handle) refuses it.\<close>

definition write_active :: "log_io \<Rightarrow> string \<Rightarrow> Logger \<times> log_world \<Rightarrow> Logger \<times> log_world" where
  "write_active io line lw =
     (case lw of (l, w) \<Rightarrow>
        if \<not> lg_file l then (l, w)
        else
          (let name = op_FileName (lg_opts l);
               old = (case fmlookup (lw_files w) name of None \<Rightarrow> [] | Some c \<Rightarrow> c)
           in case li_write io of
                None \<Rightarrow> (l\<lparr>lg_size := lg_size l + int (length line)\<rparr>,
                         w\<lparr>lw_files := fmupd name (old @ line) (lw_files w)\<rparr>)
              | Some n \<Rightarrow> (l, w\<lparr>lw_files := fmupd name (old @ take n line) (lw_files w)\<rparr>)))"

definition logf :: "log_io \<Rightarrow> string \<Rightarrow> string \<Rightarrow> Level \<Rightarrow> string \<Rightarrow> Logger \<times> log_world \<Rightarrow> Logger \<times> log_world" where
  "logf io time stamp level msg lw =
     (case lw of (l, w) \<Rightarrow>
        if lg_closed l \<or> level_num level < level_num (op_Level (lg_opts l)) then (l, w)
        else
          (let line = log_line time level msg;
               w1 = (if lg_console l then w\<lparr>lw_console := lw_console w @ [line]\<rparr> else w)
           in if \<not> lg_file l then (l, w1)
              else write_active io line
                (if lg_size l + int (length line) > lg_maxSize l then rotateLocked io stamp (l, w1) else (l, w1))))"

definition Logger_Close :: "Logger \<Rightarrow> Logger" where
  "Logger_Close l = (if lg_closed l then l else l\<lparr>lg_closed := True, lg_file := False\<rparr>)"

section \<open>Limits\<close>

lemma SetRotation_pos:
  "0 < lg_maxSize l \<Longrightarrow> 0 < lg_maxFiles l \<Longrightarrow> 0 < lg_maxSize (SetRotation s n l) \<and> 0 < lg_maxFiles (SetRotation s n l)"
  by (simp add: SetRotation_def Let_def)

lemma New_pos: "Logger_New io opts w = (ok, l, w') \<Longrightarrow> 0 < lg_maxSize l \<and> 0 < lg_maxFiles l"
  by (auto simp: Logger_New_def openFile_def Let_def split: if_splits option.splits)

section \<open>Pruning keeps the newest files\<close>

lemma fold_remove:
  assumes "\<And>f. li_remove io f"
  shows "fmlookup (fold (remove_file io) names files) f = (if f \<in> set names then None else fmlookup files f)"
  by (induction names arbitrary: files) (auto simp: remove_file_def assms)

lemma sorted_take_drop: "sorted xs \<Longrightarrow> x \<in> set (take n xs) \<Longrightarrow> y \<in> set (drop n xs) \<Longrightarrow> x \<le> y"
  by (metis append_take_drop_id sorted_append)

lemma rotated_names_sorted: "sorted (rotated_names base ext files)" "distinct (rotated_names base ext files)"
  by (simp_all add: rotated_names_def sorted_wrt_filter sorted_list_of_fset.rep_eq)

lemma set_rotated_names: "set (rotated_names base ext files) = {f. fmlookup files f \<noteq> None \<and> is_rotated base ext f}"
  by (auto simp: rotated_names_def sorted_list_of_fset.rep_eq fmlookup_dom_iff fmdomI)

text \<open>
  pruning keeps at most the configured number of rotated files and these are the
  newest by name: every rotated file that is gone is older than every one that is left,
  none goes while they are few enough, and no other file is touched.
\<close>

theorem prune_keeps_newest:
  assumes "li_readdir io" and "\<And>f. li_remove io f" and "0 \<le> maxFiles"
  shows "(let files' = pruneLocked io base ext maxFiles files; old = rotated_names base ext files in
     int (length (rotated_names base ext files')) = min maxFiles (int (length old)) \<and>
     (\<forall>f. fmlookup files' f = fmlookup files f \<or> fmlookup files' f = None \<and> is_rotated base ext f) \<and>
     (\<forall>f g. is_rotated base ext f \<longrightarrow> fmlookup files f \<noteq> None \<longrightarrow> fmlookup files' f = None \<longrightarrow>
        is_rotated base ext g \<longrightarrow> fmlookup files' g \<noteq> None \<longrightarrow> f < g))"
proof -
  define old where "old = rotated_names base ext files"
  define k where "k = nat (int (length old) - maxFiles)"
  define files' where "files' = pruneLocked io base ext maxFiles files"
  have look: "fmlookup files' f = (if f \<in> set (take k old) then None else fmlookup files f)" for f
    using assms(1) fold_remove [OF assms(2)] by (simp add: files'_def pruneLocked_def old_def k_def Let_def)
  have so: "sorted old" "distinct old" and st: "set old = {f. fmlookup files f \<noteq> None \<and> is_rotated base ext f}"
    using rotated_names_sorted set_rotated_names by (simp_all add: old_def)
  have split: "set old = set (take k old) \<union> set (drop k old)" "set (take k old) \<inter> set (drop k old) = {}"
    using so(2) by (simp_all add: set_take_disj_set_drop_if_distinct) (metis append_take_drop_id set_append)
  have new: "set (rotated_names base ext files') = set (drop k old)"
    using st split by (auto simp: set_rotated_names look dest: in_set_takeD)
  then have "length (rotated_names base ext files') = length (drop k old)"
    using so(2) rotated_names_sorted(2) distinct_card distinct_drop by metis
  then have "int (length (rotated_names base ext files')) = min maxFiles (int (length old))"
    using assms(3) by (auto simp: k_def)
  moreover have "f < g" if "f \<in> set (take k old)" "g \<in> set (drop k old)" for f g
    using sorted_take_drop [OF so(1) that] that split(2) by (metis IntI empty_iff order_le_imp_less_or_eq)
  moreover have "f \<in> set (take k old)" if "fmlookup files f \<noteq> None" "fmlookup files' f = None" for f
    using that look by (auto split: if_splits)
  moreover have "g \<in> set (drop k old)" if "is_rotated base ext g" "fmlookup files' g \<noteq> None" for g
    using that new set_rotated_names [of base ext files'] by auto
  moreover have "is_rotated base ext f" if "f \<in> set (take k old)" for f
    using that st by (auto dest: in_set_takeD)
  ultimately show ?thesis
    unfolding Let_def files'_def [symmetric] old_def [symmetric] using look by (metis (no_types, lifting))
qed

definition demo_io :: log_io where
  "demo_io = \<lparr>li_mkdir = None, li_open = None, li_stat = None, li_rename = True, li_readdir = True,
     li_remove = (\<lambda>_. True), li_write = None\<rparr>"

theorem prune_keeps_newest_witness:
  "int (length (rotated_names ''a'' ''.log'' (pruneLocked demo_io ''a'' ''.log'' 1
     (fmupd ''a-1.log'' [] (fmupd ''a-2.log'' [] fmempty))))) =
   min 1 (int (length (rotated_names ''a'' ''.log'' (fmupd ''a-1.log'' [] (fmupd ''a-2.log'' [] fmempty)))))"
  using prune_keeps_newest [of demo_io 1 "''a''" "''.log''" "fmupd ''a-1.log'' [] (fmupd ''a-2.log'' [] fmempty)"]
  by (simp add: demo_io_def Let_def)

section \<open>The size of the active file\<close>

lemma HasSuffix_iff: "HasSuffix s p \<longleftrightarrow> (\<exists>t. s = t @ p)"
  by (auto simp: HasSuffix_def HasPrefix_iff) (metis rev_append rev_rev_ident)

lemma base_ext: "base_name name @ Ext name = name"
  by (auto simp: base_name_def Ext_def split: option.splits dest!: CutLast_Some)

lemma active_not_rotated: "\<not> is_rotated (base_name name) (Ext name) name"
proof
  assume "is_rotated (base_name name) (Ext name) name"
  then obtain t where "name = base_name name @ ''-'' @ t" by (auto simp: is_rotated_def HasPrefix_iff)
  then have "Ext name = CHR ''-'' # t" using base_ext [of name] by (metis append_Cons append_Nil same_append_eq)
  then show False by (auto simp: Ext_def split: option.splits)
qed

lemma prune_other: "\<not> is_rotated base ext f \<Longrightarrow> fmlookup (pruneLocked io base ext n files) f = fmlookup files f"
proof -
  assume nr: "\<not> is_rotated base ext f"
  have "f \<notin> set names \<Longrightarrow> fmlookup (fold (remove_file io) names fs) f = fmlookup fs f" for names fs
    by (induction names arbitrary: fs) (auto simp: remove_file_def)
  moreover have "f \<notin> set (take k (rotated_names base ext files))" for k
    using nr set_rotated_names [of base ext files] by (auto dest: in_set_takeD)
  ultimately show ?thesis by (simp add: pruneLocked_def Let_def)
qed

definition log_ok :: "Logger \<Rightarrow> log_world \<Rightarrow> bool" where
  "log_ok l w \<longleftrightarrow> (lg_file l \<longrightarrow>
     (\<exists>c. fmlookup (lw_files w) (op_FileName (lg_opts l)) = Some c \<and> lg_size l = int (length c)))"

lemma openFile_ok: "openFile io (l, w) = (e, l', w') \<Longrightarrow> \<not> lg_file l \<Longrightarrow> log_ok l' w'"
  by (auto simp: openFile_def log_ok_def Let_def split: option.splits)

lemma New_ok: "Logger_New io opts w = (e, l, w') \<Longrightarrow> log_ok l w'"
  by (auto simp: Logger_New_def log_ok_def Let_def split: if_splits option.splits dest!: openFile_ok)

lemma rotate_fresh:
  assumes "lg_file l" and "li_open io = None" and "li_stat io = None"
    and "li_rename io \<or> li_remove io (op_FileName (lg_opts l))"
    and "rotateLocked io stamp (l, w) = (l', w')"
  shows "lg_file l' \<and> lg_size l' = 0 \<and> lg_opts l' = lg_opts l \<and> lg_maxSize l' = lg_maxSize l \<and>
    fmlookup (lw_files w') (op_FileName (lg_opts l)) = Some []"
proof -
  let ?a = "op_FileName (lg_opts l)"
  have "fmlookup (pruneLocked io (base_name ?a) (Ext ?a) n files) ?a = fmlookup files ?a" for n files
    by (rule prune_other) (rule active_not_rotated)
  then show ?thesis using assms
    by (auto simp: rotateLocked_def openFile_def remove_file_def Let_def split: option.splits if_splits)
qed

text \<open>
  as long as the file system obliges, a logged line is the end of the active file, the
  recorded size is the size of the file, and the file stays within the rotation limit
  unless it consists of this one line alone.
\<close>

theorem log_size_bounded:
  assumes "log_ok l w" and "lg_file l" and "\<not> lg_closed l" and "level_num (op_Level (lg_opts l)) \<le> level_num level"
    and "li_open io = None" and "li_stat io = None" and "li_write io = None"
    and "li_rename io \<or> li_remove io (op_FileName (lg_opts l))"
    and "logf io time stamp level msg (l, w) = (l', w')"
  shows "log_ok l' w' \<and> lg_file l' \<and>
    (\<exists>c. fmlookup (lw_files w') (op_FileName (lg_opts l)) = Some c \<and> suffix (log_line time level msg) c \<and>
       (int (length c) \<le> lg_maxSize l \<or> c = log_line time level msg))"
proof -
  let ?line = "log_line time level msg"
  define w1 where "w1 = (if lg_console l then w\<lparr>lw_console := lw_console w @ [?line]\<rparr> else w)"
  have f: "lw_files w1 = lw_files w" by (simp add: w1_def)
  show ?thesis
  proof (cases "lg_size l + int (length ?line) > lg_maxSize l")
    case True
    obtain l2 w2 where r: "rotateLocked io stamp (l, w1) = (l2, w2)" by (cases "rotateLocked io stamp (l, w1)")
    from rotate_fresh [OF assms(2,5,6,8) r] r True assms(2,3,4,7,9) show ?thesis
      by (auto simp: logf_def write_active_def Let_def w1_def [symmetric] log_ok_def)
  next
    case False
    with assms f show ?thesis
      by (auto simp: logf_def write_active_def Let_def w1_def [symmetric] log_ok_def suffix_def)
  qed
qed

theorem log_size_bounded_witness:
  "\<exists>l w l' w' c. logf demo_io ''t'' ''s'' LevelWarn ''hello'' (l, w) = (l', w') \<and> lg_maxSize l = 20 \<and>
     fmlookup (lw_files w') ''awgsocks.log'' = Some c \<and> length c \<le> 20 \<and> suffix (log_line ''t'' LevelWarn ''hello'') c"
proof -
  define l where "l = \<lparr>lg_opts = \<lparr>op_Dir = True, op_FileName = ''awgsocks.log'', op_Level = LevelInfo, op_MaxSizeBytes = 20,
     op_MaxFiles = 5, op_Console = False\<rparr>, lg_file = True, lg_size = 10, lg_console = False, lg_closed = False, lg_maxSize = 20,
     lg_maxFiles = 5\<rparr>"
  define w where "w = \<lparr>lw_files = fmupd ''awgsocks.log'' (replicate 10 (CHR ''x'')) fmempty, lw_console = []\<rparr>"
  obtain l' w' where r: "logf demo_io ''t'' ''s'' LevelWarn ''hello'' (l, w) = (l', w')"
    by (cases "logf demo_io ''t'' ''s'' LevelWarn ''hello'' (l, w)")
  have len: "length (log_line ''t'' LevelWarn ''hello'') = 15" by code_simp
  have "log_ok l w" by (simp add: log_ok_def l_def w_def)
  from log_size_bounded [OF this _ _ _ _ _ _ _ r] obtain c where
    c: "fmlookup (lw_files w') ''awgsocks.log'' = Some c" "suffix (log_line ''t'' LevelWarn ''hello'') c"
      "int (length c) \<le> 20 \<or> c = log_line ''t'' LevelWarn ''hello''"
    by (auto simp: l_def demo_io_def)
  then have "length c \<le> 20" using len by auto
  moreover have "lg_maxSize l = 20" by (simp add: l_def)
  ultimately show ?thesis using r c by blast
qed

section \<open>Rotating twice within a second\<close>

text \<open>
  The name of a rotated file has a resolution of one second: a second rotation with the
  same stamp replaces the file of the first, whose lines are lost.
\<close>

lemma rotation_overwrites:
  assumes "lg_file l" and "li_rename io" and "\<not> li_readdir io" and "li_open io = None" and "li_stat io = None"
    and "fmlookup (lw_files w) (op_FileName (lg_opts l)) = Some c"
    and "rotated = base_name (op_FileName (lg_opts l)) @ ''-'' @ stamp @ Ext (op_FileName (lg_opts l))"
    and "rotated \<noteq> op_FileName (lg_opts l)"
    and "fmlookup (lw_files w) rotated = Some earlier"
  shows "fmlookup (lw_files (snd (rotateLocked io stamp (l, w)))) rotated = Some c"
  using assms by (simp add: rotateLocked_def openFile_def pruneLocked_def Let_def)

end
