(* ===== verification/Service_Manager.thy ===== *)
theory Service_Manager
  imports Service_Conflict Awg_Tunnel_Props Config_App Socks5_Listener Logging_Log
begin

text \<open>
  The runtime (\<open>internal/service/manager.go\<close>): it owns the tunnel, the SOCKS5 server and
  the management pipe, steps aside while its configuration is connected through another
  client, retries a start that failed, and applies a changed configuration.

  The operations are functions on the manager's state and the outside world. The
  goroutines of \<open>retryStart\<close> are part of the state: the context, delay and attempt of
  each, under its generation.
\<close>

section \<open>State\<close>

record ('w, 'd, 'n, 'p) menv =
  me_up :: "('w, 'd, 'n, 'p) upstream"
  me_app :: app_env
  me_confParse :: "string \<Rightarrow> string \<Rightarrow> goerr + conf_Config"
  me_pbase :: "string \<Rightarrow> string"
  me_nameValid :: "string \<Rightarrow> bool"
  me_os :: os_net
  me_list :: "'w \<Rightarrow> (goerr + hostAddress list) \<times> 'w"
  me_pipeStart :: "'w \<Rightarrow> goerr option \<times> 'w"
  me_watchStart :: "'w \<Rightarrow> goerr option \<times> 'w"
  me_now :: int

record retry =
  rt_cancelled :: bool
  rt_delay :: int
  rt_attempt :: nat

text \<open>\<open>m_ctx\<close> is nil, or the service's context with whether it is still alive.\<close>

record ('d, 'n) mgr =
  m_log :: Logger
  m_appCfgPath :: string
  m_app :: "App option"
  m_tunCfg :: "Tunnel option"
  m_tunnel :: "('d, 'n) tun option"
  m_socks :: "Server option"
  m_pipe :: bool
  m_watcher :: bool
  m_started :: "int option"
  m_running :: bool
  m_ctx :: "bool option"
  m_tunnelWanted :: bool
  m_pausedBy :: "hostAddress option"
  m_retryCancel :: "nat option"
  m_retryGen :: nat
  m_retries :: "nat \<rightharpoonup> retry"
  m_retryWake :: bool

datatype mgr_err =
    ServiceRunning | ServiceNotRunning | Paused hostAddress | TunnelErr goerr
  | AppErr app_err | ConfErr load_err | BindErr string
  | ListenErr start_err | KeepListener start_err | ProxyDown string start_err
  | AppInvalid app_err | TunnelInvalid load_err

definition NewManager :: "Logger \<Rightarrow> string \<Rightarrow> ('d, 'n) mgr" where
  "NewManager log path =
     \<lparr>m_log = log, m_appCfgPath = path, m_app = None, m_tunCfg = None, m_tunnel = None, m_socks = None, m_pipe = False,
      m_watcher = False, m_started = None, m_running = False, m_ctx = None, m_tunnelWanted = False, m_pausedBy = None,
      m_retryCancel = None, m_retryGen = 0, m_retries = Map.empty, m_retryWake = False\<rparr>"

definition tunnel_running :: "('d, 'n) mgr \<Rightarrow> bool" where
  "tunnel_running m \<longleftrightarrow> (case m_tunnel m of None \<Rightarrow> False | Some t \<Rightarrow> tn_running t)"

section \<open>Retrying\<close>

definition startRetryMin :: int where "startRetryMin = 1000000000"
definition startRetryMax :: int where "startRetryMax = 60000000000"

definition cancelCtx :: "nat \<Rightarrow> ('d, 'n) mgr \<Rightarrow> ('d, 'n) mgr" where
  "cancelCtx g m =
     (case m_retries m g of
        None \<Rightarrow> m
      | Some r \<Rightarrow> m\<lparr>m_retries := (m_retries m)(g \<mapsto> r\<lparr>rt_cancelled := True\<rparr>)\<rparr>)"

definition retryStart :: "bool \<Rightarrow> ('d, 'n) mgr \<Rightarrow> ('d, 'n) mgr" where
  "retryStart alive m =
     (let m1 = (case m_retryCancel m of None \<Rightarrow> m | Some g \<Rightarrow> cancelCtx g m);
          gen = m_retryGen m1 + 1
      in m1\<lparr>m_retryGen := gen, m_retryCancel := Some gen,
            m_retries := (m_retries m1)(gen \<mapsto> \<lparr>rt_cancelled = \<not> alive, rt_delay = startRetryMin, rt_attempt = 2\<rparr>)\<rparr>)"

definition wakeRetry :: "('d, 'n) mgr \<Rightarrow> ('d, 'n) mgr" where
  "wakeRetry m = m\<lparr>m_retryWake := True\<rparr>"

definition cancelRetry :: "('d, 'n) mgr \<Rightarrow> ('d, 'n) mgr" where
  "cancelRetry m =
     (case m_retryCancel m of
        None \<Rightarrow> m
      | Some g \<Rightarrow> cancelCtx g (m\<lparr>m_retryCancel := None\<rparr>))"

definition clearRetry :: "nat \<Rightarrow> ('d, 'n) mgr \<Rightarrow> ('d, 'n) mgr" where
  "clearRetry gen m =
     (let m1 = cancelCtx gen m in
      if m_retryGen m1 = gen then m1\<lparr>m_retryCancel := None\<rparr> else m1)"

definition RetryPending :: "('d, 'n) mgr \<Rightarrow> bool" where
  "RetryPending m \<longleftrightarrow> m_retryCancel m \<noteq> None"

text \<open>The goroutine of a generation returns, running its deferred \<open>clearRetry\<close>.\<close>

definition retry_exit :: "nat \<Rightarrow> ('d, 'n) mgr \<Rightarrow> ('d, 'n) mgr" where
  "retry_exit gen m = (let m1 = clearRetry gen m in m1\<lparr>m_retries := (m_retries m1)(gen := None)\<rparr>)"

section \<open>Starting the tunnel\<close>

text \<open>
  One attempt, in two parts: the decision under \<open>startMu\<close> and the start itself, which
  runs under the same lock but not under \<open>mu\<close>.
\<close>

datatype admission = Refused mgr_err | NothingToDo | Proceed

definition start_admit :: "('d, 'n) mgr \<Rightarrow> admission" where
  "start_admit m =
     (case m_tunnel m of
        None \<Rightarrow> Refused ServiceNotRunning
      | Some t \<Rightarrow>
          (case m_pausedBy m of
             Some h \<Rightarrow> Refused (Paused h)
           | None \<Rightarrow> if tn_running t then NothingToDo else Proceed))"

definition start_build ::
  "('w, 'd, 'n, 'p) upstream \<Rightarrow> int \<Rightarrow> ('d, 'n) mgr \<times> 'w \<Rightarrow> mgr_err option \<times> ('d, 'n) mgr \<times> 'w" where
  "start_build up now mw =
     (case mw of (m, w) \<Rightarrow>
        case m_tunnel m of
          None \<Rightarrow> (Some ServiceNotRunning, m, w)
        | Some t \<Rightarrow>
            (case Tunnel_Start up now (t, w) of
               (e, t', w') \<Rightarrow> (map_option TunnelErr e, m\<lparr>m_tunnel := Some t'\<rparr>, w')))"

definition startTunnelOnce ::
  "('w, 'd, 'n, 'p) upstream \<Rightarrow> int \<Rightarrow> ('d, 'n) mgr \<times> 'w \<Rightarrow> mgr_err option \<times> ('d, 'n) mgr \<times> 'w" where
  "startTunnelOnce up now mw =
     (case mw of (m, w) \<Rightarrow>
        case start_admit m of
          Refused e \<Rightarrow> (Some e, m, w)
        | NothingToDo \<Rightarrow> (None, m, w)
        | Proceed \<Rightarrow> start_build up now (m, w))"

definition stop_tunnel :: "('w, 'd, 'n, 'p) upstream \<Rightarrow> ('d, 'n) mgr \<times> 'w \<Rightarrow> ('d, 'n) mgr \<times> 'w" where
  "stop_tunnel up mw =
     (case mw of (m, w) \<Rightarrow>
        case m_tunnel m of
          None \<Rightarrow> (m, w)
        | Some t \<Rightarrow> (case Tunnel_Stop up (t, w) of (t', w') \<Rightarrow> (m\<lparr>m_tunnel := Some t'\<rparr>, w')))"

text \<open>What ends the wait of a retry: its context, a wake, or the timer.\<close>

datatype retry_event = CtxDone | Woken | TimerFired

definition retry_iter ::
  "('w, 'd, 'n, 'p) upstream \<Rightarrow> int \<Rightarrow> retry_event \<Rightarrow> nat \<Rightarrow> ('d, 'n) mgr \<times> 'w \<Rightarrow> ('d, 'n) mgr \<times> 'w" where
  "retry_iter up now ev gen mw =
     (case mw of (m, w) \<Rightarrow>
        if ev = CtxDone then (retry_exit gen m, w)
        else
          (let m1 = (if ev = Woken then m\<lparr>m_retryWake := False\<rparr> else m) in
           if tunnel_running m1 then (retry_exit gen m1, w)
           else (case startTunnelOnce up now (m1, w) of
               (e, m2, w2) \<Rightarrow>
                 (case m_retries m2 gen of
                    None \<Rightarrow> (m2, w2)
                  | Some r \<Rightarrow>
                      if rt_cancelled r then (retry_exit gen m2, w2)
                      else (case e of
                          None \<Rightarrow> (retry_exit gen m2, w2)
                        | Some (Paused h) \<Rightarrow> (retry_exit gen m2, w2)
                        | Some _ \<Rightarrow>
                            (m2\<lparr>m_retries := (m_retries m2)(gen \<mapsto>
                                r\<lparr>rt_delay := (if rt_delay r * 2 > startRetryMax then startRetryMax else rt_delay r * 2),
                                  rt_attempt := rt_attempt r + 1\<rparr>)\<rparr>, w2))))))"

section \<open>Stepping aside\<close>

definition pause ::
  "('w, 'd, 'n, 'p) upstream \<Rightarrow> hostAddress \<Rightarrow> ('d, 'n) mgr \<times> 'w \<Rightarrow> ('d, 'n) mgr \<times> 'w" where
  "pause up hit mw =
     (case mw of (m, w) \<Rightarrow> stop_tunnel up (cancelRetry (m\<lparr>m_pausedBy := Some hit\<rparr>), w))"

definition resume :: "('d, 'n) mgr \<Rightarrow> ('d, 'n) mgr" where
  "resume m =
     (let m1 = m\<lparr>m_pausedBy := None\<rparr> in
      case m_ctx m of
        None \<Rightarrow> m1
      | Some alive \<Rightarrow> if m_tunnelWanted m then retryStart alive m1 else m1)"

definition checkConflict ::
  "('w, 'd, 'n, 'p) upstream \<Rightarrow> ('w \<Rightarrow> (goerr + hostAddress list) \<times> 'w) \<Rightarrow> ('d, 'n) mgr \<times> 'w \<Rightarrow> bool \<times> ('d, 'n) mgr \<times> 'w" where
  "checkConflict up list mw =
     (case mw of (m, w) \<Rightarrow>
        case (m_tunCfg m, m_tunnel m) of
          (Some cfg, Some t) \<Rightarrow>
            (case list w of
               (Inl e, w1) \<Rightarrow> (m_pausedBy m \<noteq> None, m, w1)
             | (Inr host, w1) \<Rightarrow>
                 (case (configConflict (t_Prefixes cfg) host, m_pausedBy m) of
                    (Some hit, None) \<Rightarrow> (True, pause up hit (m, w1))
                  | (Some hit, Some _) \<Rightarrow> (True, m\<lparr>m_pausedBy := Some hit\<rparr>, w1)
                  | (None, Some was) \<Rightarrow> (False, resume m, w1)
                  | (None, None) \<Rightarrow> (False, m, w1)))
        | _ \<Rightarrow> (False, m, w))"

definition networkChanged ::
  "('w, 'd, 'n, 'p) menv \<Rightarrow> ('d, 'n) mgr \<times> 'w \<Rightarrow> ('d, 'n) mgr \<times> 'w" where
  "networkChanged env mw = snd (checkConflict (me_up env) (me_list env) mw)"

definition request_reconnect :: "('d, 'n) mgr \<Rightarrow> ('d, 'n) mgr" where
  "request_reconnect m = m\<lparr>m_tunnel := map_option Reconnect (m_tunnel m)\<rparr>"

definition networkSettled ::
  "('w, 'd, 'n, 'p) menv \<Rightarrow> ('d, 'n) mgr \<times> 'w \<Rightarrow> ('d, 'n) mgr \<times> 'w" where
  "networkSettled env mw =
     (case checkConflict (me_up env) (me_list env) mw of
        (True, m, w) \<Rightarrow> (m, w)
      | (False, m, w) \<Rightarrow> (if tunnel_running m then request_reconnect m else wakeRetry m, w))"

definition OnPowerResume :: "('d, 'n) mgr \<Rightarrow> ('d, 'n) mgr" where
  "OnPowerResume m = (if tunnel_running m then request_reconnect m else m)"

definition PausedBy :: "('d, 'n) mgr \<Rightarrow> hostAddress option" where
  "PausedBy m = m_pausedBy m"

section \<open>Starting and stopping the service\<close>

definition cancel_service :: "('d, 'n) mgr \<Rightarrow> ('d, 'n) mgr" where
  "cancel_service m = m\<lparr>m_ctx := Some False, m_retries := (\<lambda>g. map_option (\<lambda>r. r\<lparr>rt_cancelled := True\<rparr>) (m_retries m g))\<rparr>"

text \<open>
  The SOCKS5 server after \<open>Stop\<close> has returned: no session is left (shown for the
  listener's steps) and the latch keeps it closed.
\<close>

definition Server_Stop :: "Server \<Rightarrow> Server" where
  "Server_Stop s =
     (if s_closing s then s
      else s\<lparr>s_closing := True, s_ln := None, s_active := {}, s_started := False, statActive := 0\<rparr>)"

text \<open>The first start of a tunnel that is meant to be up.\<close>

definition auto_start ::
  "('w, 'd, 'n, 'p) menv \<Rightarrow> ('d, 'n) mgr \<times> 'w \<Rightarrow> ('d, 'n) mgr \<times> 'w" where
  "auto_start env mw =
     (case checkConflict (me_up env) (me_list env) mw of
        (_, m1, w1) \<Rightarrow>
          (case startTunnelOnce (me_up env) (me_now env) (m1, w1) of
             (None, m2, w2) \<Rightarrow> (m2, w2)
           | (Some (Paused h), m2, w2) \<Rightarrow> (m2, w2)
           | (Some _, m2, w2) \<Rightarrow> (retryStart True m2, w2)))"

definition set_level :: "App \<Rightarrow> ('d, 'n) mgr \<Rightarrow> ('d, 'n) mgr" where
  "set_level app m = (case ParseLevel (a_LogLevel app) of None \<Rightarrow> m | Some lvl \<Rightarrow> m\<lparr>m_log := SetLevel lvl (m_log m)\<rparr>)"

definition adopt ::
  "('w, 'd, 'n, 'p) menv \<Rightarrow> App \<Rightarrow> Tunnel \<Rightarrow> BindMode \<Rightarrow> ('d, 'n) mgr \<Rightarrow> ('d, 'n) mgr" where
  "adopt env app tunCfg mode m =
     m\<lparr>m_app := Some app, m_tunCfg := Some tunCfg, m_tunnel := Some (NewWithBind (Some tunCfg) mode),
       m_socks := Some (NewWithOptions (a_Socks5Listen app) (a_MaxConnections app) (UDPEnabled app)),
       m_ctx := Some True, m_started := Some (me_now env), m_running := True, m_tunnelWanted := a_AutoStart app\<rparr>"

text \<open>Binding the listener and what follows it.\<close>

definition open_listener ::
  "('w, 'd, 'n, 'p) menv \<Rightarrow> Server \<Rightarrow> ('d, 'n) mgr \<times> 'w \<Rightarrow> mgr_err option \<times> ('d, 'n) mgr \<times> 'w" where
  "open_listener env socks mw =
     (case mw of (m, w) \<Rightarrow>
        case Start (me_os env) socks of
          (Inl e, _) \<Rightarrow>
            (case stop_tunnel (me_up env) (cancel_service m, w) of
               (m1, w1) \<Rightarrow> (Some (ListenErr e), m1\<lparr>m_running := False\<rparr>, w1))
        | (Inr _, s') \<Rightarrow>
            (let m1 = m\<lparr>m_socks := Some s'\<rparr> in
             case me_pipeStart env w of (pe, w1) \<Rightarrow>
               (case me_watchStart env w1 of (we, w2) \<Rightarrow>
                  (None, m1\<lparr>m_pipe := (pe = None), m_watcher := (m_watcher m1 \<or> we = None)\<rparr>, w2))))"

definition Manager_Start ::
  "('w, 'd, 'n, 'p) menv \<Rightarrow> ('d, 'n) mgr \<times> 'w \<Rightarrow> mgr_err option \<times> ('d, 'n) mgr \<times> 'w" where
  "Manager_Start env mw =
     (case mw of (m, w) \<Rightarrow>
        if m_running m then (Some ServiceRunning, m, w)
        else (case LoadApp (me_app env) (m_appCfgPath m) of
            Inl e \<Rightarrow> (Some (AppErr e), m, w)
          | Inr app \<Rightarrow>
              (let m1 = set_level app m in
               case LoadTunnel (me_app env) (me_confParse env) (me_pbase env) (me_nameValid env) (a_ConfigPath app) of
                 Inl e \<Rightarrow> (Some (ConfErr e), m1, w)
               | Inr tunCfg \<Rightarrow>
                   (case ParseBindMode (a_UDPBind app) of
                      None \<Rightarrow> (Some (BindErr (a_UDPBind app)), m1, w)
                    | Some mode \<Rightarrow>
                        (let m2 = adopt env app tunCfg mode m1 in
                         open_listener env (NewWithOptions (a_Socks5Listen app) (a_MaxConnections app) (UDPEnabled app))
                           (if a_AutoStart app then auto_start env (m2, w) else (m2, w)))))))"

text \<open>
  What \<open>wg.Wait\<close> leaves once every context is cancelled: each retry has returned through
  its deferred \<open>clearRetry\<close>.
\<close>

definition wait_retries :: "('d, 'n) mgr \<Rightarrow> ('d, 'n) mgr" where
  "wait_retries m =
     m\<lparr>m_retryCancel := (if m_retries m (m_retryGen m) \<noteq> None then None else m_retryCancel m), m_retries := Map.empty\<rparr>"

definition Manager_Stop ::
  "('w, 'd, 'n, 'p) upstream \<Rightarrow> ('d, 'n) mgr \<times> 'w \<Rightarrow> ('d, 'n) mgr \<times> 'w" where
  "Manager_Stop up mw =
     (case mw of (m, w) \<Rightarrow>
        if \<not> m_running m then (m, w)
        else
          (let m1 = m\<lparr>m_running := False, m_pipe := False, m_socks := map_option Server_Stop (m_socks m), m_watcher := False\<rparr>
           in stop_tunnel up (wait_retries (cancel_service m1), w)))"

section \<open>Commands\<close>

definition StartTunnel ::
  "('w, 'd, 'n, 'p) upstream \<Rightarrow> int \<Rightarrow> ('d, 'n) mgr \<times> 'w \<Rightarrow> mgr_err option \<times> ('d, 'n) mgr \<times> 'w" where
  "StartTunnel up now mw =
     (case mw of (m, w) \<Rightarrow>
        case m_tunnel m of
          None \<Rightarrow> (Some ServiceNotRunning, m, w)
        | Some t \<Rightarrow>
            (let m1 = m\<lparr>m_tunnelWanted := True\<rparr> in
             if tn_running t then (None, m1, w) else startTunnelOnce up now (m1, w)))"

definition StopTunnel ::
  "('w, 'd, 'n, 'p) upstream \<Rightarrow> ('d, 'n) mgr \<times> 'w \<Rightarrow> mgr_err option \<times> ('d, 'n) mgr \<times> 'w" where
  "StopTunnel up mw =
     (case mw of (m, w) \<Rightarrow>
        case m_tunnel m of
          None \<Rightarrow> (Some ServiceNotRunning, m, w)
        | Some t \<Rightarrow> (None, stop_tunnel up (cancelRetry (m\<lparr>m_tunnelWanted := False\<rparr>), w)))"

definition Manager_Reconnect ::
  "('w, 'd, 'n, 'p) upstream \<Rightarrow> int \<Rightarrow> ('d, 'n) mgr \<times> 'w \<Rightarrow> mgr_err option \<times> ('d, 'n) mgr \<times> 'w" where
  "Manager_Reconnect up now mw =
     (case mw of (m, w) \<Rightarrow>
        case m_tunnel m of
          None \<Rightarrow> (Some ServiceNotRunning, m, w)
        | Some t \<Rightarrow> if \<not> tn_running t then StartTunnel up now (m, w) else (None, request_reconnect m, w))"

section \<open>Reloading\<close>

record reloadReport =
  rr_applied :: "string list"
  rr_atNextStart :: "string list"
  rr_needsRestart :: "string list"
  rr_sessionsCut :: bool
  rr_tunnelReapplied :: bool

definition reloadReport_String :: "reloadReport \<Rightarrow> string" where
  "reloadReport_String r =
     Go_Strings.Join ''\<newline>''
       ((if rr_applied r \<noteq> [] then [''applied: '' @ Go_Strings.Join '', '' (rr_applied r)]
         else [''no setting in config.json changed'']) @
        (if rr_sessionsCut r
         then [''the SOCKS5 listener was rebuilt, so proxy sessions that were open are now closed''] else []) @
        (if rr_tunnelReapplied r
         then [''the AmneziaWG configuration was re-applied and a fresh handshake was requested''] else []) @
        (if rr_atNextStart r \<noteq> [] then [''takes effect at the next service start: '' @ Go_Strings.Join '', '' (rr_atNextStart r)] else []) @
        (if rr_needsRestart r \<noteq> []
         then [''NOT applied, run `awgsocks restart` for it to take effect: '' @ Go_Strings.Join '', '' (rr_needsRestart r)] else []))"

definition fmt_t :: "bool \<Rightarrow> string" where
  "fmt_t b = (if b then ''true'' else ''false'')"

definition fmt_d :: "int \<Rightarrow> string" where
  "fmt_d n = (if n < 0 then ''-'' @ dec (nat (- n)) else dec (nat n))"

definition from_to :: "string \<Rightarrow> string \<Rightarrow> string \<Rightarrow> string" where
  "from_to what a b = what @ '' '' @ a @ '' -> '' @ b"

text \<open>The log level and the rotation limits; \<open>int64(mb)<<20\<close> keeps its width.\<close>

definition mb_bytes :: "int \<Rightarrow> int" where
  "mb_bytes mb = sint (push_bit 20 (word_of_int mb :: i64))"

definition reload_level :: "App option \<Rightarrow> App \<Rightarrow> string list" where
  "reload_level app newApp =
     (case (ParseLevel (a_LogLevel newApp), app) of
        (Some _, Some a) \<Rightarrow> if \<not> EqualFold_ascii (a_LogLevel newApp) (a_LogLevel a) then [''log_level''] else []
      | _ \<Rightarrow> [])"

definition reload_rotation :: "App option \<Rightarrow> App \<Rightarrow> Logger \<Rightarrow> string list \<times> Logger" where
  "reload_rotation app newApp l =
     (case app of
        None \<Rightarrow> ([], l)
      | Some a \<Rightarrow>
          if a_LogMaxSizeMB newApp \<noteq> a_LogMaxSizeMB a \<or> a_LogMaxFiles newApp \<noteq> a_LogMaxFiles a
          then ([''log_max_size_mb, log_max_files''], SetRotation (mb_bytes (a_LogMaxSizeMB newApp)) (a_LogMaxFiles newApp) l)
          else ([], l))"

text \<open>Why the listener has to be rebuilt, and rebuilding it.\<close>

definition listener_why :: "App \<Rightarrow> App \<Rightarrow> Server \<Rightarrow> string list" where
  "listener_why app newApp srv =
     (if a_Socks5Listen newApp \<noteq> a_Socks5Listen app
      then [from_to ''socks5_listen'' (a_Socks5Listen app) (a_Socks5Listen newApp)] else []) @
     (let want = ResolveMaxConns (a_MaxConnections newApp) in
      if want \<noteq> s_maxConns srv then [from_to ''max_connections'' (fmt_d (s_maxConns srv)) (fmt_d want)] else []) @
     (if UDPEnabled newApp \<noteq> s_udpEnabled srv
      then [from_to ''udp_associate'' (fmt_t (s_udpEnabled srv)) (fmt_t (UDPEnabled newApp))] else [])"

definition swap_listener :: "os_net \<Rightarrow> App \<Rightarrow> App \<Rightarrow> Server \<Rightarrow> ('d, 'n) mgr \<Rightarrow> mgr_err option \<times> ('d, 'n) mgr" where
  "swap_listener os app newApp srv m =
     (let newSocks = NewWithOptions (a_Socks5Listen newApp) (a_MaxConnections newApp) (UDPEnabled newApp) in
      if a_Socks5Listen newApp \<noteq> a_Socks5Listen app then
        (case Start os newSocks of
           (Inl e, _) \<Rightarrow> (Some (KeepListener e), m)
         | (Inr _, s') \<Rightarrow> (None, m\<lparr>m_socks := Some s'\<rparr>))
      else
        (case Start os newSocks of
           (Inl e, s') \<Rightarrow> (Some (ProxyDown (a_Socks5Listen newApp) e), m\<lparr>m_socks := Some s'\<rparr>)
         | (Inr _, s') \<Rightarrow> (None, m\<lparr>m_socks := Some s'\<rparr>)))"

definition reload_listener ::
  "os_net \<Rightarrow> App option \<Rightarrow> Server option \<Rightarrow> App \<Rightarrow> ('d, 'n) mgr \<Rightarrow> mgr_err option \<times> string list \<times> ('d, 'n) mgr" where
  "reload_listener os app srv newApp m =
     (case (app, srv) of
        (Some a, Some s) \<Rightarrow>
          (let why = listener_why a newApp s in
           if why = [] then (None, [], m)
           else (case swap_listener os a newApp s m of (e, m1) \<Rightarrow> (e, why, m1)))
      | _ \<Rightarrow> (None, [], m))"

definition bind_note :: "App option \<Rightarrow> App \<Rightarrow> string list" where
  "bind_note app newApp =
     (case app of
        None \<Rightarrow> []
      | Some a \<Rightarrow> if a_UDPBind newApp \<noteq> a_UDPBind a then [from_to ''udp_bind'' (a_UDPBind a) (a_UDPBind newApp)] else [])"

definition start_note :: "App option \<Rightarrow> App \<Rightarrow> string list" where
  "start_note app newApp =
     (case app of
        None \<Rightarrow> []
      | Some a \<Rightarrow> if a_AutoStart newApp \<noteq> a_AutoStart a
          then [from_to ''auto_start'' (fmt_t (a_AutoStart a)) (fmt_t (a_AutoStart newApp))] else [])"

text \<open>
  Once both files are read: the logger first, then the tunnel, the conflict its new
  addresses may start or end, the listener, and the notes.
\<close>

definition reload_apply ::
  "('w, 'd, 'n, 'p) menv \<Rightarrow> App \<Rightarrow> Tunnel \<Rightarrow> ('d, 'n) tun \<Rightarrow> ('d, 'n) mgr \<times> 'w
     \<Rightarrow> (mgr_err + reloadReport) \<times> ('d, 'n) mgr \<times> 'w" where
  "reload_apply env newApp newTun t mw =
     (case mw of (m, w) \<Rightarrow>
        case reload_rotation (m_app m) newApp (m_log (set_level newApp m)) of (rot, lg) \<Rightarrow>
          (let m1 = m\<lparr>m_log := lg\<rparr> in
           case Tunnel_Reload (me_up env) (me_now env) (Some newTun) (t, w) of
             (Inl e, t1, w1) \<Rightarrow> (Inl (TunnelErr e), m1\<lparr>m_tunnel := Some t1\<rparr>, w1)
           | (Inr _, t1, w1) \<Rightarrow>
               (case checkConflict (me_up env) (me_list env) (m1\<lparr>m_tunnel := Some t1, m_tunCfg := Some newTun\<rparr>, w1) of
                  (_, m2, w2) \<Rightarrow>
                    (case reload_listener (me_os env) (m_app m) (m_socks m) newApp m2 of
                       (Some e, _, m3) \<Rightarrow> (Inl e, m3, w2)
                     | (None, why, m3) \<Rightarrow>
                         (Inr \<lparr>rr_applied = reload_level (m_app m) newApp @ rot @ why,
                               rr_atNextStart = start_note (m_app m) newApp,
                               rr_needsRestart = bind_note (m_app m) newApp,
                               rr_sessionsCut = (why \<noteq> []), rr_tunnelReapplied = True\<rparr>,
                          m3\<lparr>m_app := Some newApp\<rparr>, w2)))))"

definition Manager_Reload ::
  "('w, 'd, 'n, 'p) menv \<Rightarrow> ('d, 'n) mgr \<times> 'w \<Rightarrow> (mgr_err + reloadReport) \<times> ('d, 'n) mgr \<times> 'w" where
  "Manager_Reload env mw =
     (case mw of (m, w) \<Rightarrow>
        case m_tunnel m of
          None \<Rightarrow> (Inl ServiceNotRunning, m, w)
        | Some t \<Rightarrow>
            (case LoadApp (me_app env) (m_appCfgPath m) of
               Inl e \<Rightarrow> (Inl (AppInvalid e), m, w)
             | Inr newApp \<Rightarrow>
                 (case LoadTunnel (me_app env) (me_confParse env) (me_pbase env) (me_nameValid env) (a_ConfigPath newApp) of
                    Inl e \<Rightarrow> (Inl (TunnelInvalid e), m, w)
                  | Inr newTun \<Rightarrow> reload_apply env newApp newTun t (m, w))))"

text \<open>The text a reload hands back to the management pipe.\<close>

definition Reload :: "('w, 'd, 'n, 'p) menv \<Rightarrow> ('d, 'n) mgr \<times> 'w \<Rightarrow> (mgr_err + string) \<times> ('d, 'n) mgr \<times> 'w" where
  "Reload env mw = (case Manager_Reload env mw of (x, mw1) \<Rightarrow> (map_sum id reloadReport_String x, mw1))"

end
