(* ===== verification/Service_Manager_Props.thy ===== *)
theory Service_Manager_Props
  imports Service_Manager
begin

text \<open>
  What the manager guarantees: the invariant of its state under every command, network
  event and wakeup of a retry, operation by operation, and a concrete service that the
  properties of the manager are tried on.
\<close>

section \<open>The invariant\<close>

text \<open>The tunnel's half: a paused tunnel is down, and the recorded configuration is the tunnel's.\<close>

definition tun_part :: "('d, 'n) mgr \<Rightarrow> bool" where
  "tun_part m \<longleftrightarrow>
     (case m_tunnel m of
        None \<Rightarrow> \<not> m_running m
      | Some t \<Rightarrow> tun_inv t \<and> m_tunCfg m \<noteq> None \<and> tn_cfg t = m_tunCfg m \<and> (m_pausedBy m \<noteq> None \<longrightarrow> \<not> tn_running t)) \<and>
     (m_running m \<longleftrightarrow> m_ctx m = Some True) \<and> (m_running m \<longrightarrow> m_app m \<noteq> None \<and> m_socks m \<noteq> None)"

text \<open>
  The retries' half: the only retry that is not cancelled is the recorded one, so that
  cancelling the recorded one leaves none.
\<close>

definition retry_ok :: "('d, 'n) mgr \<Rightarrow> nat \<Rightarrow> retry \<Rightarrow> bool" where
  "retry_ok m g r \<longleftrightarrow>
     g \<le> m_retryGen m \<and> (\<not> rt_cancelled r \<longrightarrow> m_retryCancel m = Some g \<and> m_ctx m = Some True) \<and>
     startRetryMin \<le> rt_delay r \<and> rt_delay r \<le> startRetryMax"

definition retry_part :: "('d, 'n) mgr \<Rightarrow> bool" where
  "retry_part m \<longleftrightarrow>
     (\<forall>g r. m_retries m g = Some r \<longrightarrow> retry_ok m g r) \<and>
     (\<forall>g. m_retryCancel m = Some g \<longrightarrow> g = m_retryGen m \<and> m_retries m g \<noteq> None) \<and>
     (m_pausedBy m \<noteq> None \<longrightarrow> m_retryCancel m = None)"

definition mgr_inv :: "('d, 'n) mgr \<Rightarrow> bool" where
  "mgr_inv m \<longleftrightarrow> tun_part m \<and> retry_part m"

lemmas retry_consts = startRetryMin_def startRetryMax_def

lemma mgr_inv_New: "mgr_inv (NewManager l p)"
  by (simp add: mgr_inv_def tun_part_def retry_part_def NewManager_def)

subsection \<open>Retries\<close>

lemma retry_frame [simp]:
  "m_tunnel (cancelCtx g m) = m_tunnel m" "m_tunCfg (cancelCtx g m) = m_tunCfg m" "m_app (cancelCtx g m) = m_app m"
  "m_socks (cancelCtx g m) = m_socks m" "m_running (cancelCtx g m) = m_running m" "m_ctx (cancelCtx g m) = m_ctx m"
  "m_pausedBy (cancelCtx g m) = m_pausedBy m" "m_retryGen (cancelCtx g m) = m_retryGen m"
  "m_retryCancel (cancelCtx g m) = m_retryCancel m" "m_log (cancelCtx g m) = m_log m"
  "m_tunnelWanted (cancelCtx g m) = m_tunnelWanted m"
  by (simp_all add: cancelCtx_def split: option.split)

lemma cancelCtx_retries:
  "m_retries (cancelCtx g m) h = (if h = g then map_option (rt_cancelled_update (\<lambda>_. True)) (m_retries m h) else m_retries m h)"
  by (simp add: cancelCtx_def split: option.split)

lemma retryStart_frame [simp]:
  "m_ctx (retryStart b m) = m_ctx m" "m_running (retryStart b m) = m_running m" "m_socks (retryStart b m) = m_socks m"
  "m_app (retryStart b m) = m_app m" "m_tunCfg (retryStart b m) = m_tunCfg m" "m_tunnel (retryStart b m) = m_tunnel m"
  "m_pausedBy (retryStart b m) = m_pausedBy m" "m_tunnelWanted (retryStart b m) = m_tunnelWanted m"
  by (simp_all add: retryStart_def Let_def split: option.split)

lemma tun_part_frame [simp]:
  "tun_part (cancelCtx g m) = tun_part m" "tun_part (cancelRetry m) = tun_part m"
  "tun_part (retryStart b m) = tun_part m" "tun_part (clearRetry g m) = tun_part m" "tun_part (retry_exit g m) = tun_part m"
  "tun_part (m\<lparr>m_retries := rs\<rparr>) = tun_part m" "tun_part (m\<lparr>m_retryWake := b\<rparr>) = tun_part m"
  "tun_part (m\<lparr>m_log := l\<rparr>) = tun_part m" "tun_part (m\<lparr>m_tunnelWanted := b\<rparr>) = tun_part m"
  "tun_part (m\<lparr>m_pipe := b\<rparr>) = tun_part m" "tun_part (m\<lparr>m_watcher := b\<rparr>) = tun_part m"
  by (simp_all add: tun_part_def cancelRetry_def retryStart_def clearRetry_def retry_exit_def Let_def split: option.split)

lemma retry_part_frame [simp]:
  "retry_part (m\<lparr>m_tunnel := t\<rparr>) = retry_part m" "retry_part (m\<lparr>m_retryWake := b\<rparr>) = retry_part m"
  "retry_part (m\<lparr>m_log := l\<rparr>) = retry_part m" "retry_part (m\<lparr>m_tunnelWanted := b\<rparr>) = retry_part m"
  "retry_part (m\<lparr>m_tunCfg := c\<rparr>) = retry_part m" "retry_part (m\<lparr>m_app := a\<rparr>) = retry_part m"
  "retry_part (m\<lparr>m_socks := s\<rparr>) = retry_part m" "retry_part (m\<lparr>m_running := b\<rparr>) = retry_part m"
  "retry_part (m\<lparr>m_pipe := b\<rparr>) = retry_part m" "retry_part (m\<lparr>m_watcher := b\<rparr>) = retry_part m"
  "retry_part (m\<lparr>m_started := st\<rparr>) = retry_part m"
  by (simp_all add: retry_part_def retry_ok_def)

lemma retry_part_cancel:
  assumes "retry_part m"
  shows "retry_part (cancelRetry (m\<lparr>m_pausedBy := p\<rparr>))" and "m_retryCancel (cancelRetry m) = None"
proof -
  show "m_retryCancel (cancelRetry m) = None" by (simp add: cancelRetry_def split: option.split)
  show "retry_part (cancelRetry (m\<lparr>m_pausedBy := p\<rparr>))"
  proof (cases "m_retryCancel m")
    case None
    with assms show ?thesis by (simp add: cancelRetry_def retry_part_def retry_ok_def)
  next
    case (Some g)
    let ?m = "m\<lparr>m_pausedBy := p, m_retryCancel := None\<rparr>"
    have "retry_ok (cancelCtx g ?m) h r'" if "m_retries (cancelCtx g ?m) h = Some r'" for h r'
    proof -
      from that obtain r where r: "m_retries m h = Some r" "r' = r \<and> h \<noteq> g \<or> r' = r\<lparr>rt_cancelled := True\<rparr> \<and> h = g"
        by (auto simp: cancelCtx_retries split: if_splits)
      with assms Some show ?thesis by (auto simp: retry_part_def retry_ok_def)
    qed
    with Some show ?thesis by (simp add: cancelRetry_def retry_part_def)
  qed
qed

lemma retry_part_start:
  assumes p: "retry_part m" and c: "alive \<longrightarrow> m_ctx m = Some True" and np: "m_pausedBy m = None"
  shows "retry_part (retryStart alive m)"
proof -
  define m1 where "m1 = (case m_retryCancel m of None \<Rightarrow> m | Some g \<Rightarrow> cancelCtx g m)"
  have f: "m_retryGen m1 = m_retryGen m" "m_ctx m1 = m_ctx m" "m_pausedBy m1 = m_pausedBy m"
    by (simp_all add: m1_def split: option.split)
  have live: "g \<le> m_retryGen m \<and> rt_cancelled r \<and> startRetryMin \<le> rt_delay r \<and> rt_delay r \<le> startRetryMax"
    if "m_retries m1 g = Some r" for g r
    using that p by (auto simp: m1_def cancelCtx_retries retry_part_def retry_ok_def split: option.splits if_splits)
  show ?thesis
    using live c np by (auto simp: retryStart_def m1_def [symmetric] Let_def retry_part_def retry_ok_def f retry_consts
        split: if_splits dest!: live)
qed

lemma retry_part_exit: "retry_part m \<Longrightarrow> retry_part (retry_exit g m)"
  by (auto simp: retry_exit_def clearRetry_def Let_def retry_part_def retry_ok_def cancelCtx_retries split: if_splits)

lemma retry_part_backoff:
  assumes "retry_part m" and "m_retries m g = Some r"
  shows "retry_part (m\<lparr>m_retries := (m_retries m)(g \<mapsto>
      r\<lparr>rt_delay := (if rt_delay r * 2 > startRetryMax then startRetryMax else rt_delay r * 2), rt_attempt := n\<rparr>)\<rparr>)"
proof -
  let ?d = "if rt_delay r * 2 > startRetryMax then startRetryMax else rt_delay r * 2"
  have ok: "retry_ok m g r" using assms by (auto simp: retry_part_def)
  then have "startRetryMin \<le> ?d \<and> ?d \<le> startRetryMax" by (auto simp: retry_ok_def retry_consts)
  with ok have "retry_ok m g (r\<lparr>rt_delay := ?d, rt_attempt := n\<rparr>)" by (simp only: retry_ok_def) simp
  with assms show ?thesis by (auto simp: retry_part_def retry_ok_def)
qed

lemma retry_part_service: "retry_part m \<Longrightarrow> retry_part (cancel_service m)"
  by (auto simp: cancel_service_def retry_part_def retry_ok_def)

subsection \<open>The tunnel\<close>

lemma tun_part_tunnel:
  assumes "tun_part m" and "m_tunnel m = Some t" and "tun_inv t'" and "tn_cfg t' = tn_cfg t"
    and "m_pausedBy m \<noteq> None \<Longrightarrow> \<not> tn_running t'"
  shows "tun_part (m\<lparr>m_tunnel := Some t'\<rparr>)"
  using assms by (auto simp: tun_part_def)

lemma Stop_cfg: "Tunnel_Stop up (t, w) = (t', w') \<Longrightarrow> tn_cfg t' = tn_cfg t"
  by (auto simp: Tunnel_Stop_def Stop_locked_def tun_defs Let_def split: if_splits)

lemma stop_tunnel_inv:
  assumes "mgr_inv m" and "stop_tunnel up (m, w) = (m', w')"
  shows "mgr_inv m'" and "\<not> tunnel_running m'"
proof -
  have "mgr_inv m' \<and> \<not> tunnel_running m'"
  proof (cases "m_tunnel m")
    case None
    with assms show ?thesis by (simp add: stop_tunnel_def tunnel_running_def)
  next
    case (Some t)
    obtain t1 w1 where s: "Tunnel_Stop up (t, w) = (t1, w1)" by (cases "Tunnel_Stop up (t, w)")
    have "tun_inv t" using assms(1) Some by (simp add: mgr_inv_def tun_part_def)
    with assms(1) Some Stop_cfg [OF s] Stop_not_running [OF s] tun_inv_Stop [OF _ s]
    have "tun_part (m\<lparr>m_tunnel := Some t1\<rparr>)" by (intro tun_part_tunnel) (auto simp: mgr_inv_def)
    with assms Some s Stop_not_running [OF s] show ?thesis
      by (auto simp: stop_tunnel_def tunnel_running_def mgr_inv_def)
  qed
  then show "mgr_inv m'" and "\<not> tunnel_running m'" by blast+
qed

lemma start_build_inv:
  assumes m: "mgr_inv m" and np: "m_pausedBy m = None" and b: "start_build up now (m, w) = (e, m', w')"
  shows "mgr_inv m'"
proof (cases "m_tunnel m")
  case None
  with m b show ?thesis by (simp add: start_build_def)
next
  case (Some t)
  obtain e1 t1 w1 where s: "Tunnel_Start up now (t, w) = (e1, t1, w1)" using prod_cases3 by blast
  have "tun_inv t" using m Some by (simp add: mgr_inv_def tun_part_def)
  with m Some np Start_frame(1) [OF s] tun_inv_Start [OF _ s]
  have "tun_part (m\<lparr>m_tunnel := Some t1\<rparr>)" by (intro tun_part_tunnel) (auto simp: mgr_inv_def)
  with m Some s b show ?thesis by (auto simp: start_build_def mgr_inv_def)
qed

lemma start_admit_Proceed: "start_admit m = Proceed \<longleftrightarrow> m_pausedBy m = None \<and> m_tunnel m \<noteq> None \<and> \<not> tunnel_running m"
  by (auto simp: start_admit_def tunnel_running_def split: option.splits)

lemma startTunnelOnce_inv:
  "mgr_inv m \<Longrightarrow> startTunnelOnce up now (m, w) = (e, m', w') \<Longrightarrow> mgr_inv m'"
  using start_admit_Proceed [of m]
  by (auto simp: startTunnelOnce_def split: admission.splits intro: start_build_inv)

text \<open>An attempt changes nothing of the manager but the tunnel.\<close>

lemma startTunnelOnce_frame:
  assumes "startTunnelOnce up now (m, w) = (e, m', w')"
  shows "m' = m\<lparr>m_tunnel := m_tunnel m'\<rparr>"
  using assms by (auto simp: startTunnelOnce_def start_build_def split: admission.splits option.splits prod.splits)

lemma startTunnelOnce_result:
  assumes "startTunnelOnce up now (m, w) = (e, m', w')"
  shows "e = None \<Longrightarrow> tunnel_running m'"
    and "e = Some (Paused h) \<Longrightarrow> m_pausedBy m = Some h \<and> m' = m"
  using assms
  by (auto simp: startTunnelOnce_def start_build_def start_admit_def tunnel_running_def
      split: option.splits prod.splits if_splits dest: Start_frame(2) [OF _ refl])

lemma mgr_inv_exit: "mgr_inv m \<Longrightarrow> mgr_inv (retry_exit g m)"
  by (simp add: mgr_inv_def retry_part_exit)

lemma retry_iter_inv:
  assumes m: "mgr_inv m" and i: "retry_iter up now ev g (m, w) = (m', w')"
  shows "mgr_inv m'"
proof -
  let ?m = "if ev = Woken then m\<lparr>m_retryWake := False\<rparr> else m"
  obtain e m2 w2 where s: "startTunnelOnce up now (?m, w) = (e, m2, w2)" using prod_cases3 by blast
  have 1: "mgr_inv ?m" using m by (simp add: mgr_inv_def)
  have 2: "mgr_inv m2" by (rule startTunnelOnce_inv [OF 1 s])
  have bo: "mgr_inv (m2\<lparr>m_retries := (m_retries m2)(g \<mapsto>
      r\<lparr>rt_delay := (if rt_delay r * 2 > startRetryMax then startRetryMax else rt_delay r * 2), rt_attempt := n\<rparr>)\<rparr>)"
    if "m_retries m2 g = Some r" for r n
    using 2 retry_part_backoff [OF _ that] by (simp add: mgr_inv_def)
  have "m' \<in> {retry_exit g m, retry_exit g ?m, retry_exit g m2, m2} \<or>
      (\<exists>r n. m_retries m2 g = Some r \<and> m' = m2\<lparr>m_retries := (m_retries m2)(g \<mapsto>
      r\<lparr>rt_delay := (if rt_delay r * 2 > startRetryMax then startRetryMax else rt_delay r * 2), rt_attempt := n\<rparr>)\<rparr>)"
    using i s by (auto simp: retry_iter_def Let_def split: if_splits option.splits mgr_err.splits)
  with m 1 2 bo show ?thesis by (auto intro: mgr_inv_exit)
qed

subsection \<open>Events\<close>

lemma tun_part_paused: "tun_part m \<Longrightarrow> \<not> tunnel_running m \<Longrightarrow> tun_part (m\<lparr>m_pausedBy := p\<rparr>)"
  by (auto simp: tun_part_def tunnel_running_def split: option.splits)

lemma tun_part_unpaused: "tun_part m \<Longrightarrow> tun_part (m\<lparr>m_pausedBy := None\<rparr>)"
  by (auto simp: tun_part_def split: option.splits)

lemma paused_down: "mgr_inv m \<Longrightarrow> m_pausedBy m \<noteq> None \<Longrightarrow> \<not> tunnel_running m"
  by (auto simp: mgr_inv_def tun_part_def tunnel_running_def split: option.splits)

text \<open>
  A pause marks first and stops second, so the invariant is broken in between; it is
  the stop that restores it.
\<close>

lemma pause_inv:
  assumes m: "mgr_inv m" and p: "pause up hit (m, w) = (m', w')"
  shows "mgr_inv m'"
proof -
  let ?m = "cancelRetry m"
  have 1: "mgr_inv ?m" using m retry_part_cancel(1) [of m "m_pausedBy m"] by (simp add: mgr_inv_def)
  have c: "cancelRetry (m\<lparr>m_pausedBy := Some hit\<rparr>) = ?m\<lparr>m_pausedBy := Some hit\<rparr>"
    by (simp add: cancelRetry_def cancelCtx_def split: option.split)
  obtain m1 w1 where s: "stop_tunnel up (?m, w) = (m1, w1)" by (cases "stop_tunnel up (?m, w)")
  have "stop_tunnel up (?m\<lparr>m_pausedBy := Some hit\<rparr>, w) = (m1\<lparr>m_pausedBy := Some hit\<rparr>, w1)"
    using s by (auto simp: stop_tunnel_def split: option.splits prod.splits)
  with p c have m': "m' = m1\<lparr>m_pausedBy := Some hit\<rparr>" by (simp add: pause_def)
  have "m_retryCancel m1 = None" using s retry_part_cancel(2) m
    by (auto simp: stop_tunnel_def mgr_inv_def split: option.splits prod.splits)
  with stop_tunnel_inv [OF 1 s] show ?thesis
    by (auto simp: m' mgr_inv_def retry_part_def retry_ok_def intro: tun_part_paused)
qed

lemma resume_inv: "mgr_inv m \<Longrightarrow> mgr_inv (resume m)"
proof -
  assume m: "mgr_inv m"
  have 1: "tun_part (m\<lparr>m_pausedBy := None\<rparr>)" "retry_part (m\<lparr>m_pausedBy := None\<rparr>)"
    using m by (auto simp: mgr_inv_def retry_part_def retry_ok_def intro: tun_part_unpaused)
  then show ?thesis
    by (auto simp: resume_def Let_def mgr_inv_def split: option.splits intro!: retry_part_start)
qed

lemma checkConflict_inv:
  assumes m: "mgr_inv m" and c: "checkConflict up ls (m, w) = (b, m', w')"
  shows "mgr_inv m'"
proof -
  have u: "mgr_inv (m\<lparr>m_pausedBy := Some h\<rparr>)" if "m_pausedBy m = Some h0" for h h0
    using m that paused_down [OF m] by (auto simp: mgr_inv_def retry_part_def retry_ok_def intro: tun_part_paused)
  show ?thesis
    using c m u
    by (auto simp: checkConflict_def split: option.splits prod.splits sum.splits intro: pause_inv resume_inv)
qed

lemma request_inv: "mgr_inv m \<Longrightarrow> mgr_inv (request_reconnect m)"
  by (auto simp: mgr_inv_def tun_part_def request_reconnect_def Reconnect_def split: option.splits)

lemma settled_inv: "mgr_inv m \<Longrightarrow> networkSettled env (m, w) = (m', w') \<Longrightarrow> mgr_inv m'"
proof -
  assume m: "mgr_inv m" and n: "networkSettled env (m, w) = (m', w')"
  obtain b m1 w1 where c: "checkConflict (me_up env) (me_list env) (m, w) = (b, m1, w1)" using prod_cases3 by blast
  have 1: "mgr_inv m1" by (rule checkConflict_inv [OF m c])
  with n c show ?thesis
    by (auto simp: networkSettled_def wakeRetry_def split: bool.splits if_splits intro: request_inv)
       (simp add: mgr_inv_def)
qed

subsection \<open>Starting and stopping\<close>

lemma checkConflict_ctx:
  assumes "checkConflict up ls (m, w) = (b, m', w')"
  shows "m_ctx m' = m_ctx m" and "m_running m' = m_running m" and "m_socks m' = m_socks m" and "m_app m' = m_app m"
    and "m_tunCfg m' = m_tunCfg m"
  using assms
  by (auto simp: checkConflict_def pause_def stop_tunnel_def resume_def cancelRetry_def Let_def
      split: option.splits prod.splits sum.splits if_splits)

lemma startTunnelOnce_ctx:
  assumes "startTunnelOnce up now (m, w) = (e, m', w')"
  shows "m_ctx m' = m_ctx m" and "m_running m' = m_running m" and "m_socks m' = m_socks m" and "m_app m' = m_app m"
    and "m_tunCfg m' = m_tunCfg m" and "m_pausedBy m' = m_pausedBy m"
  using arg_cong [OF startTunnelOnce_frame [OF assms], of m_ctx] arg_cong [OF startTunnelOnce_frame [OF assms], of m_running]
    arg_cong [OF startTunnelOnce_frame [OF assms], of m_socks] arg_cong [OF startTunnelOnce_frame [OF assms], of m_app]
    arg_cong [OF startTunnelOnce_frame [OF assms], of m_tunCfg] arg_cong [OF startTunnelOnce_frame [OF assms], of m_pausedBy]
  by simp_all

text \<open>An attempt that is not refused for a pause was made while not paused.\<close>

lemma startTunnelOnce_unpaused:
  assumes "startTunnelOnce up now (m, w) = (e, m', w')" and "m_pausedBy m = Some h" and "m_tunnel m \<noteq> None"
  shows "e = Some (Paused h)"
  using assms by (auto simp: startTunnelOnce_def start_admit_def)

lemma auto_start_inv:
  assumes m: "mgr_inv m" and ctx: "m_ctx m = Some True" and t: "m_tunnel m \<noteq> None" and a: "auto_start env (m, w) = (m', w')"
  shows "mgr_inv m' \<and> m_ctx m' = Some True \<and> m_running m' = m_running m \<and> m_socks m' = m_socks m \<and>
    m_app m' = m_app m \<and> m_tunCfg m' = m_tunCfg m"
proof -
  obtain b m1 w1 where c: "checkConflict (me_up env) (me_list env) (m, w) = (b, m1, w1)" using prod_cases3 by blast
  obtain e m2 w2 where s: "startTunnelOnce (me_up env) (me_now env) (m1, w1) = (e, m2, w2)" using prod_cases3 by blast
  note f = checkConflict_ctx [OF c] startTunnelOnce_ctx [OF s]
  have 1: "mgr_inv m1" by (rule checkConflict_inv [OF m c])
  have 2: "mgr_inv m2" by (rule startTunnelOnce_inv [OF 1 s])
  have t1: "m_tunnel m1 \<noteq> None" using c t
    by (auto simp: checkConflict_def pause_def stop_tunnel_def resume_def Let_def cancelRetry_def
        split: option.splits prod.splits sum.splits)
  have "mgr_inv (retryStart True m2)" if "\<And>h. e \<noteq> Some (Paused h)"
  proof -
    have "m_pausedBy m1 = None" using startTunnelOnce_unpaused [OF s _ t1] that by (cases "m_pausedBy m1") auto
    with 2 f ctx show ?thesis by (auto simp: mgr_inv_def intro!: retry_part_start)
  qed
  with a c s 2 f ctx show ?thesis
    by (auto simp: auto_start_def split: option.splits mgr_err.splits)
qed

lemma cancel_service_inv: "mgr_inv m \<Longrightarrow> mgr_inv (cancel_service (m\<lparr>m_running := False\<rparr>))"
  by (auto simp: mgr_inv_def intro!: retry_part_service)
     (auto simp: tun_part_def cancel_service_def split: option.splits)

lemma stopped_retries: "mgr_inv m \<Longrightarrow> \<not> m_running m \<Longrightarrow> m_retries m g = Some r \<Longrightarrow> rt_cancelled r"
  by (auto simp: mgr_inv_def tun_part_def retry_part_def retry_ok_def)

lemma open_listener_inv:
  assumes m: "mgr_inv m" and r: "open_listener env socks (m, w) = (e, m', w')"
  shows "mgr_inv m'"
proof (cases "Start (me_os env) socks")
  case (Pair x s')
  show ?thesis
  proof (cases x)
    case (Inr u)
    have "mgr_inv (m\<lparr>m_socks := Some s'\<rparr>)" using m by (auto simp: mgr_inv_def tun_part_def split: option.splits)
    with Inr Pair r show ?thesis by (auto simp: open_listener_def Let_def mgr_inv_def split: prod.splits)
  next
    case (Inl err)
    obtain m1 w1 where s: "stop_tunnel (me_up env) (cancel_service m, w) = (m1, w1)"
      by (cases "stop_tunnel (me_up env) (cancel_service m, w)")
    have "stop_tunnel (me_up env) (cancel_service (m\<lparr>m_running := False\<rparr>), w) = (m1\<lparr>m_running := False\<rparr>, w1)"
      using s by (auto simp: stop_tunnel_def cancel_service_def split: option.splits prod.splits)
    from stop_tunnel_inv(1) [OF cancel_service_inv [OF m] this] Inl Pair s r show ?thesis
      by (auto simp: open_listener_def)
  qed
qed

lemma adopt_inv:
  assumes m: "mgr_inv m" and r: "\<not> m_running m"
  shows "mgr_inv (adopt env app tunCfg mode m)"
  using m stopped_retries [OF m r] tun_inv_New [of "Some tunCfg" mode]
  by (auto simp: mgr_inv_def adopt_def retry_part_def retry_ok_def tun_part_def NewWithBind_def)

lemma set_level_inv [simp]: "mgr_inv (set_level app m) = mgr_inv m" "m_running (set_level app m) = m_running m"
  by (simp_all add: set_level_def mgr_inv_def split: option.split)

lemma Manager_Start_inv:
  assumes m: "mgr_inv m" and r: "Manager_Start env (m, w) = (e, m', w')"
  shows "mgr_inv m'"
proof -
  have 1: "mgr_inv (adopt env app tunCfg mode (set_level app m))" if "\<not> m_running m" for app tunCfg mode
    using m that by (intro adopt_inv) simp_all
  have 2: "mgr_inv m1" if "auto_start env (adopt env app tunCfg mode (set_level app m), w) = (m1, w1)" "\<not> m_running m"
    for app tunCfg mode m1 w1
    using auto_start_inv [OF 1 [OF that(2)] _ _ that(1)] by (simp add: adopt_def)
  show ?thesis
    using m r
    by (auto simp: Manager_Start_def Let_def split: if_splits sum.splits option.splits
        intro: open_listener_inv [OF 1] open_listener_inv [OF 2])
       (metis 2 open_listener_inv surj_pair)
qed

lemma wait_retries_inv: "mgr_inv m \<Longrightarrow> mgr_inv (wait_retries m)"
  by (auto simp: wait_retries_def mgr_inv_def tun_part_def retry_part_def split: option.splits)

lemma Manager_Stop_inv:
  assumes m: "mgr_inv m" and r: "Manager_Stop up (m, w) = (m', w')"
  shows "mgr_inv m'"
proof (cases "m_running m")
  case False
  with m r show ?thesis by (simp add: Manager_Stop_def)
next
  case True
  let ?m1 = "m\<lparr>m_running := False, m_pipe := False, m_socks := map_option Server_Stop (m_socks m), m_watcher := False\<rparr>"
  have "mgr_inv (cancel_service ?m1)"
    using m by (auto simp: mgr_inv_def intro!: retry_part_service)
      (auto simp: tun_part_def cancel_service_def split: option.splits)
  from stop_tunnel_inv(1) [OF wait_retries_inv [OF this]] True r show ?thesis
    by (auto simp: Manager_Stop_def Let_def)
qed

subsection \<open>Commands\<close>

lemma StartTunnel_inv: "mgr_inv m \<Longrightarrow> StartTunnel up now (m, w) = (e, m', w') \<Longrightarrow> mgr_inv m'"
  by (auto simp: StartTunnel_def Let_def mgr_inv_def split: option.splits if_splits
      dest!: startTunnelOnce_inv [rotated, unfolded mgr_inv_def])

lemma StopTunnel_inv:
  assumes m: "mgr_inv m" and r: "StopTunnel up (m, w) = (e, m', w')"
  shows "mgr_inv m'"
proof -
  have "mgr_inv (cancelRetry (m\<lparr>m_tunnelWanted := False\<rparr>))"
    using m retry_part_cancel(1) [of "m\<lparr>m_tunnelWanted := False\<rparr>" "m_pausedBy m"] by (simp add: mgr_inv_def)
  from stop_tunnel_inv(1) [OF this] m r show ?thesis by (auto simp: StopTunnel_def split: option.splits)
qed

lemma Reconnect_inv: "mgr_inv m \<Longrightarrow> Manager_Reconnect up now (m, w) = (e, m', w') \<Longrightarrow> mgr_inv m'"
  by (auto simp: Manager_Reconnect_def split: option.splits if_splits intro: StartTunnel_inv request_inv)

lemma reload_tunnel_inv:
  assumes m: "mgr_inv m" and t: "m_tunnel m = Some t" and r: "Tunnel_Reload up now (Some next) (t, w) = (x, t', w')"
  shows "mgr_inv (m\<lparr>m_tunnel := Some t', m_tunCfg := (case x of Inl _ \<Rightarrow> m_tunCfg m | Inr _ \<Rightarrow> Some next)\<rparr>)"
proof -
  have i: "tun_inv t" using m t by (simp add: mgr_inv_def tun_part_def)
  from Reload_outcome [OF i r] tun_inv_Reload [OF i r] m t show ?thesis
    by (auto simp: mgr_inv_def tun_part_def reload_outcome_def split: sum.splits)
qed

lemma swap_listener_inv: "mgr_inv m \<Longrightarrow> swap_listener os a b s m = (e, m') \<Longrightarrow> mgr_inv m'"
  by (auto simp: swap_listener_def Let_def mgr_inv_def tun_part_def split: if_splits prod.splits sum.splits option.splits)

lemma reload_listener_inv: "mgr_inv m \<Longrightarrow> reload_listener os a s b m = (e, why, m') \<Longrightarrow> mgr_inv m'"
  by (auto simp: reload_listener_def Let_def split: option.splits if_splits prod.splits intro: swap_listener_inv)

lemma mgr_inv_frame [simp]:
  "mgr_inv (m\<lparr>m_log := l\<rparr>) = mgr_inv m" "mgr_inv m \<Longrightarrow> mgr_inv (m\<lparr>m_app := Some a\<rparr>)"
  by (auto simp: mgr_inv_def tun_part_def split: option.splits)

lemma reload_apply_inv:
  assumes m: "mgr_inv m" and t: "m_tunnel m = Some t" and r: "reload_apply env newApp newTun t (m, w) = (x, m', w')"
  shows "mgr_inv m'"
proof -
  obtain rot lg where rot: "reload_rotation (m_app m) newApp (m_log (set_level newApp m)) = (rot, lg)"
    by (cases "reload_rotation (m_app m) newApp (m_log (set_level newApp m))")
  let ?m1 = "m\<lparr>m_log := lg\<rparr>"
  obtain y t1 w1 where tr: "Tunnel_Reload (me_up env) (me_now env) (Some newTun) (t, w) = (y, t1, w1)"
    using prod_cases3 by blast
  have 1: "mgr_inv (?m1\<lparr>m_tunnel := Some t1, m_tunCfg := (case y of Inl _ \<Rightarrow> m_tunCfg ?m1 | Inr _ \<Rightarrow> Some newTun)\<rparr>)"
    using m t by (intro reload_tunnel_inv [OF _ _ tr]) simp_all
  show ?thesis
  proof (cases y)
    case (Inl e)
    with 1 r rot tr show ?thesis by (auto simp: reload_apply_def Let_def)
  next
    case (Inr u)
    obtain b m2 w2 where c: "checkConflict (me_up env) (me_list env) (?m1\<lparr>m_tunnel := Some t1, m_tunCfg := Some newTun\<rparr>, w1) =
      (b, m2, w2)" using prod_cases3 by blast
    have 2: "mgr_inv m2" using checkConflict_inv [OF _ c] 1 Inr by simp
    obtain e why m3 where l: "reload_listener (me_os env) (m_app m) (m_socks m) newApp m2 = (e, why, m3)"
      using prod_cases3 by blast
    from reload_listener_inv [OF 2 l] r rot tr c l Inr show ?thesis
      by (auto simp: reload_apply_def Let_def split: option.splits)
  qed
qed

lemma Manager_Reload_inv: "mgr_inv m \<Longrightarrow> Manager_Reload env (m, w) = (x, m', w') \<Longrightarrow> mgr_inv m'"
  by (auto simp: Manager_Reload_def split: option.splits sum.splits intro: reload_apply_inv)

lemma New_fields [simp]:
  "s_closing (NewWithOptions l n u) = False" "s_listen (NewWithOptions l n u) = l"
  "s_maxConns (NewWithOptions l n u) = ResolveMaxConns n" "s_udpEnabled (NewWithOptions l n u) = u"
  by (simp_all add: NewWithOptions_def)

section \<open>A concrete service\<close>

definition demo_app :: "string \<Rightarrow> App" where
  "demo_app b = \<lparr>a_ConfigPath = ''c.conf'', a_Socks5Listen = ''127.0.0.1:1080'', a_AutoStart = True, a_LogLevel = ''info'',
     a_MaxConnections = 0, a_LogMaxSizeMB = 0, a_LogMaxFiles = 0, a_UDPAssociate = Some True, a_UDPBind = b, a_path = ''j''\<rparr>"

definition demo_files :: "string \<Rightarrow> app_env" where
  "demo_files b = demo_env\<lparr>ev_ReadFile := (\<lambda>p. Content (if p = ''c.conf'' then bytes_of_string demo_text else [])),
     ev_Decode := (\<lambda>t a. Inr (demo_app b))\<rparr>"

definition demo_menv :: "string \<Rightarrow> hostAddress list \<Rightarrow> (nat, nat, nat, nat) menv" where
  "demo_menv b hosts = \<lparr>me_up = demo_up, me_app = demo_files b, me_confParse = (\<lambda>text name. Inr demo_cfg), me_pbase = id,
     me_nameValid = (\<lambda>n. True), me_os = demo_os, me_list = (\<lambda>w. (Inr hosts, w)), me_pipeStart = (\<lambda>w. (None, w)),
     me_watchStart = (\<lambda>w. (None, w)), me_now = 5\<rparr>"

definition demo_log :: Logger where
  "demo_log = \<lparr>lg_opts = \<lparr>op_Dir = False, op_FileName = [], op_Level = LevelInfo, op_MaxSizeBytes = 1, op_MaxFiles = 1, op_Console = False\<rparr>,
     lg_file = False, lg_size = 0, lg_console = False, lg_closed = False, lg_maxSize = 1, lg_maxFiles = 1\<rparr>"

lemma demo_valid: "ValidateLoopbackListen ''127.0.0.1:1080'' = Inr ()"
proof -
  have "dec 127 = ''127''" "dec 0 = ''0''" "dec (Suc 0) = ''1''" by (simp_all add: dec.simps chr_def)
  then show ?thesis
    by (simp add: ValidateLoopbackListen_def splitHostPort_def ParseAddrPort_def splitAddrPort_def netip_eval string4_def)
qed

lemma demo_LoadApp_j: "b \<in> {''std'', ''rio''} \<Longrightarrow> LoadApp (demo_files b) ''j'' = Inr (demo_app b)"
  by (auto simp: LoadApp_def demo_files_def demo_env_def demo_app_def Normalize_def Let_def mapErr_def demo_valid orDefault_def
      TrimSpace_def ascii_space_def uspace2_def uspace3_def ascii_lower_def)

lemma demo_LoadTunnel:
  "\<exists>t. LoadTunnel (demo_files b) (\<lambda>text name. Inr demo_cfg) id (\<lambda>n. True) ''c.conf'' = Inr t \<and>
     t_Prefixes t = [PrefixFrom (Addr4 [10, 8, 0, 2]) 32]"
  by (simp add: LoadTunnel_def demo_files_def demo_env_def ParseTunnel_def Let_def decodeText_plain [OF demo_ascii] demo_scan_text
      demo_validate [unfolded demo_kv_def] mapErr_def
      applyMTU_def newTunnel_def perPacketOverhead_def demo_kv_def interfaceKeys_def SafeMTU_def DefaultMTU_def
      MinSafeMTU_def finalize_def demo_cfg_def AddrFromSlice_def PrefixFrom_def prefix_valid_def BitLen_def v4_loopback_def)

lemma demo_up_simps [simp]:
  "up_CreateNetTUN demo_up as ds mtu w = (Inr w, w + 1)" "up_NewDevice demo_up n b w = (w, w + 1)"
  "up_ToUAPI demo_up cfg w = (UapiDone ''k'', w)" "up_IpcSet demo_up d u w = (None, w)" "up_Up demo_up d w = (None, w)"
  "up_FromHex demo_up h = Inr h" "up_DialUDP demo_up n a w = (Inr w, w)" "up_ConnWrite demo_up c x w = (Inr (length x), w)"
  "up_PacketClose demo_up c w = w" "up_DevClose demo_up d w = w" "up_Keepalive demo_up d k w = w"
  by (simp_all add: demo_up_def)

lemma demo_peerKeys: "\<exists>ks. peerKeys_loop demo_up n ps = Inr ks"
proof (induction ps arbitrary: n)
  case (Cons p ps)
  obtain ks where "peerKeys_loop demo_up (n + 1) ps = Inr ks" using Cons by blast
  then show ?case by simp
qed simp

lemma demo_build: "\<exists>d n ks w'. buildDevice demo_up cfg mode w = (Inr (d, n, ks), w')"
  using demo_peerKeys [of 0 "cf_Peers (t_Config cfg)"]
  by (auto simp: buildDevice_def toUAPI_def peerKeys_def primeTransportPadding_def Let_def)

lemma demo_start_any:
  assumes "\<not> tn_running t" and "tn_cfg t = Some c"
  shows "\<exists>t' w'. Tunnel_Start demo_up now (t, w) = (None, t', w') \<and> tn_running t'"
proof -
  obtain d n ks w' where "buildDevice demo_up c (tn_bind t) w = (Inr (d, n, ks), w')" using demo_build by blast
  with assms show ?thesis by (simp add: Tunnel_Start_def Let_def)
qed

lemma demo_Listen:
  "Start demo_os (NewWithOptions ''127.0.0.1:1080'' 0 True) =
     (Inr (), (NewWithOptions ''127.0.0.1:1080'' 0 True)\<lparr>s_ln := Some ''127.0.0.1:1080'', s_started := True\<rparr>)"
  by (simp add: Start_def demo_listen v4_loopback_def demo_os_def)

lemma demo_service:
  "\<exists>m w c. Manager_Start (demo_menv ''std'' []) (NewManager demo_log ''j'', 0) = (None, m, w) \<and> tunnel_running m \<and>
     m_running m \<and> m_pausedBy m = None \<and> m_tunCfg m = Some c \<and> t_Prefixes c = [PrefixFrom (Addr4 [10, 8, 0, 2]) 32] \<and>
     m_app m = Some (demo_app ''std'') \<and> m_appCfgPath m = ''j'' \<and> m_tunnelWanted m"
proof -
  obtain c where c: "LoadTunnel (demo_files ''std'') (\<lambda>text name. Inr demo_cfg) id (\<lambda>n. True) ''c.conf'' = Inr c"
    "t_Prefixes c = [PrefixFrom (Addr4 [10, 8, 0, 2]) 32]" using demo_LoadTunnel by blast
  obtain t w1 where t: "Tunnel_Start demo_up 5 (NewWithBind (Some c) BindStd, 0) = (None, t, w1)" "tn_running t"
    using demo_start_any [of "NewWithBind (Some c) BindStd" c 5 0] by (auto simp: NewWithBind_def)
  have l: "LoadApp (demo_files ''std'') ''j'' = Inr (demo_app ''std'')" by (simp add: demo_LoadApp_j)
  have b: "ParseBindMode ''std'' = Some BindStd"
    by (simp add: ParseBindMode_def TrimSpace_def ascii_space_def uspace2_def uspace3_def ascii_lower_def Let_def)
  define M where "M = adopt (demo_menv ''std'' []) (demo_app ''std'') c BindStd (set_level (demo_app ''std'') (NewManager demo_log ''j''))"
  have M: "m_tunCfg M = Some c" "m_tunnel M = Some (NewWithBind (Some c) BindStd)" "m_pausedBy M = None" "m_running M"
    "m_app M = Some (demo_app ''std'')" "m_appCfgPath M = ''j''" "m_tunnelWanted M"
    by (simp_all add: M_def adopt_def set_level_def NewManager_def demo_app_def split: option.split)
  have "start_admit M = Proceed" using M by (simp add: start_admit_def NewWithBind_def)
  then have a: "auto_start (demo_menv ''std'' []) (M, 0) = (M\<lparr>m_tunnel := Some t\<rparr>, w1)"
    using t c M configConflict_None [of "t_Prefixes c" "[]"]
    by (simp add: auto_start_def checkConflict_def demo_menv_def startTunnelOnce_def start_build_def)
  have ol: "open_listener (demo_menv ''std'' []) (NewWithOptions ''127.0.0.1:1080'' 0 True) (M', v) =
      (None, M'\<lparr>m_socks := Some ((NewWithOptions ''127.0.0.1:1080'' 0 True)\<lparr>s_ln := Some ''127.0.0.1:1080'', s_started := True\<rparr>),
         m_pipe := True, m_watcher := True\<rparr>, v)" for M' :: "(nat, nat) mgr" and v
    by (simp add: open_listener_def demo_menv_def demo_Listen Let_def)
  have "Manager_Start (demo_menv ''std'' []) (NewManager demo_log ''j'', 0) =
      open_listener (demo_menv ''std'' []) (NewWithOptions ''127.0.0.1:1080'' 0 True) (auto_start (demo_menv ''std'' []) (M, 0))"
    using c(1) l b
    by (simp add: Manager_Start_def NewManager_def [of demo_log "''j''"] demo_menv_def M_def UDPEnabled_def demo_app_def Let_def)
  also have "\<dots> = (None, M\<lparr>m_tunnel := Some t, m_socks := Some ((NewWithOptions ''127.0.0.1:1080'' 0 True)
      \<lparr>s_ln := Some ''127.0.0.1:1080'', s_started := True\<rparr>), m_pipe := True, m_watcher := True\<rparr>, w1)"
    by (simp add: a ol)
  finally show ?thesis using M t c by (simp add: tunnel_running_def)
qed

end
