(* ===== verification/Service_Steps.thy ===== *)
theory Service_Steps
  imports Service_Manager_Props
begin

text \<open>
  The manager as a transition system: its commands, the events of the network and the
  power, the wakeups of its retries and the supervisor of its tunnel, one at a time.
\<close>

section \<open>Steps\<close>

text \<open>
  What happens without a command that asks for the tunnel: events, a reload, the
  supervisor, and a cancelled retry returning.
\<close>

inductive background :: "('w, 'd, 'n, 'p) upstream \<Rightarrow> ('d, 'n) mgr \<times> 'w \<Rightarrow> ('d, 'n) mgr \<times> 'w \<Rightarrow> bool"
  for up :: "('w, 'd, 'n, 'p) upstream" where
  changed: "me_up env = up \<Longrightarrow> networkChanged env (m, w) = (m', w') \<Longrightarrow> background up (m, w) (m', w')"
| settled: "me_up env = up \<Longrightarrow> networkSettled env (m, w) = (m', w') \<Longrightarrow> background up (m, w) (m', w')"
| power: "background up (m, w) (OnPowerResume m, w)"
| reload: "me_up env = up \<Longrightarrow> Manager_Reload env (m, w) = (x, m', w') \<Longrightarrow> background up (m, w) (m', w')"
| tick: "m_tunnel m = Some t \<Longrightarrow> sup_tick up now (sv, t, w) = (sv', t', w') \<Longrightarrow>
     background up (m, w) (m\<lparr>m_tunnel := Some t'\<rparr>, w')"
| kick: "m_tunnel m = Some t \<Longrightarrow> sup_kick up now (sv, t, w) = (sv', t', w') \<Longrightarrow>
     background up (m, w) (m\<lparr>m_tunnel := Some t'\<rparr>, w')"
| cancelled: "m_retries m g = Some r \<Longrightarrow> rt_cancelled r \<Longrightarrow> retry_iter up now CtxDone g (m, w) = (m', w') \<Longrightarrow>
     background up (m, w) (m', w')"

text \<open>
  Commands, and a retry taken out of its wait by a wakeup or its timer. Go's \<open>select\<close> may
  take either even when the context is already cancelled.
\<close>

inductive mstep :: "('w, 'd, 'n, 'p) upstream \<Rightarrow> ('d, 'n) mgr \<times> 'w \<Rightarrow> ('d, 'n) mgr \<times> 'w \<Rightarrow> bool"
  for up :: "('w, 'd, 'n, 'p) upstream" where
  background: "background up x y \<Longrightarrow> mstep up x y"
| start: "me_up env = up \<Longrightarrow> Manager_Start env (m, w) = (e, m', w') \<Longrightarrow> mstep up (m, w) (m', w')"
| stop: "Manager_Stop up (m, w) = (m', w') \<Longrightarrow> mstep up (m, w) (m', w')"
| start_tunnel: "StartTunnel up now (m, w) = (e, m', w') \<Longrightarrow> mstep up (m, w) (m', w')"
| stop_tunnel: "StopTunnel up (m, w) = (e, m', w') \<Longrightarrow> mstep up (m, w) (m', w')"
| reconnect: "Manager_Reconnect up now (m, w) = (e, m', w') \<Longrightarrow> mstep up (m, w) (m', w')"
| retry: "m_retries m g = Some r \<Longrightarrow> (ev = Woken \<longrightarrow> m_retryWake m) \<Longrightarrow> ev \<noteq> CtxDone \<Longrightarrow>
     retry_iter up now ev g (m, w) = (m', w') \<Longrightarrow> mstep up (m, w) (m', w')"

definition minit :: "('d, 'n) mgr \<times> 'w \<Rightarrow> bool" where
  "minit x \<longleftrightarrow> (\<exists>l p w. x = (NewManager l p, w))"

section \<open>The invariant\<close>

lemma tick_frame: "sup_tick up now (sv, t, w) = (sv', t', w') \<Longrightarrow> tn_cfg t' = tn_cfg t \<and> tn_running t' = tn_running t"
  by (auto simp: sup_tick_def tun_defs Let_def split: prod.splits sum.splits if_splits)

lemma reconnect_frame: "performReconnect up (t, w) = (t', w') \<Longrightarrow> tn_cfg t' = tn_cfg t \<and> tn_running t' = tn_running t"
  by (auto simp: performReconnect_def tun_defs Let_def split: option.splits prod.splits sum.splits if_splits)

lemma kick_frame: "sup_kick up now (sv, t, w) = (sv', t', w') \<Longrightarrow> tn_cfg t' = tn_cfg t \<and> tn_running t' = tn_running t"
  by (auto simp: sup_kick_def split: prod.splits dest: reconnect_frame)

lemma supervised_inv:
  assumes "mgr_inv m" and "m_tunnel m = Some t" and "tun_inv t'" and "tn_cfg t' = tn_cfg t \<and> tn_running t' = tn_running t"
  shows "mgr_inv (m\<lparr>m_tunnel := Some t'\<rparr>)"
  using assms by (auto simp: mgr_inv_def tun_part_def)

lemma mgr_inv_tunnel: "mgr_inv m \<Longrightarrow> m_tunnel m = Some t \<Longrightarrow> tun_inv t"
  by (simp add: mgr_inv_def tun_part_def)

lemma background_inv: "background up x y \<Longrightarrow> mgr_inv (fst x) \<Longrightarrow> mgr_inv (fst y)"
proof (induction rule: background.induct)
  case (changed env m w m' w')
  obtain b m1 w1 where c: "checkConflict (me_up env) (me_list env) (m, w) = (b, m1, w1)" using prod_cases3 by blast
  with changed show ?case using checkConflict_inv [OF _ c] by (simp add: networkChanged_def)
next
  case (settled env m w m' w')
  then show ?case by (auto intro: settled_inv)
next
  case (power m w)
  then show ?case by (auto simp: OnPowerResume_def intro: request_inv)
next
  case (reload env m w x m' w')
  then show ?case by (auto intro: Manager_Reload_inv)
next
  case (tick m t now sv w sv' t' w')
  then show ?case using tun_inv_tick [OF mgr_inv_tunnel] supervised_inv tick_frame by (metis fst_conv)
next
  case (kick m t now sv w sv' t' w')
  then show ?case using tun_inv_kick [OF mgr_inv_tunnel] supervised_inv kick_frame by (metis fst_conv)
next
  case (cancelled m g r now w m' w')
  then show ?case by (auto intro: retry_iter_inv)
qed

lemma mstep_inv: "mstep up x y \<Longrightarrow> mgr_inv (fst x) \<Longrightarrow> mgr_inv (fst y)"
  by (induction rule: mstep.induct)
     (auto dest: background_inv intro: Manager_Start_inv Manager_Stop_inv StartTunnel_inv StopTunnel_inv Reconnect_inv
       retry_iter_inv)

interpretation mng: invariant minit "mstep up" "\<lambda>x. mgr_inv (fst x)" for up :: "('w, 'd, 'n, 'p) upstream"
  by unfold_locales (auto simp: minit_def mgr_inv_New intro: mstep_inv)


lemma demo_paused:
  "\<exists>m w. reachable minit (mstep demo_up) (m, w) \<and> m_pausedBy m \<noteq> None"
proof -
  obtain m w c where s: "Manager_Start (demo_menv ''std'' []) (NewManager demo_log ''j'', 0) = (None, m, w)" "m_pausedBy m = None"
    "m_tunCfg m = Some c" "t_Prefixes c = [PrefixFrom (Addr4 [10, 8, 0, 2]) 32]" "tunnel_running m" using demo_service by blast
  let ?hosts = "[\<lparr>h_Adapter = ''wg'', h_Addr = Addr4 [10, 8, 0, 2]\<rparr>]"
  have "reachable minit (mstep demo_up) (NewManager demo_log ''j'', 0)" by (intro reachable.base) (auto simp: minit_def)
  from reachable.more [OF this mstep.start [OF _ s(1)]] have r: "reachable minit (mstep demo_up) (m, w)"
    by (simp add: demo_menv_def)
  obtain m' w' where n: "networkChanged (demo_menv ''std'' ?hosts) (m, w) = (m', w')" by fastforce
  obtain t where t: "m_tunnel m = Some t" using s(5) by (auto simp: tunnel_running_def split: option.splits)
  obtain h where "configConflict (t_Prefixes c) ?hosts = Some h"
    using configConflict_None [of "t_Prefixes c" ?hosts] s(4)
    by (cases "configConflict (t_Prefixes c) ?hosts")
       (auto simp: own_addresses_def PrefixFrom_def IsUnspecified_def IPv4Unspecified_def IPv6Unspecified_def v4_loopback_def)
  with n s t have "m_pausedBy m' \<noteq> None"
    by (auto simp: networkChanged_def checkConflict_def demo_menv_def pause_def stop_tunnel_def cancelRetry_def split: prod.splits option.splits)
  moreover have "reachable minit (mstep demo_up) (m', w')"
    by (rule reachable.more [OF r mstep.background [OF background.changed [OF _ n]]]) (simp add: demo_menv_def)
  ultimately show ?thesis by blast
qed


section \<open>A stop holds\<close>

text \<open>A tunnel that was stopped on purpose, with no live retry and not meant to be up.\<close>

definition stopped_for_good :: "('d, 'n) mgr \<Rightarrow> bool" where
  "stopped_for_good m \<longleftrightarrow> \<not> tunnel_running m \<and> \<not> m_tunnelWanted m \<and> \<not> RetryPending m"

lemma stop_tunnel_frame:
  assumes "stop_tunnel up (m, w) = (m', w')"
  shows "m_tunnelWanted m' = m_tunnelWanted m" "m_retryCancel m' = m_retryCancel m" "m_retries m' = m_retries m"
    "m_pausedBy m' = m_pausedBy m" "m_app m' = m_app m" "m_socks m' = m_socks m"
  using assms by (auto simp: stop_tunnel_def split: option.splits prod.splits)

lemma stop_tunnel_down: "stop_tunnel up (m, w) = (m', w') \<Longrightarrow> \<not> tunnel_running m'"
  by (auto simp: stop_tunnel_def tunnel_running_def split: option.splits prod.splits dest: Stop_not_running)

lemma cancelRetry_frame [simp]:
  "m_tunnelWanted (cancelRetry m) = m_tunnelWanted m" "m_retryCancel (cancelRetry m) = None"
  "m_tunnel (cancelRetry m) = m_tunnel m" "m_app (cancelRetry m) = m_app m" "m_socks (cancelRetry m) = m_socks m"
  by (simp_all add: cancelRetry_def split: option.split)

lemma stopped_conflict:
  assumes s: "stopped_for_good m" and c: "checkConflict up ls (m, w) = (b, m', w')"
  shows "stopped_for_good m'"
proof -
  have "stopped_for_good m'" if "pause up hit (m, w1) = (m', w')" for hit w1
    using s that stop_tunnel_frame(1,2) [of up "cancelRetry (m\<lparr>m_pausedBy := Some hit\<rparr>)" w1 m' w']
      stop_tunnel_down [of up "cancelRetry (m\<lparr>m_pausedBy := Some hit\<rparr>)" w1 m' w']
    by (auto simp: pause_def stopped_for_good_def RetryPending_def)
  with s c show ?thesis
    by (auto simp: checkConflict_def resume_def Let_def stopped_for_good_def tunnel_running_def RetryPending_def
        split: option.splits prod.splits sum.splits)
qed

lemma stopped_frame [simp]:
  "stopped_for_good (m\<lparr>m_log := l\<rparr>) = stopped_for_good m" "stopped_for_good (m\<lparr>m_app := a\<rparr>) = stopped_for_good m"
  "stopped_for_good (m\<lparr>m_socks := s\<rparr>) = stopped_for_good m" "stopped_for_good (m\<lparr>m_tunCfg := c\<rparr>) = stopped_for_good m"
  "stopped_for_good (m\<lparr>m_retryWake := b\<rparr>) = stopped_for_good m"
  by (simp_all add: stopped_for_good_def tunnel_running_def RetryPending_def)

lemma stopped_tunnel: "stopped_for_good m \<Longrightarrow> \<not> tn_running t \<Longrightarrow> stopped_for_good (m\<lparr>m_tunnel := Some t\<rparr>)"
  by (simp add: stopped_for_good_def tunnel_running_def RetryPending_def)

lemma stopped_down: "stopped_for_good m \<Longrightarrow> m_tunnel m = Some t \<Longrightarrow> \<not> tn_running t"
  by (simp add: stopped_for_good_def tunnel_running_def)

lemma Reload_stopped: "\<not> tn_running t \<Longrightarrow> Tunnel_Reload up now (Some c) (t, w) = (x, t', w') \<Longrightarrow> \<not> tn_running t'"
  by (auto simp: Tunnel_Reload_def split: prod.splits option.splits)

lemma reload_listener_stopped:
  "stopped_for_good m \<Longrightarrow> reload_listener os a s b m = (e, why, m') \<Longrightarrow> stopped_for_good m'"
  by (auto simp: reload_listener_def swap_listener_def Let_def split: option.splits if_splits prod.splits sum.splits)

lemma reload_apply_stopped:
  assumes s: "stopped_for_good m" and t: "m_tunnel m = Some t" and r: "reload_apply env newApp newTun t (m, w) = (x, m', w')"
  shows "stopped_for_good m'"
proof -
  obtain rot lg where rot: "reload_rotation (m_app m) newApp (m_log (set_level newApp m)) = (rot, lg)"
    by (cases "reload_rotation (m_app m) newApp (m_log (set_level newApp m))")
  obtain y t1 w1 where tr: "Tunnel_Reload (me_up env) (me_now env) (Some newTun) (t, w) = (y, t1, w1)"
    using prod_cases3 by blast
  let ?m1 = "m\<lparr>m_log := lg, m_tunnel := Some t1\<rparr>"
  have 1: "stopped_for_good ?m1"
    using s Reload_stopped [OF stopped_down [OF s t] tr] by (intro stopped_tunnel) simp_all
  obtain b m2 w2 where c: "checkConflict (me_up env) (me_list env) (?m1\<lparr>m_tunCfg := Some newTun\<rparr>, w1) = (b, m2, w2)"
    using prod_cases3 by blast
  have 2: "stopped_for_good m2" using stopped_conflict [OF _ c] 1 by simp
  obtain e why m3 where l: "reload_listener (me_os env) (m_app m) (m_socks m) newApp m2 = (e, why, m3)"
    using prod_cases3 by blast
  from reload_listener_stopped [OF 2 l] r rot tr c l 1 show ?thesis
    by (auto simp: reload_apply_def Let_def split: option.splits sum.splits)
qed

lemma retry_exit_stopped: "stopped_for_good m \<Longrightarrow> stopped_for_good (retry_exit g m)"
  by (auto simp: stopped_for_good_def retry_exit_def clearRetry_def Let_def tunnel_running_def RetryPending_def)

lemma background_stopped: "background up x y \<Longrightarrow> stopped_for_good (fst x) \<Longrightarrow> stopped_for_good (fst y)"
proof (induction rule: background.induct)
  case (changed env m w m' w')
  obtain b m1 w1 where c: "checkConflict (me_up env) (me_list env) (m, w) = (b, m1, w1)" using prod_cases3 by blast
  with changed show ?case using stopped_conflict [OF _ c] by (simp add: networkChanged_def)
next
  case (settled env m w m' w')
  obtain b m1 w1 where c: "checkConflict (me_up env) (me_list env) (m, w) = (b, m1, w1)" using prod_cases3 by blast
  have 1: "stopped_for_good m1" using stopped_conflict [OF _ c] settled by simp
  then have "\<not> tunnel_running m1" by (simp add: stopped_for_good_def)
  with 1 settled c show ?case by (cases b) (auto simp: networkSettled_def wakeRetry_def)
next
  case (reload env m w x m' w')
  then show ?case by (auto simp: Manager_Reload_def split: option.splits sum.splits intro: reload_apply_stopped)
next
  case (tick m t now sv w sv' t' w')
  then show ?case using tick_frame stopped_tunnel stopped_down by (metis fst_conv)
next
  case (kick m t now sv w sv' t' w')
  then show ?case using kick_frame stopped_tunnel stopped_down by (metis fst_conv)
next
  case (power m w)
  then show ?case by (simp add: OnPowerResume_def) (simp add: stopped_for_good_def)
qed (auto simp: retry_iter_def intro: retry_exit_stopped)



section \<open>Starting the service\<close>

lemma auto_start_frame:
  assumes "auto_start env (m, w) = (m', w')"
  shows "m_ctx m' = m_ctx m" "m_running m' = m_running m" "m_socks m' = m_socks m" "m_app m' = m_app m"
    and "tunnel_running m' \<or> RetryPending m' \<or> m_pausedBy m' \<noteq> None"
proof -
  obtain b m1 w1 where c: "checkConflict (me_up env) (me_list env) (m, w) = (b, m1, w1)" using prod_cases3 by blast
  obtain e m2 w2 where s: "startTunnelOnce (me_up env) (me_now env) (m1, w1) = (e, m2, w2)" using prod_cases3 by blast
  note f = checkConflict_ctx [OF c] startTunnelOnce_ctx [OF s]
  have "RetryPending (retryStart True m2)" by (simp add: RetryPending_def retryStart_def Let_def)
  with assms c s f startTunnelOnce_result [OF s]
  show "m_ctx m' = m_ctx m" "m_running m' = m_running m" "m_socks m' = m_socks m" "m_app m' = m_app m"
    "tunnel_running m' \<or> RetryPending m' \<or> m_pausedBy m' \<noteq> None"
    by (auto simp: auto_start_def split: option.splits mgr_err.splits)
qed

lemma Start_listening: "Start os s = (Inr u, s') \<Longrightarrow> \<not> s_closing s \<Longrightarrow> Listening s' \<and> s_listen s' = s_listen s \<and>
    s_maxConns s' = s_maxConns s \<and> s_udpEnabled s' = s_udpEnabled s"
  by (auto simp: Start_def Listening_def split: option.splits if_splits sum.splits)

text \<open>How a start ends, with the listener's outcome and the state it was tried in.\<close>

definition start_outcome :: "mgr_err option \<Rightarrow> App \<Rightarrow> ('d, 'n) mgr \<Rightarrow> bool" where
  "start_outcome e app m \<longleftrightarrow>
     (case e of
        None \<Rightarrow> m_running m \<and> m_app m = Some app \<and>
          (\<exists>s. m_socks m = Some s \<and> Listening s \<and> s_listen s = a_Socks5Listen app) \<and>
          (a_AutoStart app \<longrightarrow> tunnel_running m \<or> RetryPending m \<or> m_pausedBy m \<noteq> None)
      | Some _ \<Rightarrow> \<not> m_running m \<and> \<not> tunnel_running m \<and> (\<forall>g r. m_retries m g = Some r \<longrightarrow> rt_cancelled r))"

lemma open_listener_outcome:
  assumes r: "open_listener env (NewWithOptions (a_Socks5Listen app) n u) (m, w) = (e, m', w')"
    and m: "m_running m" "m_app m = Some app"
      "a_AutoStart app \<longrightarrow> tunnel_running m \<or> RetryPending m \<or> m_pausedBy m \<noteq> None"
  shows "start_outcome e app m'"
proof (cases "Start (me_os env) (NewWithOptions (a_Socks5Listen app) n u)")
  case (Pair x s')
  show ?thesis
  proof (cases x)
    case (Inr y)
    with Start_listening Pair have "Listening s' \<and> s_listen s' = a_Socks5Listen app" by fastforce
    with Inr Pair r m show ?thesis
      by (auto simp: open_listener_def Let_def start_outcome_def tunnel_running_def RetryPending_def split: prod.splits)
  next
    case (Inl err)
    obtain m1 w1 where s: "stop_tunnel (me_up env) (cancel_service m, w) = (m1, w1)"
      by (cases "stop_tunnel (me_up env) (cancel_service m, w)")
    have "m_retries m1 = m_retries (cancel_service m)" by (rule stop_tunnel_frame(3) [OF s])
    with Inl Pair s r stop_tunnel_down [OF s] show ?thesis
      by (auto simp: open_listener_def start_outcome_def tunnel_running_def cancel_service_def)
  qed
qed

text \<open>
  a start that succeeds leaves the service running with its SOCKS5 listener bound to
  the configured address, whether or not the tunnel came up; with \<open>auto_start\<close> the tunnel
  runs, or a retry is pending, or it is paused for a conflict. A start that fails leaves
  neither the service nor a tunnel running nor a live retry, and one that fails before
  it adopts the configuration changes at most the log level.
\<close>

theorem start_outcomes:
  assumes "\<not> m_running m" and "\<not> tunnel_running m" and "\<forall>g r. m_retries m g = Some r \<longrightarrow> rt_cancelled r"
    and "Manager_Start env (m, w) = (e, m', w')"
  shows "case LoadApp (me_app env) (m_appCfgPath m) of
      Inl err \<Rightarrow> e = Some (AppErr err) \<and> m' = m \<and> w' = w
    | Inr app \<Rightarrow>
        (case LoadTunnel (me_app env) (me_confParse env) (me_pbase env) (me_nameValid env) (a_ConfigPath app) of
           Inl err \<Rightarrow> e = Some (ConfErr err) \<and> m' = set_level app m \<and> w' = w
         | Inr _ \<Rightarrow> start_outcome e app m')"
proof -
  have sl: "m_retries (set_level app m) = m_retries m" "tunnel_running (set_level app m) = tunnel_running m" for app
    by (simp_all add: set_level_def tunnel_running_def split: option.split)
  show ?thesis
  proof (cases "LoadApp (me_app env) (m_appCfgPath m)")
    case (Inr app)
    show ?thesis
    proof (cases "LoadTunnel (me_app env) (me_confParse env) (me_pbase env) (me_nameValid env) (a_ConfigPath app)")
      case (Inr tunCfg)
      note t = this \<open>LoadApp _ _ = Inr app\<close>
      show ?thesis
      proof (cases "ParseBindMode (a_UDPBind app)")
        case None
        with assms t sl show ?thesis by (auto simp: Manager_Start_def Let_def start_outcome_def)
      next
        case (Some mode)
        let ?m = "adopt env app tunCfg mode (set_level app m)"
        obtain m1 w1 where a: "(if a_AutoStart app then auto_start env (?m, w) else (?m, w)) = (m1, w1)" by fastforce
        have "m_running m1 \<and> m_app m1 = Some app \<and>
            (a_AutoStart app \<longrightarrow> tunnel_running m1 \<or> RetryPending m1 \<or> m_pausedBy m1 \<noteq> None)"
          using a auto_start_frame [of env ?m w m1 w1] by (auto simp: adopt_def split: if_splits)
        with open_listener_outcome assms t Some a show ?thesis
          by (fastforce simp: Manager_Start_def Let_def)
      qed
    qed (use assms Inr in \<open>auto simp: Manager_Start_def Let_def\<close>)
  qed (use assms in \<open>auto simp: Manager_Start_def\<close>)
qed

theorem start_outcomes_witness:
  "\<exists>m w. Manager_Start (demo_menv ''std'' []) (NewManager demo_log ''j'', 0) = (None, m, w) \<and>
     start_outcome None (demo_app ''std'') m"
proof -
  obtain m w where m: "Manager_Start (demo_menv ''std'' []) (NewManager demo_log ''j'', 0) = (None, m, w)"
    using demo_service by blast
  obtain c where c: "LoadTunnel (demo_files ''std'') (\<lambda>text name. Inr demo_cfg) id (\<lambda>n. True) ''c.conf'' = Inr c"
    using demo_LoadTunnel by blast
  have "a_ConfigPath (demo_app ''std'') = ''c.conf''" by (simp add: demo_app_def)
  with start_outcomes [OF _ _ _ m] c m show ?thesis
    by (simp add: NewManager_def [of demo_log "''j''"] tunnel_running_def demo_menv_def demo_LoadApp_j)
qed

section \<open>Retrying\<close>

lemma retry_exit_frame [simp]:
  "tunnel_running (retry_exit g m) = tunnel_running m" "m_pausedBy (retry_exit g m) = m_pausedBy m"
  by (simp_all add: retry_exit_def clearRetry_def Let_def tunnel_running_def)

text \<open>
  a live retry never gives up on its own. When its timer fires or it is woken, the
  tunnel is running afterwards, or it is paused, or the retry is still pending with its
  attempt counted and its delay doubled up to one minute.
\<close>

theorem retry_persists:
  assumes "m_retries m g = Some r" and "\<not> rt_cancelled r" and "m_retryCancel m = Some g"
    and "ev \<noteq> CtxDone" and "retry_iter up now ev g (m, w) = (m', w')"
  shows "tunnel_running m' \<or> m_pausedBy m' \<noteq> None \<or>
    RetryPending m' \<and> m_retries m' g = Some (r\<lparr>rt_delay := min (2 * rt_delay r) 60000000000, rt_attempt := rt_attempt r + 1\<rparr>)"
proof -
  let ?m = "if ev = Woken then m\<lparr>m_retryWake := False\<rparr> else m"
  obtain e m2 w2 where s: "startTunnelOnce up now (?m, w) = (e, m2, w2)" using prod_cases3 by blast
  have fr: "m_retries m2 = m_retries m" "m_retryCancel m2 = m_retryCancel m"
    using arg_cong [OF startTunnelOnce_frame [OF s], of m_retries] arg_cong [OF startTunnelOnce_frame [OF s], of m_retryCancel]
    by simp_all
  have p: "m_pausedBy m2 = m_pausedBy m" using startTunnelOnce_ctx(6) [OF s] by simp
  have d: "(if rt_delay r * 2 > startRetryMax then startRetryMax else rt_delay r * 2) = min (2 * rt_delay r) 60000000000"
    by (simp add: startRetryMax_def min_def)
  show ?thesis
  proof (cases "tunnel_running ?m")
    case True
    with assms(4,5) show ?thesis
      by (auto simp: retry_iter_def Let_def split: if_splits)
  next
    case False
    show ?thesis
    proof (cases e)
      case None
      with startTunnelOnce_result(1) [OF s] assms(2,4,5) s False fr assms(1) show ?thesis
        by (auto simp: retry_iter_def Let_def)
    next
      case (Some err)
      with startTunnelOnce_result(2) [OF s] assms s False fr d p show ?thesis
        by (cases err) (auto simp: retry_iter_def Let_def RetryPending_def)
    qed
  qed
qed

definition demo_retry :: retry where
  "demo_retry = \<lparr>rt_cancelled = False, rt_delay = 1000000000, rt_attempt = 2\<rparr>"

definition demo_waiting :: "(nat, nat) mgr" where
  "demo_waiting = (NewManager demo_log ''j'')\<lparr>m_tunnel := Some (NewWithBind None BindStd), m_retries := [1 \<mapsto> demo_retry],
     m_retryGen := 1, m_retryCancel := Some 1\<rparr>"

theorem retry_persists_witness:
  "\<exists>m' w'. retry_iter demo_up 9 TimerFired 1 (demo_waiting, 0) = (m', w') \<and> RetryPending m' \<and>
     m_retries m' 1 = Some \<lparr>rt_cancelled = False, rt_delay = 2000000000, rt_attempt = 3\<rparr>"
proof -
  obtain m' w' where i: "retry_iter demo_up 9 TimerFired 1 (demo_waiting, 0) = (m', w')" by fastforce
  have d: "m_retries demo_waiting 1 = Some demo_retry" "\<not> rt_cancelled demo_retry" "m_retryCancel demo_waiting = Some 1"
    by (simp_all add: demo_waiting_def demo_retry_def)
  have "\<not> tunnel_running m' \<and> m_pausedBy m' = None"
    using i by (auto simp: retry_iter_def demo_waiting_def demo_retry_def NewManager_def tunnel_running_def startTunnelOnce_def start_admit_def
        start_build_def Tunnel_Start_def NewWithBind_def)
  with retry_persists [OF d _ i] i show ?thesis by (simp add: demo_retry_def)
qed

end
