(* ===== verification/Service_Reload.thy ===== *)
theory Service_Reload
  imports Service_Steps
begin

text \<open>
  What a reload reports and what it leaves behind, on every branch.
\<close>

section \<open>The report\<close>

lemma listener_why_Nil:
  "listener_why a newApp s = [] \<longleftrightarrow> a_Socks5Listen newApp = a_Socks5Listen a \<and>
     ResolveMaxConns (a_MaxConnections newApp) = s_maxConns s \<and> UDPEnabled newApp = s_udpEnabled s"
  by (auto simp: listener_why_def Let_def)

lemma bind_note_Nil: "bind_note (Some a) newApp = [] \<longleftrightarrow> a_UDPBind newApp = a_UDPBind a"
  by (simp add: bind_note_def)

lemma start_note_Nil: "start_note (Some a) newApp = [] \<longleftrightarrow> a_AutoStart newApp = a_AutoStart a"
  by (simp add: start_note_def)

lemma reload_level_Nil:
  "reload_level (Some a) newApp = [] \<longleftrightarrow>
     (ParseLevel (a_LogLevel newApp) = None \<or> EqualFold_ascii (a_LogLevel newApp) (a_LogLevel a))"
  by (simp add: reload_level_def split: option.split)

lemma reload_rotation_Nil:
  "fst (reload_rotation (Some a) newApp l) = [] \<longleftrightarrow>
     a_LogMaxSizeMB newApp = a_LogMaxSizeMB a \<and> a_LogMaxFiles newApp = a_LogMaxFiles a"
  by (simp add: reload_rotation_def)

lemmas note_Nil = listener_why_Nil bind_note_Nil start_note_Nil reload_level_Nil reload_rotation_Nil

text \<open>The outcome of the listener's part.\<close>

lemma reload_listener_outcome:
  assumes "reload_listener os (Some a) (Some s) newApp m = (e, why, m')"
  shows "why = listener_why a newApp s \<and> m' = m\<lparr>m_socks := m_socks m'\<rparr> \<and>
    (case e of
       None \<Rightarrow> (if why = [] then m' = m
          else \<exists>s'. m_socks m' = Some s' \<and> Listening s' \<and> s_listen s' = a_Socks5Listen newApp \<and>
            s_maxConns s' = ResolveMaxConns (a_MaxConnections newApp) \<and> s_udpEnabled s' = UDPEnabled newApp)
     | Some (KeepListener _) \<Rightarrow> m' = m
     | Some (ProxyDown l _) \<Rightarrow> l = a_Socks5Listen a \<and> (\<exists>s'. m_socks m' = Some s' \<and> \<not> Listening s')
     | Some _ \<Rightarrow> False)"
proof (cases "listener_why a newApp s = []")
  case True
  with assms show ?thesis by (simp add: reload_listener_def)
next
  case False
  let ?new = "NewWithOptions (a_Socks5Listen newApp) (a_MaxConnections newApp) (UDPEnabled newApp)"
  obtain x s' where st: "Start os ?new = (x, s')" by (cases "Start os ?new")
  have f: "\<not> Listening s'" if "x = Inl err" for err
    using st that by (auto simp: Start_def Listening_def NewWithOptions_def split: option.splits if_splits sum.splits)
  have g: "Listening s' \<and> s_listen s' = a_Socks5Listen newApp \<and>
      s_maxConns s' = ResolveMaxConns (a_MaxConnections newApp) \<and> s_udpEnabled s' = UDPEnabled newApp" if "x = Inr u" for u
    using Start_listening [of os ?new u s'] st that by simp
  from assms False st f g show ?thesis
    by (cases x) (auto simp: reload_listener_def swap_listener_def Let_def split: if_splits)
qed

lemma reload_apply_cases:
  assumes "reload_apply env newApp newTun t (m, w) = (x, m', w')"
  obtains (tunnel) lg e t1 where
    "Tunnel_Reload (me_up env) (me_now env) (Some newTun) (t, w) = (Inl e, t1, w')" "x = Inl (TunnelErr e)"
    "m' = m\<lparr>m_log := lg, m_tunnel := Some t1\<rparr>"
  | (applied) rot lg t1 w1 b m2 e why m3 where
    "reload_rotation (m_app m) newApp (m_log (set_level newApp m)) = (rot, lg)"
    "Tunnel_Reload (me_up env) (me_now env) (Some newTun) (t, w) = (Inr (), t1, w1)"
    "checkConflict (me_up env) (me_list env) (m\<lparr>m_log := lg, m_tunnel := Some t1, m_tunCfg := Some newTun\<rparr>, w1) = (b, m2, w')"
    "reload_listener (me_os env) (m_app m) (m_socks m) newApp m2 = (e, why, m3)"
    "case e of Some err \<Rightarrow> x = Inl err \<and> m' = m3
      | None \<Rightarrow> x = Inr \<lparr>rr_applied = reload_level (m_app m) newApp @ rot @ why, rr_atNextStart = start_note (m_app m) newApp,
           rr_needsRestart = bind_note (m_app m) newApp, rr_sessionsCut = (why \<noteq> []), rr_tunnelReapplied = True\<rparr> \<and>
         m' = m3\<lparr>m_app := Some newApp\<rparr>"
  using assms
  by (auto simp: reload_apply_def Let_def split: prod.splits sum.splits option.splits)


lemma reload_listener_none: "a = None \<or> s = None \<Longrightarrow> reload_listener os a s newApp m = (None, [], m)"
  by (auto simp: reload_listener_def split: option.splits)

text \<open>
  C32: how a reload fails. Whatever the error, the recorded application configuration
  stays; an invalid file changes nothing at all; when the tunnel refuses, its recorded
  configuration and the listener stay; an address that cannot be bound keeps the
  listener; and only a listener that could not be bound again at its own address leaves
  the proxy down, and says so. No other error is possible.
\<close>

theorem reload_failures:
  "case Manager_Reload env (m, w) of
     (Inr _, _) \<Rightarrow> True
   | (Inl e, m', w') \<Rightarrow> m_app m' = m_app m \<and>
       (case e of
          ServiceNotRunning \<Rightarrow> m_tunnel m = None \<and> m' = m \<and> w' = w
        | AppInvalid _ \<Rightarrow> m' = m \<and> w' = w
        | TunnelInvalid _ \<Rightarrow> m' = m \<and> w' = w
        | TunnelErr _ \<Rightarrow> m_tunCfg m' = m_tunCfg m \<and> m_socks m' = m_socks m \<and> m_pausedBy m' = m_pausedBy m
        | KeepListener _ \<Rightarrow> m_socks m' = m_socks m
        | ProxyDown l _ \<Rightarrow> (\<exists>s'. m_socks m' = Some s' \<and> \<not> Listening s') \<and> map_option a_Socks5Listen (m_app m) = Some l
        | _ \<Rightarrow> False)"
proof (cases "Manager_Reload env (m, w)")
  case (fields x m' w')
  show ?thesis
  proof (cases "\<exists>t newApp newTun. m_tunnel m = Some t \<and> LoadApp (me_app env) (m_appCfgPath m) = Inr newApp \<and>
      LoadTunnel (me_app env) (me_confParse env) (me_pbase env) (me_nameValid env) (a_ConfigPath newApp) = Inr newTun")
    case False
    with fields show ?thesis by (auto simp: Manager_Reload_def split: option.splits sum.splits)
  next
    case True
    then obtain t newApp newTun where "reload_apply env newApp newTun t (m, w) = (x, m', w')"
      using fields by (auto simp: Manager_Reload_def)
    then show ?thesis
    proof (cases rule: reload_apply_cases)
      case (tunnel lg e t1)
      with fields show ?thesis by simp
    next
      case (applied rot lg t1 w1 b m2 e why m3)
      note c = checkConflict_ctx [OF applied(3)]
      show ?thesis
      proof (cases "m_app m = None \<or> m_socks m = None")
        case True
        then have "e = None" using applied(4) by (simp add: reload_listener_none)
        with fields applied(5) show ?thesis by simp
      next
        case False
        then obtain a s where as: "m_app m = Some a" "m_socks m = Some s" by auto
        note out = reload_listener_outcome [OF applied(4) [unfolded as]]
        have m3: "m3 = m2\<lparr>m_socks := m_socks m3\<rparr>" using out by blast
        have "m_app m3 = m_app m" using arg_cong [OF m3, of m_app] c by simp
        with fields applied(5) out c as show ?thesis by (auto split: option.splits mgr_err.splits)
      qed
    qed
  qed
qed


section \<open>A bind mode that is not in force\<close>

lemma Start_bind: "Tunnel_Start up now (t, w) = (e, t', w') \<Longrightarrow> tn_bind t' = tn_bind t"
  by (auto simp: Tunnel_Start_def tun_defs Let_def split: if_splits option.splits sum.splits prod.splits)

lemma Stop_bind: "Tunnel_Stop up (t, w) = (t', w') \<Longrightarrow> tn_bind t' = tn_bind t"
  by (auto simp: Tunnel_Stop_def Stop_locked_def tun_defs Let_def split: if_splits)

lemma rebuild_bind:
  assumes "reload_rebuild up now prev next (t, w) = (x, t', w')"
  shows "tn_bind t' = tn_bind t"
proof -
  obtain t1 w1 where s: "Tunnel_Stop up (t, w) = (t1, w1)" by (cases "Tunnel_Stop up (t, w)")
  obtain e t2 w2 where st: "Tunnel_Start up now (t1\<lparr>tn_cfg := Some next\<rparr>, w1) = (e, t2, w2)" using prod_cases3 by blast
  obtain e2 t3 w3 where st2: "Tunnel_Start up now (t2\<lparr>tn_cfg := prev\<rparr>, w2) = (e2, t3, w3)" using prod_cases3 by blast
  from assms s st st2 Stop_bind [OF s] Start_bind [OF st] Start_bind [OF st2] show ?thesis
    by (cases e; cases e2) (auto simp: reload_rebuild_def)
qed

lemma Reload_bind: "Tunnel_Reload up now c (t, w) = (x, t', w') \<Longrightarrow> tn_bind t' = tn_bind t"
  by (auto simp: Tunnel_Reload_def reload_uapi_def tun_defs Let_def dest: rebuild_bind
      split: option.splits prod.splits sum.splits if_splits)

lemma path_frame [simp]:
  "m_appCfgPath (cancelRetry m) = m_appCfgPath m" "m_appCfgPath (retryStart a m) = m_appCfgPath m"
  by (simp_all add: cancelRetry_def retryStart_def cancelCtx_def Let_def split: option.split)

lemma conflict_bind:
  assumes "checkConflict up ls (m, w) = (b, m', w')"
  shows "map_option tn_bind (m_tunnel m') = map_option tn_bind (m_tunnel m)" and "m_appCfgPath m' = m_appCfgPath m"
  using assms
  by (auto simp: checkConflict_def pause_def stop_tunnel_def resume_def Let_def dest: Stop_bind
      split: option.splits prod.splits sum.splits if_splits)

lemma Manager_Reload_success:
  assumes "Manager_Reload env (m, w) = (Inr rpt, m', w')"
  shows "\<exists>newApp. LoadApp (me_app env) (m_appCfgPath m) = Inr newApp \<and> m_app m' = Some newApp \<and> m_appCfgPath m' = m_appCfgPath m \<and>
    rr_needsRestart rpt = bind_note (m_app m) newApp \<and> rr_tunnelReapplied rpt \<and>
    map_option tn_bind (m_tunnel m') = map_option tn_bind (m_tunnel m)"
proof -
  from assms obtain t newApp newTun where l: "m_tunnel m = Some t" "LoadApp (me_app env) (m_appCfgPath m) = Inr newApp"
    "reload_apply env newApp newTun t (m, w) = (Inr rpt, m', w')"
    by (auto simp: Manager_Reload_def split: option.splits sum.splits)
  from l(3) show ?thesis
  proof (cases rule: reload_apply_cases)
    case (applied rot lg t1 w1 b m2 e why m3)
    have "m_tunnel m3 = m_tunnel m2 \<and> m_appCfgPath m3 = m_appCfgPath m2"
      using applied(4) by (auto simp: reload_listener_def swap_listener_def Let_def split: option.splits if_splits prod.splits sum.splits)
    with applied l conflict_bind [OF applied(3)] Reload_bind [OF applied(2)] show ?thesis by (auto split: option.splits)
  qed simp
qed

text \<open>
  the notice that a changed bind mode is not in force is given once. A second reload
  with the same application configuration asks for no restart, although the tunnel
  still uses the bind mode it was created with.
\<close>

theorem bind_notice_given_once:
  assumes "Manager_Reload env (m, w) = (Inr rpt, m1, w1)" and "Manager_Reload env2 (m1, w1) = (Inr rpt2, m2, w2)"
    and "me_app env2 = me_app env"
  shows "rr_needsRestart rpt2 = [] \<and> map_option tn_bind (m_tunnel m2) = map_option tn_bind (m_tunnel m)"
  using Manager_Reload_success [OF assms(1)] Manager_Reload_success [OF assms(2)] assms(3) by (auto simp: bind_note_def)

lemma demo_DryRun: "\<exists>w'. DryRun demo_up (Some c) w = (None, w')"
  using demo_peerKeys [of 0 "cf_Peers (t_Config c)"]
  by (auto simp: DryRun_def toUAPI_def peerKeys_def Let_def)

definition demo_idle :: "(nat, nat) mgr" where
  "demo_idle = (NewManager demo_log ''j'')\<lparr>m_app := Some (demo_app ''std''),
     m_tunnel := Some (NewWithBind (Some demo_tunnel_cfg) BindStd), m_socks := Some (NewWithOptions ''127.0.0.1:1080'' 0 True)\<rparr>"

lemma demo_reload_rio:
  assumes "m_tunnel m = Some t" "\<not> tn_running t" "m_appCfgPath m = ''j''" "m_app m = Some (demo_app b)" "b \<in> {''std'', ''rio''}"
    "m_socks m = Some (NewWithOptions ''127.0.0.1:1080'' 0 True)"
  shows "\<exists>rpt m' w'. Manager_Reload (demo_menv ''rio'' []) (m, w) = (Inr rpt, m', w') \<and>
    rr_needsRestart rpt = bind_note (Some (demo_app b)) (demo_app ''rio'') \<and>
    (\<exists>t'. m_tunnel m' = Some t' \<and> \<not> tn_running t') \<and> m_appCfgPath m' = ''j'' \<and> m_app m' = Some (demo_app ''rio'') \<and>
    m_socks m' = m_socks m"
proof -
  obtain c where c: "LoadTunnel (demo_files ''rio'') (\<lambda>text name. Inr demo_cfg) id (\<lambda>n. True) ''c.conf'' = Inr c"
    using demo_LoadTunnel by blast
  obtain w1 where d: "DryRun demo_up (Some c) w = (None, w1)" using demo_DryRun by blast
  have why: "listener_why (demo_app b) (demo_app ''rio'') (NewWithOptions ''127.0.0.1:1080'' 0 True) = []"
    by (simp add: listener_why_Nil demo_app_def UDPEnabled_def)
  obtain rot lg where rot: "reload_rotation (Some (demo_app b)) (demo_app ''rio'') (m_log (set_level (demo_app ''rio'') m)) = (rot, lg)"
    by fastforce
  obtain bb m2 w2 where k: "checkConflict demo_up (\<lambda>w. (Inr [], w))
      (m\<lparr>m_log := lg, m_tunnel := Some (t\<lparr>tn_cfg := Some c\<rparr>), m_tunCfg := Some c\<rparr>, w1) = (bb, m2, w2)"
    using prod_cases3 by blast
  have "m_tunnel m2 = Some (t\<lparr>tn_cfg := Some c\<rparr>)" "m_appCfgPath m2 = m_appCfgPath m" "m_socks m2 = m_socks m"
    using k configConflict_None [of "t_Prefixes c" "[]"] conflict_bind(2) [OF k] checkConflict_ctx [OF k]
    by (auto simp: checkConflict_def resume_def Let_def split: option.splits)
  with assms c d why rot k show ?thesis
    by (simp add: Manager_Reload_def demo_menv_def demo_LoadApp_j demo_app_def [of "''rio''"] reload_apply_def Tunnel_Reload_def
        reload_listener_def Let_def)
qed

theorem bind_notice_given_once_witness:
  "\<exists>rpt m1 w1 rpt2 m2 w2. Manager_Reload (demo_menv ''rio'' []) (demo_idle, 0) = (Inr rpt, m1, w1) \<and>
     Manager_Reload (demo_menv ''rio'' []) (m1, w1) = (Inr rpt2, m2, w2) \<and>
     rr_needsRestart rpt = [''udp_bind std -> rio''] \<and> rr_needsRestart rpt2 = [] \<and>
     map_option tn_bind (m_tunnel m2) = Some BindStd"
proof -
  have i: "m_tunnel demo_idle = Some (NewWithBind (Some demo_tunnel_cfg) BindStd)" "m_appCfgPath demo_idle = ''j''"
    "m_app demo_idle = Some (demo_app ''std'')" "m_socks demo_idle = Some (NewWithOptions ''127.0.0.1:1080'' 0 True)"
    by (simp_all add: demo_idle_def NewManager_def)
  obtain rpt m1 w1 t1 where r1: "Manager_Reload (demo_menv ''rio'' []) (demo_idle, 0) = (Inr rpt, m1, w1)"
    "rr_needsRestart rpt = bind_note (Some (demo_app ''std'')) (demo_app ''rio'')" "m_tunnel m1 = Some t1" "\<not> tn_running t1"
    "m_appCfgPath m1 = ''j''" "m_app m1 = Some (demo_app ''rio'')" "m_socks m1 = m_socks demo_idle"
    using demo_reload_rio [of demo_idle "NewWithBind (Some demo_tunnel_cfg) BindStd" "''std''" 0] i
    by (auto simp: NewWithBind_def)
  obtain rpt2 m2 w2 where r2: "Manager_Reload (demo_menv ''rio'' []) (m1, w1) = (Inr rpt2, m2, w2)"
    using demo_reload_rio [of m1 t1 "''rio''" w1] r1 i by auto
  from bind_notice_given_once [OF r1(1) r2] r1 r2 i show ?thesis
    by (auto simp: bind_note_def demo_app_def from_to_def NewWithBind_def)
qed

end
