(* ===== verification/Service_Races.thy ===== *)
theory Service_Races
  imports Service_Reload
begin

text \<open>
  The manager's locks. A pause marks the manager under \<open>mu\<close> and stops the tunnel later
  under \<open>startMu\<close>; an attempt to start is admitted and builds its device under
  \<open>startMu\<close>; checks for a conflict exclude each other by \<open>conflictMu\<close>. Here the stretches
  between lock operations are the steps, so that a pause and a start may overlap.
\<close>

section \<open>Pausing against starting\<close>

text \<open>
  \<open>ls_pausing\<close>: a pause has marked the manager and not yet stopped the tunnel;
  \<open>ls_starting\<close>: an attempt was admitted and has not yet built its device.
\<close>

record ('w, 'd, 'n) locked =
  ls_mgr :: "('d, 'n) mgr"
  ls_world :: 'w
  ls_pausing :: bool
  ls_starting :: bool

definition pause_mark :: "hostAddress \<Rightarrow> ('d, 'n) mgr \<Rightarrow> ('d, 'n) mgr" where
  "pause_mark hit m = cancelRetry (m\<lparr>m_pausedBy := Some hit\<rparr>)"

lemma pause_split: "pause up hit (m, w) = stop_tunnel up (pause_mark hit m, w)"
  by (simp add: pause_def pause_mark_def)

inductive lstep :: "('w, 'd, 'n, 'p) upstream \<Rightarrow> ('w, 'd, 'n) locked \<Rightarrow> ('w, 'd, 'n) locked \<Rightarrow> bool"
  for up :: "('w, 'd, 'n, 'p) upstream" where
  mark: "\<not> ls_pausing x \<Longrightarrow> m_pausedBy (ls_mgr x) = None \<Longrightarrow>
     lstep up x (x\<lparr>ls_mgr := pause_mark hit (ls_mgr x), ls_pausing := True\<rparr>)"
| halt: "ls_pausing x \<Longrightarrow> \<not> ls_starting x \<Longrightarrow> stop_tunnel up (ls_mgr x, ls_world x) = (m', w') \<Longrightarrow>
     lstep up x (x\<lparr>ls_mgr := m', ls_world := w', ls_pausing := False\<rparr>)"
| renew: "\<not> ls_pausing x \<Longrightarrow> m_pausedBy (ls_mgr x) \<noteq> None \<Longrightarrow>
     lstep up x (x\<lparr>ls_mgr := (ls_mgr x)\<lparr>m_pausedBy := Some hit\<rparr>\<rparr>)"
| resumed: "\<not> ls_pausing x \<Longrightarrow> m_pausedBy (ls_mgr x) \<noteq> None \<Longrightarrow> lstep up x (x\<lparr>ls_mgr := resume (ls_mgr x)\<rparr>)"
| admit: "\<not> ls_starting x \<Longrightarrow> start_admit (ls_mgr x) = Proceed \<Longrightarrow> lstep up x (x\<lparr>ls_starting := True\<rparr>)"
| build: "ls_starting x \<Longrightarrow> start_build up now (ls_mgr x, ls_world x) = (e, m', w') \<Longrightarrow>
     lstep up x (x\<lparr>ls_mgr := m', ls_world := w', ls_starting := False\<rparr>)"
| unwant: "lstep up x (x\<lparr>ls_mgr := cancelRetry ((ls_mgr x)\<lparr>m_tunnelWanted := False\<rparr>)\<rparr>)"
| stop_cmd: "\<not> ls_starting x \<Longrightarrow> stop_tunnel up (ls_mgr x, ls_world x) = (m', w') \<Longrightarrow>
     lstep up x (x\<lparr>ls_mgr := m', ls_world := w'\<rparr>)"
| want: "lstep up x (x\<lparr>ls_mgr := (ls_mgr x)\<lparr>m_tunnelWanted := True\<rparr>\<rparr>)"
| tick: "m_tunnel (ls_mgr x) = Some t \<Longrightarrow> sup_tick up now (sv, t, ls_world x) = (sv', t', w') \<Longrightarrow>
     lstep up x (x\<lparr>ls_mgr := (ls_mgr x)\<lparr>m_tunnel := Some t'\<rparr>, ls_world := w'\<rparr>)"
| kick: "m_tunnel (ls_mgr x) = Some t \<Longrightarrow> sup_kick up now (sv, t, ls_world x) = (sv', t', w') \<Longrightarrow>
     lstep up x (x\<lparr>ls_mgr := (ls_mgr x)\<lparr>m_tunnel := Some t'\<rparr>, ls_world := w'\<rparr>)"

definition linit :: "('w, 'd, 'n) locked \<Rightarrow> bool" where
  "linit x \<longleftrightarrow> \<not> ls_pausing x \<and> \<not> ls_starting x \<and> mgr_inv (ls_mgr x)"

text \<open>Once the pause is through, no attempt is under way and nothing runs.\<close>

definition linv :: "('w, 'd, 'n) locked \<Rightarrow> bool" where
  "linv x \<longleftrightarrow>
     (if ls_pausing x then m_pausedBy (ls_mgr x) \<noteq> None
      else m_pausedBy (ls_mgr x) \<noteq> None \<longrightarrow> \<not> ls_starting x \<and> \<not> tunnel_running (ls_mgr x))"

lemma tunnel_running_frame [simp]:
  "tunnel_running (cancelRetry m) = tunnel_running m" "tunnel_running (m\<lparr>m_tunnelWanted := b\<rparr>) = tunnel_running m"
  "tunnel_running (m\<lparr>m_pausedBy := p\<rparr>) = tunnel_running m"
  by (simp_all add: tunnel_running_def)

lemma paused_frame [simp]: "m_pausedBy (cancelRetry m) = m_pausedBy m"
  by (simp add: cancelRetry_def split: option.split)

lemma linv_step: "lstep up x y \<Longrightarrow> linv x \<Longrightarrow> linv y"
proof (induction rule: lstep.induct)
  case (halt x m' w')
  with stop_tunnel_down [OF halt(3)] stop_tunnel_frame(4) [OF halt(3)] show ?case by (simp add: linv_def)
next
  case (stop_cmd x m' w')
  with stop_tunnel_down [OF stop_cmd(2)] stop_tunnel_frame(4) [OF stop_cmd(2)] show ?case by (auto simp: linv_def)
next
  case (build x now e m' w')
  then have "m_pausedBy m' = m_pausedBy (ls_mgr x)" by (auto simp: start_build_def split: option.splits prod.splits)
  with build show ?case by (auto simp: linv_def split: if_splits)
next
  case (tick x t now sv sv' t' w')
  with tick_frame [OF tick(2)] show ?case by (auto simp: linv_def tunnel_running_def split: if_splits)
next
  case (kick x t now sv sv' t' w')
  with kick_frame [OF kick(2)] show ?case by (auto simp: linv_def tunnel_running_def split: if_splits)
qed (auto simp: linv_def pause_mark_def start_admit_Proceed resume_def Let_def split: option.splits if_splits)

lemma linv_init: "linit x \<Longrightarrow> linv x"
  by (auto simp: linit_def linv_def dest: paused_down)

interpretation lck: invariant linit "lstep up" linv for up :: "('w, 'd, 'n, 'p) upstream"
  by unfold_locales (auto intro: linv_init linv_step)

text \<open>
  C9: whatever a pause and the attempts to start overlap in, once the pause has
  returned the tunnel is down and no attempt that was admitted before it is still
  under way, and this stays so until the pause ends.
\<close>

theorem pause_wins:
  assumes "reachable linit (lstep up) x" and "\<not> ls_pausing x" and "m_pausedBy (ls_mgr x) \<noteq> None"
  shows "\<not> ls_starting x \<and> \<not> tunnel_running (ls_mgr x)"
  using lck.reachable_inv [OF assms(1)] assms(2,3) by (simp add: linv_def)

definition demo_ready :: "(nat, nat) mgr" where
  "demo_ready = (NewManager demo_log ''j'')\<lparr>m_tunCfg := Some demo_tunnel_cfg,
     m_tunnel := Some (NewWithBind (Some demo_tunnel_cfg) BindStd)\<rparr>"

definition demo_host :: hostAddress where
  "demo_host = \<lparr>h_Adapter = ''wg'', h_Addr = Addr4 [10, 8, 0, 2]\<rparr>"

text \<open>An attempt admitted before the pause finishes after it was marked.\<close>

lemma demo_overlap:
  "\<exists>y. reachable linit (lstep demo_up) y \<and> ls_pausing y \<and> \<not> ls_starting y \<and> tunnel_running (ls_mgr y) \<and>
     m_pausedBy (ls_mgr y) \<noteq> None"
proof -
  let ?x0 = "\<lparr>ls_mgr = demo_ready, ls_world = 0, ls_pausing = False, ls_starting = False\<rparr>"
  have d: "m_tunnel demo_ready = Some (NewWithBind (Some demo_tunnel_cfg) BindStd)" "m_pausedBy demo_ready = None"
    by (simp_all add: demo_ready_def NewManager_def)
  have "mgr_inv demo_ready"
    by (simp add: demo_ready_def mgr_inv_def tun_part_def retry_part_def NewManager_def tun_inv_New) (simp add: NewWithBind_def)
  then have "reachable linit (lstep demo_up) ?x0" by (intro reachable.base) (simp add: linit_def)
  from reachable.more [OF this lstep.admit] have 1: "reachable linit (lstep demo_up) (?x0\<lparr>ls_starting := True\<rparr>)"
    using d by (simp add: start_admit_def NewWithBind_def)
  let ?x2 = "\<lparr>ls_mgr = pause_mark demo_host demo_ready, ls_world = 0, ls_pausing = True, ls_starting = True\<rparr>"
  from reachable.more [OF 1 lstep.mark [where hit = demo_host]] have 2: "reachable linit (lstep demo_up) ?x2" using d by simp
  obtain t w' where t: "Tunnel_Start demo_up 5 (NewWithBind (Some demo_tunnel_cfg) BindStd, 0) = (None, t, w')" "tn_running t"
    using demo_start by blast
  have b: "start_build demo_up 5 (ls_mgr ?x2, ls_world ?x2) =
      (None, (pause_mark demo_host demo_ready)\<lparr>m_tunnel := Some t\<rparr>, w')"
    using t d by (simp add: start_build_def pause_mark_def)
  from reachable.more [OF 2 lstep.build [OF _ b]] t show ?thesis
    by (intro exI [of _ "?x2\<lparr>ls_mgr := (pause_mark demo_host demo_ready)\<lparr>m_tunnel := Some t\<rparr>, ls_world := w', ls_starting := False\<rparr>"])
       (simp add: tunnel_running_def pause_mark_def)
qed

theorem pause_wins_witness:
  "\<exists>y x. reachable linit (lstep demo_up) y \<and> tunnel_running (ls_mgr y) \<and> lstep demo_up y x \<and> m_pausedBy (ls_mgr x) \<noteq> None \<and>
     \<not> ls_pausing x \<and> \<not> tunnel_running (ls_mgr x)"
proof -
  obtain y where y: "reachable linit (lstep demo_up) y" "ls_pausing y" "\<not> ls_starting y" "tunnel_running (ls_mgr y)"
    "m_pausedBy (ls_mgr y) \<noteq> None" using demo_overlap by blast
  obtain m' w' where s: "stop_tunnel demo_up (ls_mgr y, ls_world y) = (m', w')" by fastforce
  note h = lstep.halt [OF y(2,3) s]
  have "m_pausedBy m' \<noteq> None" using stop_tunnel_frame(4) [OF s] y(5) by simp
  with pause_wins [OF reachable.more [OF y(1) h]] y h show ?thesis by fastforce
qed

section \<open>Pausing against reloading\<close>

text \<open>
  The rebuild of \<open>Tunnel.Reload\<close> takes no lock of the manager: its two halves, before and
  after the stopped tunnel is given the new configuration.
\<close>

definition rebuild_begin ::
  "('w, 'd, 'n, 'p) upstream \<Rightarrow> Tunnel \<Rightarrow> ('d, 'n) tun \<times> 'w \<Rightarrow> ('d, 'n) tun \<times> 'w" where
  "rebuild_begin up next tw = (case Tunnel_Stop up tw of (t1, w1) \<Rightarrow> (t1\<lparr>tn_cfg := Some next\<rparr>, w1))"

lemma rebuild_split:
  "reload_rebuild up now prev next tw =
     (case Tunnel_Start up now (rebuild_begin up next tw) of
        (None, t2, w2) \<Rightarrow> (Inr (), t2, w2)
      | (Some e, t2, w2) \<Rightarrow>
          (case Tunnel_Start up now (t2\<lparr>tn_cfg := prev\<rparr>, w2) of
             (None, t3, w3) \<Rightarrow> (Inl (Errorf_w ''the new configuration failed to start, the previous one was restored: '' e), t3, w3)
           | (Some re, t3, w3) \<Rightarrow>
               (Inl (Errorf_w (''the new configuration failed to start ('' @ e_msg e @
                  '') and the previous one did not start either: '') re), t3, w3)))"
  by (simp add: reload_rebuild_def rebuild_begin_def split: prod.split)

text \<open>
  a reload can outrun a pause. When the pause comes between the two halves of a
  rebuild that succeeds, the tunnel runs afterwards although the manager is paused, and
  the check for a conflict that the reload makes at its end leaves it so.
\<close>

theorem reload_outruns_pause:
  assumes "m_tunnel m = Some t" and "rebuild_begin up next (t, w) = (t1, w1)"
    and "pause up hit (m\<lparr>m_tunnel := Some t1\<rparr>, w1) = (m2, w2)" and "m_tunnel m2 = Some t2"
    and "Tunnel_Start up now (t2, w2) = (None, t3, w3)"
    and "checkConflict up ls (m2\<lparr>m_tunnel := Some t3, m_tunCfg := Some next\<rparr>, w3) = (True, m4, w4)"
  shows "m_pausedBy m4 \<noteq> None \<and> tunnel_running m4"
proof -
  have "m_pausedBy m2 = Some hit"
    using assms(3) by (auto simp: pause_def stop_tunnel_def split: option.splits prod.splits)
  moreover have "tn_running t3" using Start_frame(2) [OF assms(5)] by simp
  ultimately show ?thesis
    using assms(6) by (auto simp: checkConflict_def tunnel_running_def split: option.splits prod.splits sum.splits)
qed

theorem reload_outruns_pause_witness:
  "\<exists>m t t1 w1 m2 w2 t2 t3 w3. m_tunnel m = Some t \<and> tn_running t \<and>
     rebuild_begin demo_up (demo_tunnel_cfg\<lparr>t_MTU := 1300\<rparr>) (t, 2) = (t1, w1) \<and>
     pause demo_up demo_host (m\<lparr>m_tunnel := Some t1\<rparr>, w1) = (m2, w2) \<and> m_tunnel m2 = Some t2 \<and>
     Tunnel_Start demo_up 9 (t2, w2) = (None, t3, w3) \<and> \<not> tunnel_running m2 \<and>
     m_pausedBy (m2\<lparr>m_tunnel := Some t3\<rparr>) \<noteq> None \<and> tunnel_running (m2\<lparr>m_tunnel := Some t3\<rparr>)"
proof -
  let ?c = "demo_tunnel_cfg\<lparr>t_MTU := 1300\<rparr>"
  obtain t where t: "tn_running (t :: (nat, nat) tun)" using demo_start by blast
  let ?m = "demo_ready\<lparr>m_tunnel := Some t\<rparr>"
  obtain t1 w1 where b: "rebuild_begin demo_up ?c (t, 2) = (t1, w1)" by fastforce
  have c1: "tn_cfg t1 = Some ?c" using b by (auto simp: rebuild_begin_def split: prod.splits)
  obtain m2 w2 where p: "pause demo_up demo_host (?m\<lparr>m_tunnel := Some t1\<rparr>, w1) = (m2, w2)" by fastforce
  obtain t2 where t2: "m_tunnel m2 = Some t2" "Tunnel_Stop demo_up (t1, w1) = (t2, w2)"
    using p by (auto simp: pause_def stop_tunnel_def split: prod.splits)
  note n2 = Stop_not_running [OF t2(2)] and c2 = Stop_cfg [OF t2(2), unfolded c1]
  obtain t3 w3 where s: "Tunnel_Start demo_up 9 (t2, w2) = (None, t3, w3)" using demo_start_any [OF n2 c2] by blast
  have q: "m_pausedBy m2 = Some demo_host"
    using p by (auto simp: pause_def stop_tunnel_def split: option.splits prod.splits)
  have "checkConflict demo_up (\<lambda>w. (Inl (errors_New []), w)) (m2\<lparr>m_tunnel := Some t3, m_tunCfg := Some ?c\<rparr>, w3) =
      (True, m2\<lparr>m_tunnel := Some t3, m_tunCfg := Some ?c\<rparr>, w3)" using q by (simp add: checkConflict_def)
  from reload_outruns_pause [of ?m t, OF _ b p t2(1) s this]
  have "m_pausedBy (m2\<lparr>m_tunnel := Some t3\<rparr>) \<noteq> None \<and> tunnel_running (m2\<lparr>m_tunnel := Some t3\<rparr>)"
    by (simp add: tunnel_running_def)
  moreover have "m_tunnel ?m = Some t" "\<not> tunnel_running m2" using t2 n2 by (simp_all add: tunnel_running_def)
  ultimately show ?thesis using t b p t2 s by blast
qed

end
