(* ===== verification/Service_Status.thy ===== *)
theory Service_Status
  imports Service_Races
begin

text \<open>
  The status report: the accessors of the tunnel it is made of (\<open>internal/awg/tunnel.go\<close>,
  \<open>bind.go\<close>), its data (\<open>internal/ipc/protocol.go\<close>), the pinned versions
  (\<open>internal/version\<close>) and \<open>Manager.Status\<close> (\<open>internal/service/manager.go\<close>).

  Quoting a string for \<open>%q\<close> and the version of the Go runtime are parameters.
\<close>

section \<open>Accessors\<close>

fun State_String :: "State \<Rightarrow> string" where
  "State_String StateStopped = ''stopped''"
| "State_String StateConnecting = ''connecting''"
| "State_String StateConnected = ''connected''"
| "State_String StateReconnecting = ''reconnecting''"
| "State_String StateFailed = ''failed''"

definition bindDescription :: "BindMode \<Rightarrow> string" where
  "bindDescription mode =
     (if mode = BindRIO then ''rio (Windows Registered I/O, conn.NewWinRingBind)'' else ''std (conn.NewStdNetBind)'')"

definition Tunnel_Config :: "('d, 'n) tun \<Rightarrow> Tunnel option" where "Tunnel_Config t = tn_cfg t"
definition Tunnel_State :: "('d, 'n) tun \<Rightarrow> State" where "Tunnel_State t = tn_state t"
definition Tunnel_LastError :: "('d, 'n) tun \<Rightarrow> string" where "Tunnel_LastError t = tn_lastErr t"
definition Tunnel_Reconnects :: "('d, 'n) tun \<Rightarrow> int" where "Tunnel_Reconnects t = tn_reconnects t"
definition Tunnel_StartedAt :: "('d, 'n) tun \<Rightarrow> int option" where "Tunnel_StartedAt t = tn_startedAt t"
definition Tunnel_BindDescription :: "('d, 'n) tun \<Rightarrow> string" where "Tunnel_BindDescription t = bindDescription (tn_bind t)"
definition Tunnel_Running :: "('d, 'n) tun \<Rightarrow> bool" where "Tunnel_Running t = tn_running t"

definition Tunnel_Stats :: "('w, 'd, 'n, 'p) upstream \<Rightarrow> ('d, 'n) tun \<Rightarrow> 'w \<Rightarrow> (goerr + awg_Stats) \<times> 'w" where
  "Tunnel_Stats up t w = readStats up t w"

definition Prefix_String :: "Prefix \<Rightarrow> string" where
  "Prefix_String p = (case px_bits p of None \<Rightarrow> ''invalid Prefix'' | Some n \<Rightarrow> Addr_String (px_addr p) @ ''/'' @ dec n)"

definition hostAddress_String :: "(string \<Rightarrow> string) \<Rightarrow> hostAddress \<Rightarrow> string" where
  "hostAddress_String quote h = quote (h_Adapter h) @ '' ('' @ Addr_String (h_Addr h) @ '')''"

text \<open>\<open>time.Since(t).Round(time.Second).String()\<close> of a duration in nanoseconds that is not negative.\<close>

definition round_seconds :: "int \<Rightarrow> nat" where
  "round_seconds ns = nat ((ns + 500000000) div 1000000000)"

definition seconds_String :: "nat \<Rightarrow> string" where
  "seconds_String s =
     (let h = s div 3600; m = s div 60 mod 60; x = s mod 60 in
      if h > 0 then dec h @ ''h'' @ dec m @ ''m'' @ dec x @ ''s''
      else if m > 0 then dec m @ ''m'' @ dec x @ ''s''
      else dec x @ ''s'')"

section \<open>Versions\<close>

definition Version :: string where "Version = ''1.0.0''"
definition AmneziaWGGoVersion :: string where "AmneziaWGGoVersion = ''v3.1.20260828''"
definition AmneziaWGGoCommit :: string where "AmneziaWGGoCommit = ''b5928efb6ca19f0153958460c3d141f04abc5c2e''"
definition AmneziaWGWindowsVersion :: string where "AmneziaWGWindowsVersion = ''v3.1.20260814''"
definition AmneziaWGWindowsCommit :: string where "AmneziaWGWindowsCommit = ''e90531d15802cb976773f3b63443bc281f738ca3''"
definition AmneziaWGGoModule :: string where "AmneziaWGGoModule = ''github.com/amnezia-vpn/amneziawg-go/v3''"
definition AmneziaWGWindowsModule :: string where "AmneziaWGWindowsModule = ''github.com/amnezia-vpn/amneziawg-windows/v3''"
definition WintunStatus :: string where
  "WintunStatus = ''not used (userspace gVisor netstack; no Windows adapter is created)''"
definition ServiceName :: string where "ServiceName = ''AWGSocks''"

definition version_String :: "string \<Rightarrow> string \<Rightarrow> string" where
  "version_String Commit BuildDate =
     ''AWGSocks '' @ Version @ '' (commit '' @ Commit @ '', built '' @ BuildDate @ '')\<newline>'' @
     ''AmneziaWG   '' @ AmneziaWGGoModule @ '' '' @ AmneziaWGGoVersion @ '' (commit '' @ AmneziaWGGoCommit @ '')\<newline>'' @
     ''AWG parser  '' @ AmneziaWGWindowsModule @ '' '' @ AmneziaWGWindowsVersion @ '' (commit '' @ AmneziaWGWindowsCommit @ '')\<newline>'' @
     ''Wintun      '' @ WintunStatus @ ''\<newline>''"

definition version_Short :: string where
  "version_Short = ''AWGSocks '' @ Version @ '' / AmneziaWG '' @ AmneziaWGGoVersion"

section \<open>The report\<close>

record DNSCacheStatus =
  dc_Hits :: u64
  dc_Misses :: u64
  dc_Coalesced :: u64
  dc_Entries :: nat

record TunnelStatus =
  ts_State :: string
  ts_Endpoint :: string
  ts_LastHandshake :: "int option"
  ts_TxBytes :: nat
  ts_RxBytes :: nat
  ts_Reconnects :: int
  ts_LastError :: string
  ts_StartedAt :: "int option"
  ts_AWGParams :: "string \<rightharpoonup> string"
  ts_Generation :: "generation option"
  ts_Addresses :: "string list"
  ts_DNS :: "string list"
  ts_LocalDNS :: "string list"
  ts_MTU :: int
  ts_AllowedIPs :: "string list"
  ts_DNSCache :: DNSCacheStatus
  ts_PausedBy :: string

record SocksStatus =
  ss_Listen :: string
  ss_Listening :: bool
  ss_Active :: int
  ss_Total :: int
  ss_Rejected :: int
  ss_Failed :: int
  ss_Hostnames :: int
  ss_Unresolved :: int
  ss_BytesUp :: u64
  ss_BytesDown :: u64
  ss_UDPEnabled :: bool
  ss_UDPAssociations :: int
  ss_UDPDatagramsUp :: u64
  ss_UDPDatagramsDown :: u64
  ss_UDPDropped :: u64
  ss_UDPBytesUp :: u64
  ss_UDPBytesDown :: u64

record VersionStatus =
  vs_AWGSocks :: string
  vs_AmneziaWGGo :: string
  vs_AmneziaWGCommit :: string
  vs_AWGParser :: string
  vs_AWGParserCommit :: string
  vs_Wintun :: string
  vs_GoVersion :: string
  vs_SystemRouteState :: string
  vs_UDPBind :: string

record Status =
  st_Service :: string
  st_ConfigPath :: string
  st_Tunnel :: TunnelStatus
  st_Socks5 :: SocksStatus
  st_Versions :: VersionStatus
  st_Warnings :: "warning list"
  st_Uptime :: string

definition zeroTunnelStatus :: TunnelStatus where
  "zeroTunnelStatus =
     \<lparr>ts_State = [], ts_Endpoint = [], ts_LastHandshake = None, ts_TxBytes = 0, ts_RxBytes = 0, ts_Reconnects = 0,
      ts_LastError = [], ts_StartedAt = None, ts_AWGParams = Map.empty, ts_Generation = None, ts_Addresses = [], ts_DNS = [],
      ts_LocalDNS = [], ts_MTU = 0, ts_AllowedIPs = [], ts_DNSCache = \<lparr>dc_Hits = 0, dc_Misses = 0, dc_Coalesced = 0, dc_Entries = 0\<rparr>,
      ts_PausedBy = []\<rparr>"

definition zeroSocksStatus :: SocksStatus where
  "zeroSocksStatus =
     \<lparr>ss_Listen = [], ss_Listening = False, ss_Active = 0, ss_Total = 0, ss_Rejected = 0, ss_Failed = 0, ss_Hostnames = 0,
      ss_Unresolved = 0, ss_BytesUp = 0, ss_BytesDown = 0, ss_UDPEnabled = False, ss_UDPAssociations = 0, ss_UDPDatagramsUp = 0,
      ss_UDPDatagramsDown = 0, ss_UDPDropped = 0, ss_UDPBytesUp = 0, ss_UDPBytesDown = 0\<rparr>"

definition status_versions :: "string \<Rightarrow> ('d, 'n) tun option \<Rightarrow> VersionStatus" where
  "status_versions goVersion t =
     \<lparr>vs_AWGSocks = Version, vs_AmneziaWGGo = AmneziaWGGoVersion, vs_AmneziaWGCommit = AmneziaWGGoCommit,
      vs_AWGParser = AmneziaWGWindowsVersion, vs_AWGParserCommit = AmneziaWGWindowsCommit, vs_Wintun = WintunStatus,
      vs_GoVersion = goVersion, vs_SystemRouteState = ''untouched (this is not a system wide VPN)'',
      vs_UDPBind = (case t of None \<Rightarrow> ''std (conn.NewStdNetBind)'' | Some x \<Rightarrow> Tunnel_BindDescription x)\<rparr>"

text \<open>What the configuration contributes, and then the tunnel with its device.\<close>

definition status_config :: "Tunnel option \<Rightarrow> TunnelStatus \<Rightarrow> TunnelStatus" where
  "status_config cfg ts =
     (case cfg of
        None \<Rightarrow> ts
      | Some c \<Rightarrow>
          ts\<lparr>ts_Generation := Some (t_Generation c), ts_MTU := t_MTU c, ts_Addresses := map Prefix_String (t_Prefixes c),
             ts_DNS := map Addr_String (t_DNS c), ts_LocalDNS := map Addr_String (t_LocalDNS c)\<rparr>)"

definition status_device :: "Tunnel option \<Rightarrow> goerr + awg_Stats \<Rightarrow> TunnelStatus \<Rightarrow> TunnelStatus" where
  "status_device cfg stats ts =
     (case stats of
        Inr s \<Rightarrow>
          (let ts1 = ts\<lparr>ts_Endpoint := as_Endpoint s, ts_LastHandshake := as_LastHandshake s, ts_TxBytes := as_TxBytes s,
                        ts_RxBytes := as_RxBytes s, ts_AWGParams := as_AWGParams s\<rparr>
           in case as_Peers s of [] \<Rightarrow> ts1 | p # _ \<Rightarrow> ts1\<lparr>ts_AllowedIPs := ps_AllowedIPs p\<rparr>)
      | Inl _ \<Rightarrow> (case cfg of None \<Rightarrow> ts | Some c \<Rightarrow> ts\<lparr>ts_Endpoint := Tunnel_Endpoint c\<rparr>))"

definition status_tunnel ::
  "('w, 'd, 'n, 'p) upstream \<Rightarrow> (string \<Rightarrow> string) \<Rightarrow> ('d, 'n) mgr \<Rightarrow> 'w \<Rightarrow> TunnelStatus \<times> 'w" where
  "status_tunnel up quote m w =
     (let ts = status_config (m_tunCfg m) zeroTunnelStatus in
      case m_tunnel m of
        None \<Rightarrow> (ts, w)
      | Some t \<Rightarrow>
          (let ds = resolver_Stats (tn_resolver t);
               ts1 = ts\<lparr>ts_State := State_String (Tunnel_State t), ts_Reconnects := Tunnel_Reconnects t,
                        ts_LastError := Tunnel_LastError t, ts_StartedAt := Tunnel_StartedAt t,
                        ts_PausedBy := (case m_pausedBy m of None \<Rightarrow> [] | Some h \<Rightarrow> hostAddress_String quote h),
                        ts_DNSCache := \<lparr>dc_Hits = rst_Hits ds, dc_Misses = rst_Misses ds, dc_Coalesced = rst_Coalesced ds,
                                        dc_Entries = rst_Entries ds\<rparr>\<rparr>
           in case Tunnel_Stats up t w of (stats, w1) \<Rightarrow> (status_device (m_tunCfg m) stats ts1, w1)))"

definition status_socks :: "('d, 'n) mgr \<Rightarrow> SocksStatus" where
  "status_socks m =
     (case m_socks m of
        Some srv \<Rightarrow>
          (let s = Server_Stats srv in
           \<lparr>ss_Listen = st_Listen s, ss_Listening = st_Listening s, ss_Active = st_Active s, ss_Total = st_Total s,
            ss_Rejected = st_Rejected s, ss_Failed = st_Failed s, ss_Hostnames = st_Hostname s, ss_Unresolved = st_Unresolved s,
            ss_BytesUp = st_BytesToPeer s, ss_BytesDown = st_BytesToUser s, ss_UDPEnabled = st_UDPEnabled s,
            ss_UDPAssociations = st_UDPAssociations s, ss_UDPDatagramsUp = st_UDPDatagramsUp s,
            ss_UDPDatagramsDown = st_UDPDatagramsDown s, ss_UDPDropped = st_UDPDropped s, ss_UDPBytesUp = st_UDPBytesUp s,
            ss_UDPBytesDown = st_UDPBytesDown s\<rparr>)
      | None \<Rightarrow> (case m_app m of None \<Rightarrow> zeroSocksStatus | Some a \<Rightarrow> zeroSocksStatus\<lparr>ss_Listen := a_Socks5Listen a\<rparr>))"

definition Manager_Status ::
  "('w, 'd, 'n, 'p) upstream \<Rightarrow> (string \<Rightarrow> string) \<Rightarrow> string \<Rightarrow> int \<Rightarrow> ('d, 'n) mgr \<times> 'w \<Rightarrow> Status \<times> 'w" where
  "Manager_Status up quote goVersion now mw =
     (case mw of (m, w) \<Rightarrow>
        case status_tunnel up quote m w of (ts, w1) \<Rightarrow>
          (\<lparr>st_Service = (if m_running m then ''running'' else ''stopped''),
            st_ConfigPath = (case m_app m of None \<Rightarrow> [] | Some a \<Rightarrow> a_ConfigPath a),
            st_Tunnel = ts, st_Socks5 = status_socks m, st_Versions = status_versions goVersion (m_tunnel m),
            st_Warnings = (case m_tunCfg m of None \<Rightarrow> [] | Some c \<Rightarrow> t_Warnings c),
            st_Uptime = (case m_started m of None \<Rightarrow> [] | Some s \<Rightarrow> seconds_String (round_seconds (now - s)))\<rparr>, w1))"

section \<open>What it says\<close>

text \<open>An upstream device whose \<open>IpcGet\<close> never wrote the keys into its answer.\<close>

definition redacting :: "('w, 'd, 'n, 'p) upstream \<Rightarrow> ('w, 'd, 'n, 'p) upstream" where
  "redacting up = up\<lparr>up_IpcGet := \<lambda>d w. apfst (map_sum id without_secrets) (up_IpcGet up d w)\<rparr>"

lemma readStats_redacting: "readStats (redacting up) t w = readStats up t w"
proof (cases "tn_dev t")
  case (Some dev)
  obtain r w1 where "up_IpcGet up dev w = (r, w1)" by fastforce
  then show ?thesis using Some by (cases r) (simp_all add: readStats_def redacting_def stats_ignore_secrets [symmetric])
qed (simp add: readStats_def)

lemma status_tunnel_redacting: "status_tunnel (redacting up) quote m w = status_tunnel up quote m w"
  by (cases "m_tunnel m") (simp_all add: status_tunnel_def Tunnel_Stats_def Let_def readStats_redacting)

text \<open>
  C16: no key reaches the status report. The report is the same as that of a device which
  leaves the private key and the preshared keys out of its answer, whatever the device
  answers, whatever state the service is in.
\<close>

theorem status_hides_secrets: "Manager_Status (redacting up) quote goVersion now mw = Manager_Status up quote goVersion now mw"
  by (simp add: Manager_Status_def status_tunnel_redacting)

lemmas status_defs = Manager_Status_def status_tunnel_def status_config_def Tunnel_Stats_def Tunnel_State_def

lemma status_device_frame [simp]:
  "ts_State (status_device c r ts) = ts_State ts" "ts_PausedBy (status_device c r ts) = ts_PausedBy ts"
  "ts_Addresses (status_device c r ts) = ts_Addresses ts" "ts_DNS (status_device c r ts) = ts_DNS ts"
  by (simp_all add: status_device_def Let_def split: sum.split option.split list.split)

lemma State_String_eq [simp]:
  "State_String s = ''stopped'' \<longleftrightarrow> s = StateStopped" "State_String s = ''connecting'' \<longleftrightarrow> s = StateConnecting"
  "State_String s = ''connected'' \<longleftrightarrow> s = StateConnected" "State_String s = ''reconnecting'' \<longleftrightarrow> s = StateReconnecting"
  "State_String s = ''failed'' \<longleftrightarrow> s = StateFailed"
  by (cases s; simp)+

lemma status_of_tunnel:
  assumes "Manager_Status up quote gv now (m, w) = (st, w')" and "m_tunnel m = Some t" and "m_tunCfg m = Some c"
  shows "ts_State (st_Tunnel st) = State_String (tn_state t)"
    and "ts_PausedBy (st_Tunnel st) = (case m_pausedBy m of None \<Rightarrow> [] | Some h \<Rightarrow> hostAddress_String quote h)"
    and "ts_Addresses (st_Tunnel st) = map Prefix_String (t_Prefixes c)"
    and "ts_DNS (st_Tunnel st) = map Addr_String (t_DNS c)"
  using assms by (auto simp: status_defs Let_def split: prod.splits)

lemma status_down:
  assumes "Manager_Status up quote gv now (m, w) = (st, w')" and "\<not> tunnel_running m"
  shows "ts_TxBytes (st_Tunnel st) = 0 \<and> ts_RxBytes (st_Tunnel st) = 0 \<and> ts_LastHandshake (st_Tunnel st) = None"
  using assms
  by (auto simp: status_defs Let_def tunnel_running_def readStats_def status_device_def zeroTunnelStatus_def
      split: prod.splits option.splits)



end
