(* ===== verification/Ipc_Pipe.thy ===== *)
theory Ipc_Pipe
  imports Service_Status
begin

text \<open>
  The management channel: the commands and messages (\<open>internal/ipc/protocol.go\<close>), the
  pipe server (\<open>server_windows.go\<close>) and the client (\<open>client_windows.go\<close>).

  The JSON codec of the two messages, \<open>%q\<close> and the texts of the service's errors are
  parameters. The bytes a connection delivers before it ends or its deadline passes are a
  string.
\<close>

section \<open>Protocol\<close>

definition PipeName :: string where
  "PipeName = [CHR 0x5C, CHR 0x5C] @ ''.'' @ [CHR 0x5C] @ ''pipe'' @ [CHR 0x5C] @ ''AWGSocks''"

definition CmdStatus :: string where "CmdStatus = ''status''"
definition CmdReload :: string where "CmdReload = ''reload''"
definition CmdReconnect :: string where "CmdReconnect = ''reconnect''"
definition CmdStart :: string where "CmdStart = ''start''"
definition CmdStop :: string where "CmdStop = ''stop''"
definition CmdPing :: string where "CmdPing = ''ping''"

lemmas cmd_defs = CmdStatus_def CmdReload_def CmdReconnect_def CmdStart_def CmdStop_def CmdPing_def

record Request =
  rq_Command :: string

record Response =
  rp_OK :: bool
  rp_Error :: string
  rp_Message :: string
  rp_Status :: "Status option"

text \<open>The interface the service implements; an error is its text.\<close>

record 's Handler =
  hd_Status :: "'s \<Rightarrow> Status \<times> 's"
  hd_Reload :: "'s \<Rightarrow> (string + string) \<times> 's"
  hd_Reconnect :: "'s \<Rightarrow> string option \<times> 's"
  hd_StartTunnel :: "'s \<Rightarrow> string option \<times> 's"
  hd_StopTunnel :: "'s \<Rightarrow> string option \<times> 's"

text \<open>\<open>encoding/json\<close> at the two messages.\<close>

record codec =
  jc_MarshalRequest :: "Request \<Rightarrow> string + string"
  jc_UnmarshalRequest :: "string \<Rightarrow> string + Request"
  jc_MarshalResponse :: "Response \<Rightarrow> string + string"
  jc_UnmarshalResponse :: "string \<Rightarrow> string + Response"

section \<open>Serving a command\<close>

definition okMessage :: "string \<Rightarrow> Response" where
  "okMessage msg = \<lparr>rp_OK = True, rp_Error = [], rp_Message = msg, rp_Status = None\<rparr>"

definition failed :: "string \<Rightarrow> Response" where
  "failed err = \<lparr>rp_OK = False, rp_Error = err, rp_Message = [], rp_Status = None\<rparr>"

definition dispatch :: "(string \<Rightarrow> string) \<Rightarrow> 's Handler \<Rightarrow> Request \<Rightarrow> 's \<Rightarrow> Response \<times> 's" where
  "dispatch quote h req s =
     (let c = rq_Command req in
      if c = CmdPing then (okMessage ''pong'', s)
      else if c = CmdStatus then
        (case hd_Status h s of (st, s') \<Rightarrow> (\<lparr>rp_OK = True, rp_Error = [], rp_Message = [], rp_Status = Some st\<rparr>, s'))
      else if c = CmdReload then
        (case hd_Reload h s of
           (Inl e, s') \<Rightarrow> (failed e, s')
         | (Inr msg, s') \<Rightarrow> (okMessage (if msg = [] then ''configuration reloaded'' else msg), s'))
      else if c = CmdReconnect then
        (case hd_Reconnect h s of
           (Some e, s') \<Rightarrow> (failed e, s')
         | (None, s') \<Rightarrow> (okMessage ''reconnect triggered'', s'))
      else if c = CmdStart then
        (case hd_StartTunnel h s of
           (Some e, s') \<Rightarrow> (failed e, s')
         | (None, s') \<Rightarrow> (okMessage ''tunnel started'', s'))
      else if c = CmdStop then
        (case hd_StopTunnel h s of
           (Some e, s') \<Rightarrow> (failed e, s')
         | (None, s') \<Rightarrow> (okMessage ''tunnel stopped'', s'))
      else (failed (''unknown command: '' @ quote c), s))"

definition requestTimeout :: int where "requestTimeout = 60000000000"

text \<open>
  \<open>bufio.Reader.ReadBytes\<close> up to a newline, which is part of the result; without one the
  read ends in an error.
\<close>

definition ReadBytes :: "string \<Rightarrow> string option" where
  "ReadBytes s = (if CHR 0x0A \<in> set s then Some (takeWhile (\<lambda>c. c \<noteq> CHR 0x0A) s @ [CHR 0x0A]) else None)"

definition writeResponse :: "codec \<Rightarrow> Response \<Rightarrow> string" where
  "writeResponse cd resp =
     (case jc_MarshalResponse cd resp of
        Inl _ \<Rightarrow> ''{\"ok\":false,\"error\":\"could not serialise the response\"}''
      | Inr raw \<Rightarrow> raw) @ [CHR 0x0A]"

text \<open>
  One connection: what is written back, and the state after it. The deadline is set once,
  when the connection is taken, so a command that runs past it leaves the write of its
  response failing: \<open>took\<close> is the time the command needs.
\<close>

definition serve ::
  "codec \<Rightarrow> (string \<Rightarrow> string) \<Rightarrow> 's Handler \<Rightarrow> (Request \<Rightarrow> int) \<Rightarrow> string \<Rightarrow> 's \<Rightarrow> string \<times> 's" where
  "serve cd quote h took input s =
     (case ReadBytes input of
        None \<Rightarrow> ([], s)
      | Some line \<Rightarrow>
          (case jc_UnmarshalRequest cd line of
             Inl e \<Rightarrow> (writeResponse cd (failed (''could not parse the request: '' @ e)), s)
           | Inr req \<Rightarrow>
               (case dispatch quote h req s of
                  (resp, s') \<Rightarrow> (if took req < requestTimeout then writeResponse cd resp else [], s'))))"

section \<open>The server\<close>

record pipe =
  pp_ln :: bool
  pp_closing :: bool
  pp_accepting :: bool
  pp_serving :: nat

definition NewServer :: pipe where
  "NewServer = \<lparr>pp_ln = False, pp_closing = False, pp_accepting = False, pp_serving = 0\<rparr>"

definition Pipe_Start :: "goerr option \<Rightarrow> pipe \<Rightarrow> goerr option \<times> pipe" where
  "Pipe_Start listen p =
     (case listen of
        Some e \<Rightarrow> (Some (Errorf_w (''could not open the management pipe '' @ PipeName @ '': '') e), p)
      | None \<Rightarrow> (None, p\<lparr>pp_ln := True, pp_accepting := True\<rparr>))"

text \<open>An iteration of \<open>acceptLoop\<close>: a connection starts a session, an error ends the loop.\<close>

definition accept_iter :: "goerr option \<Rightarrow> pipe \<Rightarrow> pipe" where
  "accept_iter err p =
     (case err of
        Some _ \<Rightarrow> p\<lparr>pp_accepting := False\<rparr>
      | None \<Rightarrow> p\<lparr>pp_serving := pp_serving p + 1\<rparr>)"

definition session_done :: "pipe \<Rightarrow> pipe" where
  "session_done p = p\<lparr>pp_serving := pp_serving p - 1\<rparr>"

text \<open>\<open>Stop\<close> up to its \<open>wg.Wait\<close>, and when that returns.\<close>

definition Pipe_Stop :: "pipe \<Rightarrow> pipe" where
  "Pipe_Stop p = (if pp_closing p then p else p\<lparr>pp_closing := True, pp_ln := False\<rparr>)"

definition wait_done :: "pipe \<Rightarrow> bool" where
  "wait_done p \<longleftrightarrow> \<not> pp_accepting p \<and> pp_serving p = 0"

section \<open>The client\<close>

definition dialTimeout :: int where "dialTimeout = 5000000000"

text \<open>
  How a call fails: the pipe is not there (with the reason, unless it timed out), and
  the later steps.
\<close>

datatype call_err =
    ErrNotRunning "string option" | MarshalErr string | SendErr string | RecvErr | ParseErr string

datatype dialed = DialTimeout | DialFailed string | Dialed

definition Call :: "codec \<Rightarrow> dialed \<Rightarrow> string option \<Rightarrow> (string \<Rightarrow> string) \<Rightarrow> string \<Rightarrow> call_err + Response" where
  "Call cd dial wrote peer cmd =
     (case dial of
        DialTimeout \<Rightarrow> Inl (ErrNotRunning None)
      | DialFailed e \<Rightarrow> Inl (ErrNotRunning (Some e))
      | Dialed \<Rightarrow>
          (case jc_MarshalRequest cd \<lparr>rq_Command = cmd\<rparr> of
             Inl e \<Rightarrow> Inl (MarshalErr e)
           | Inr raw \<Rightarrow>
               (case wrote of
                  Some e \<Rightarrow> Inl (SendErr e)
                | None \<Rightarrow>
                    (case ReadBytes (peer (raw @ [CHR 0x0A])) of
                       None \<Rightarrow> Inl RecvErr
                     | Some line \<Rightarrow>
                         (case jc_UnmarshalResponse cd line of
                            Inl e \<Rightarrow> Inl (ParseErr e)
                          | Inr resp \<Rightarrow> Inr resp)))))"

section \<open>The service as a handler\<close>

definition to_text :: "(mgr_err \<Rightarrow> string) \<Rightarrow> mgr_err option \<times> ('d, 'n) mgr \<times> 'w \<Rightarrow> string option \<times> ('d, 'n) mgr \<times> 'w" where
  "to_text Error x = (case x of (e, mw) \<Rightarrow> (map_option Error e, mw))"

definition managerHandler ::
  "('w, 'd, 'n, 'p) menv \<Rightarrow> (mgr_err \<Rightarrow> string) \<Rightarrow> (string \<Rightarrow> string) \<Rightarrow> string \<Rightarrow> (('d, 'n) mgr \<times> 'w) Handler" where
  "managerHandler env Error quote goVersion =
     \<lparr>hd_Status = \<lambda>(m, w). (case Manager_Status (me_up env) quote goVersion (me_now env) (m, w) of (st, w') \<Rightarrow> (st, m, w')),
      hd_Reload = \<lambda>mw. (case Reload env mw of (r, mw') \<Rightarrow> (map_sum Error id r, mw')),
      hd_Reconnect = \<lambda>mw. to_text Error (Manager_Reconnect (me_up env) (me_now env) mw),
      hd_StartTunnel = \<lambda>mw. to_text Error (StartTunnel (me_up env) (me_now env) mw),
      hd_StopTunnel = \<lambda>mw. to_text Error (StopTunnel (me_up env) mw)\<rparr>"

section \<open>What a command can do\<close>

text \<open>
  The contract of a handler: each of its operations relates the state before to the state
  after. Whatever arrives on the pipe then does so too.
\<close>

locale pipe_handler =
  fixes h :: "'s Handler" and rel :: "'s \<Rightarrow> 's \<Rightarrow> bool"
  assumes rel_refl: "rel s s"
    and rel_status: "hd_Status h s = (st, s') \<Longrightarrow> rel s s'"
    and rel_reload: "hd_Reload h s = (r, s') \<Longrightarrow> rel s s'"
    and rel_reconnect: "hd_Reconnect h s = (e, s') \<Longrightarrow> rel s s'"
    and rel_start: "hd_StartTunnel h s = (e, s') \<Longrightarrow> rel s s'"
    and rel_stop: "hd_StopTunnel h s = (e, s') \<Longrightarrow> rel s s'"
begin

lemma dispatch_rel: "dispatch quote h req s = (resp, s') \<Longrightarrow> rel s s'"
  by (auto simp: dispatch_def Let_def rel_refl split: if_splits prod.splits sum.splits option.splits
      dest: rel_status rel_reload rel_reconnect rel_start rel_stop)

lemma serve_rel: "serve cd quote h took input s = (out, s') \<Longrightarrow> rel s s'"
  by (auto simp: serve_def rel_refl split: option.splits sum.splits prod.splits dest: dispatch_rel)

end

text \<open>The manager: a command is one of its steps, or leaves it as it is.\<close>

definition command_step :: "('w, 'd, 'n, 'p) upstream \<Rightarrow> ('d, 'n) mgr \<times> 'w \<Rightarrow> ('d, 'n) mgr \<times> 'w \<Rightarrow> bool" where
  "command_step up x y \<longleftrightarrow> fst y = fst x \<or> mstep up x y"

lemma command_step_reload: "hd_Reload (managerHandler env Error quote gv) x = (r, y) \<Longrightarrow> command_step (me_up env) x y"
  by (cases x; cases y)
     (auto simp: managerHandler_def command_step_def Reload_def split: prod.splits
       intro: mstep.background background.reload)

interpretation mh: pipe_handler "managerHandler env Error quote gv" "command_step (me_up env)"
  for env :: "('w, 'd, 'n, 'p) menv" and Error quote gv
proof unfold_locales
  show "hd_Reload (managerHandler env Error quote gv) x = (r, y) \<Longrightarrow> command_step (me_up env) x y" for x r y
    by (rule command_step_reload)
qed (auto simp: managerHandler_def to_text_def command_step_def split: prod.splits
      intro: mstep.start_tunnel mstep.stop_tunnel mstep.reconnect)

text \<open>The commands that may change the service.\<close>

definition changing :: "string \<Rightarrow> bool" where
  "changing c \<longleftrightarrow> c \<in> set [CmdReload, CmdReconnect, CmdStart, CmdStop]"

lemma dispatch_readonly:
  assumes "dispatch quote (managerHandler env Error q gv) req (m, w) = (resp, m', w')" and "\<not> changing (rq_Command req)"
  shows "m' = m"
  using assms by (auto simp: dispatch_def changing_def managerHandler_def Let_def split: if_splits prod.splits)


section \<open>A call and its answer\<close>

text \<open>A message the codec carries: one line of JSON, which decodes to the message.\<close>

definition carries :: "('a \<Rightarrow> string + string) \<Rightarrow> (string \<Rightarrow> string + 'a) \<Rightarrow> 'a \<Rightarrow> bool" where
  "carries marshal unmarshal x \<longleftrightarrow>
     (case marshal x of Inl _ \<Rightarrow> False | Inr raw \<Rightarrow> CHR 0x0A \<notin> set raw \<and> unmarshal (raw @ [CHR 0x0A]) = Inr x)"

lemma ReadBytes_line: "CHR 0x0A \<notin> set raw \<Longrightarrow> ReadBytes (raw @ CHR 0x0A # rest) = Some (raw @ [CHR 0x0A])"
  by (simp add: ReadBytes_def) (induction raw; auto)

lemma call_response:
  assumes "carries (jc_MarshalRequest cd) (jc_UnmarshalRequest cd) \<lparr>rq_Command = cmd\<rparr>"
    and "dispatch quote h \<lparr>rq_Command = cmd\<rparr> s = (resp, s')"
    and "carries (jc_MarshalResponse cd) (jc_UnmarshalResponse cd) resp"
  shows "Call cd Dialed None (\<lambda>sent. fst (serve cd quote h took sent s)) cmd =
      (if took \<lparr>rq_Command = cmd\<rparr> < requestTimeout then Inr resp else Inl RecvErr) \<and>
    (\<exists>sent. jc_MarshalRequest cd \<lparr>rq_Command = cmd\<rparr> = Inr sent \<and> snd (serve cd quote h took (sent @ [CHR 0x0A]) s) = s')"
proof -
  obtain raw where r: "jc_MarshalRequest cd \<lparr>rq_Command = cmd\<rparr> = Inr raw" "CHR 0x0A \<notin> set raw"
    "jc_UnmarshalRequest cd (raw @ [CHR 0x0A]) = Inr \<lparr>rq_Command = cmd\<rparr>"
    using assms(1) by (auto simp: carries_def split: sum.splits)
  obtain ans where a: "jc_MarshalResponse cd resp = Inr ans" "CHR 0x0A \<notin> set ans"
    "jc_UnmarshalResponse cd (ans @ [CHR 0x0A]) = Inr resp"
    using assms(3) by (auto simp: carries_def split: sum.splits)
  have "serve cd quote h took (raw @ [CHR 0x0A]) s =
      (if took \<lparr>rq_Command = cmd\<rparr> < requestTimeout then ans @ [CHR 0x0A] else [], s')"
    using r a assms(2) by (simp add: serve_def ReadBytes_line writeResponse_def)
  with r a show ?thesis by (simp add: Call_def ReadBytes_line) (simp add: ReadBytes_def)
qed

text \<open>
  a management command and its answer. With a codec that carries the request and the
  response, the caller gets exactly the response the command produced, and the service is
  in the state the command left. A command that takes a minute or more is carried out
  all the same, but its answer is lost: the caller gets a read error.
\<close>

theorem call_gets_response:
  assumes "carries (jc_MarshalRequest cd) (jc_UnmarshalRequest cd) \<lparr>rq_Command = cmd\<rparr>"
    and "dispatch quote h \<lparr>rq_Command = cmd\<rparr> s = (resp, s')"
    and "carries (jc_MarshalResponse cd) (jc_UnmarshalResponse cd) resp"
  shows "Call cd Dialed None (\<lambda>sent. fst (serve cd quote h took sent s)) cmd =
      (if took \<lparr>rq_Command = cmd\<rparr> < requestTimeout then Inr resp else Inl RecvErr) \<and>
    (\<exists>sent. jc_MarshalRequest cd \<lparr>rq_Command = cmd\<rparr> = Inr sent \<and> snd (serve cd quote h took (sent @ [CHR 0x0A]) s) = s')"
  by (rule call_response [OF assms])

text \<open>A codec that is enough for the short answers of a service that is not running.\<close>

definition demo_codec :: codec where
  "demo_codec =
     \<lparr>jc_MarshalRequest = \<lambda>r. Inr (rq_Command r), jc_UnmarshalRequest = \<lambda>l. Inr \<lparr>rq_Command = butlast l\<rparr>,
      jc_MarshalResponse = \<lambda>r. Inr (if rp_OK r then CHR ''+'' # rp_Message r else CHR ''-'' # rp_Error r),
      jc_UnmarshalResponse = \<lambda>l. Inr (if hd l = CHR ''+'' then okMessage (butlast (tl l)) else failed (butlast (tl l)))\<rparr>"

definition demo_handler :: "((nat, nat) mgr \<times> nat) Handler" where
  "demo_handler = managerHandler (demo_menv ''std'' []) (\<lambda>_. ''no'') id ''go''"

lemma demo_dispatch:
  "dispatch id demo_handler \<lparr>rq_Command = CmdStop\<rparr> (NewManager demo_log ''j'', 0) = (failed ''no'', NewManager demo_log ''j'', 0)"
  by (simp add: dispatch_def demo_handler_def managerHandler_def to_text_def StopTunnel_def NewManager_def cmd_defs)

theorem call_gets_response_witness:
  "Call demo_codec Dialed None
     (\<lambda>sent. fst (serve demo_codec id demo_handler (\<lambda>_. 1000) sent (NewManager demo_log ''j'', 0))) CmdStop = Inr (failed ''no'') \<and>
   Call demo_codec Dialed None
     (\<lambda>sent. fst (serve demo_codec id demo_handler (\<lambda>_. 75000000000) sent (NewManager demo_log ''j'', 0))) CmdStop = Inl RecvErr"
proof -
  have "carries (jc_MarshalRequest demo_codec) (jc_UnmarshalRequest demo_codec) \<lparr>rq_Command = CmdStop\<rparr>"
    by (simp add: carries_def demo_codec_def cmd_defs)
  moreover have "carries (jc_MarshalResponse demo_codec) (jc_UnmarshalResponse demo_codec) (failed ''no'')"
    by (simp add: carries_def demo_codec_def failed_def)
  ultimately show ?thesis
    using call_gets_response [of demo_codec CmdStop id demo_handler _ "failed ''no''", OF _ demo_dispatch] by (simp add: requestTimeout_def)
qed


section \<open>Closing the pipe\<close>

text \<open>
  What happens to a started server: connections, sessions ending, \<open>Stop\<close>, and \<open>Accept\<close>
  failing. A closed listener gives no connection.
\<close>

inductive pipe_step :: "pipe \<Rightarrow> pipe \<Rightarrow> bool" where
  accept: "pp_accepting p \<Longrightarrow> pp_ln p \<Longrightarrow> pipe_step p (accept_iter None p)"
| accept_fails: "pp_accepting p \<Longrightarrow> pipe_step p (accept_iter (Some e) p)"
| served: "pp_serving p > 0 \<Longrightarrow> pipe_step p (session_done p)"
| stop: "pipe_step p (Pipe_Stop p)"

definition pipe_init :: "pipe \<Rightarrow> bool" where
  "pipe_init p \<longleftrightarrow> p = snd (Pipe_Start None NewServer)"

definition pipe_inv :: "pipe \<Rightarrow> bool" where
  "pipe_inv p \<longleftrightarrow> (pp_closing p \<longleftrightarrow> \<not> pp_ln p)"

interpretation pip: invariant pipe_init pipe_step pipe_inv
proof unfold_locales
  show "pipe_init p \<Longrightarrow> pipe_inv p" for p by (simp add: pipe_init_def pipe_inv_def Pipe_Start_def NewServer_def)
  show "pipe_step p q \<Longrightarrow> pipe_inv p \<Longrightarrow> pipe_inv q" for p q
    by (induction rule: pipe_step.induct) (auto simp: pipe_inv_def accept_iter_def session_done_def Pipe_Stop_def)
qed

inductive_cases pipe_stepE: "pipe_step p q"

text \<open>After \<open>Stop\<close> no session begins, and the wait for the sessions ends for good.\<close>

lemma stop_drains:
  assumes "reachable pipe_init pipe_step p" and "pp_closing p" and "pipe_step p q"
  shows "pp_closing q \<and> pp_serving q \<le> pp_serving p \<and> (wait_done p \<longrightarrow> wait_done q)"
  using pip.reachable_inv [OF assms(1)] assms(2,3)
  by (auto simp: pipe_inv_def accept_iter_def session_done_def Pipe_Stop_def wait_done_def elim!: pipe_stepE)

end
