(* ===== verification/Cmd_Status.thy ===== *)
theory Cmd_Status
  imports Ipc_Pipe
begin

text \<open>
  The status report on the console: \<open>cmd/awgsocks/status.go\<close>.

  Formatting a float, a local time and a warning are parameters. The parameters of the
  tunnel are printed in the order of their sorted keys, which are among those the service
  reports (\<open>awgUAPIKeys\<close>).
\<close>

record fmt_env =
  fm_fixed1 :: "u64 \<Rightarrow> u64 \<Rightarrow> string"
  fm_percent :: "u64 \<Rightarrow> u64 \<Rightarrow> string"
  fm_local :: "int \<Rightarrow> string"
  fm_warning :: "warning \<Rightarrow> string"
  fm_now :: int

fun generation_String :: "generation \<Rightarrow> string" where
  "generation_String Gen3 = ''AmneziaWG 2.0/3.x (I1-I5, header protection, timing parameters)''"
| "generation_String Gen15 = ''AmneziaWG 1.5 (Jc/Jmin/Jmax, S1-S4, H1-H4)''"
| "generation_String Gen1 = ''AmneziaWG legacy/1.0 (Jc/Jmin/Jmax, S1-S2, H1-H4)''"
| "generation_String PlainWireGuard = ''plain WireGuard (no AmneziaWG parameters)''"

definition dec_int :: "int \<Rightarrow> string" where
  "dec_int n = (if n < 0 then CHR ''-'' # dec (nat (- n)) else dec (nat n))"

section \<open>Bytes\<close>

text \<open>
  The loop: the divisor, the exponent, once the rest is below a unit. The index into the
  letters is the exponent; out of range the program would panic, which is \<open>None\<close> here.
\<close>

function human_loop :: "u64 \<Rightarrow> u64 \<Rightarrow> nat \<Rightarrow> u64 \<times> nat" where
  "human_loop v d exp = (if v \<ge> 1024 then human_loop (v div 1024) (d * 1024) (exp + 1) else (d, exp))"
  by pat_completeness auto
termination
proof (relation "measure (\<lambda>(v, d, exp). unat v)")
  fix v d :: u64 and exp :: nat
  assume "v \<ge> 1024"
  then have "1024 \<le> unat v" by (simp add: word_le_nat_alt)
  then have "unat v div 1024 < unat v" by (simp add: div_less_dividend)
  then show "((v div 1024, d * 1024, exp + 1), v, d, exp) \<in> measure (\<lambda>(v, d, exp). unat v)" by (simp add: unat_div)
qed simp

declare human_loop.simps [simp del]

definition humanBytes :: "fmt_env \<Rightarrow> u64 \<Rightarrow> string option" where
  "humanBytes fm n =
     (if n < 1024 then Some (dec (unat n) @ '' B'')
      else (case human_loop (n div 1024) 1024 0 of
          (d, exp) \<Rightarrow>
            if exp < length ''KMGTPE'' then Some (fm_fixed1 fm n d @ '' '' @ [''KMGTPE'' ! exp] @ ''iB'') else None))"

section \<open>Fields\<close>

definition yesNo :: "bool \<Rightarrow> string" where "yesNo b = (if b then ''yes'' else ''no'')"

definition orDash :: "string \<Rightarrow> string" where "orDash s = (if TrimSpace s = [] then ''-'' else s)"

definition formatTime :: "fmt_env \<Rightarrow> int option \<Rightarrow> string" where
  "formatTime fm t =
     (case t of
        None \<Rightarrow> ''never''
      | Some x \<Rightarrow> fm_local fm x @ '' ('' @ seconds_String (round_seconds (fm_now fm - x)) @ '' ago)'')"

definition shortCommit :: "string \<Rightarrow> string" where "shortCommit c = (if length c > 12 then take 12 c else c)"

definition formatFailed :: "SocksStatus \<Rightarrow> string" where
  "formatFailed s =
     (if ss_Failed s = 0 then ''0''
      else dec_int (ss_Failed s) @ '' ('' @ dec_int (ss_Unresolved s) @ '' names not resolved, '' @
        dec_int (ss_Failed s - ss_Unresolved s) @ '' could not connect)'')"

definition formatDNSCache :: "fmt_env \<Rightarrow> DNSCacheStatus \<Rightarrow> bool \<Rightarrow> string" where
  "formatDNSCache fm c local =
     (let total = dc_Hits c + dc_Misses c + dc_Coalesced c in
      if total = 0 then ''no lookups yet''
      else
        dec (dc_Entries c) @ '' entries, '' @ dec (unat (dc_Hits c)) @ '' hits, '' @ dec (unat (dc_Coalesced c)) @ '' coalesced, '' @
        dec (unat (dc_Misses c)) @ '' '' @ (if local then ''local'' else ''tunnel'') @ '' queries ('' @
        fm_percent fm (dc_Hits c + dc_Coalesced c) total @ ''% saved)'')"

text \<open>Two amounts of bytes in a line; a panic in one is a panic of the whole.\<close>

definition with_bytes :: "fmt_env \<Rightarrow> u64 \<Rightarrow> u64 \<Rightarrow> (string \<Rightarrow> string \<Rightarrow> string) \<Rightarrow> string option" where
  "with_bytes fm a b f =
     (case (humanBytes fm a, humanBytes fm b) of (Some x, Some y) \<Rightarrow> Some (f x y) | _ \<Rightarrow> None)"

definition formatUDP :: "fmt_env \<Rightarrow> SocksStatus \<Rightarrow> string option" where
  "formatUDP fm s =
     (if \<not> ss_UDPEnabled s then Some ''disabled (UDP cannot pass through the proxy)''
      else if ss_UDPAssociations s = 0 \<and> ss_UDPDatagramsUp s = 0 \<and> ss_UDPDatagramsDown s = 0 then Some ''enabled, not used yet''
      else with_bytes fm (ss_UDPBytesUp s) (ss_UDPBytesDown s) (\<lambda>up down.
        ''enabled, '' @ dec_int (ss_UDPAssociations s) @ '' active associations, '' @ dec (unat (ss_UDPDatagramsUp s)) @ '' sent / '' @
        dec (unat (ss_UDPDatagramsDown s)) @ '' received datagrams ('' @ up @ '' / '' @ down @ '')'' @
        (if ss_UDPDropped s > 0 then '', '' @ dec (unat (ss_UDPDropped s)) @ '' dropped'' else [])))"

section \<open>The report\<close>

definition resolvesItselfAfter :: int where "resolvesItselfAfter = 20"

definition sortedUAPIKeys :: "string list" where
  "sortedUAPIKeys =
     [''content_padding_addition'', ''disable_cookies'', ''h1'', ''h2'', ''h3'', ''h4'', ''i1'', ''i2'', ''i3'', ''i4'', ''i5'',
      ''jc'', ''jmax'', ''jmin'', ''keepalive_timeout'', ''max_handshake_attempts'', ''random_trailers'', ''reject_after_time'',
      ''rekey_after_time'', ''rekey_timeout'', ''s1'', ''s2'', ''s3'', ''s4'']"

definition upper :: "string \<Rightarrow> string" where
  "upper s = map (\<lambda>c. if 97 \<le> ord c \<and> ord c \<le> 122 then chr (ord c - 32) else c) s"

definition status_head :: "Status \<Rightarrow> string list" where
  "status_head st =
     [''== AWGSocks =='', ''Service state     : '' @ st_Service st] @
     (if st_Uptime st \<noteq> [] then [''Uptime            : '' @ st_Uptime st] else []) @
     [''Configuration     : '' @ st_ConfigPath st, []]"

definition status_proxy :: "fmt_env \<Rightarrow> SocksStatus \<Rightarrow> string list option" where
  "status_proxy fm s =
     (case (with_bytes fm (ss_BytesUp s) (ss_BytesDown s) (\<lambda>up down. ''Relayed           : '' @ up @ '' sent / '' @ down @ '' received''),
            formatUDP fm s) of
        (Some relayed, Some udp) \<Rightarrow>
          Some
            ([''== SOCKS5 =='', ''Listen address    : '' @ ss_Listen s, ''Listening         : '' @ yesNo (ss_Listening s),
              ''Active sessions   : '' @ dec_int (ss_Active s), ''Total sessions    : '' @ dec_int (ss_Total s),
              ''Rejected          : '' @ dec_int (ss_Rejected s) @ '' (non-loopback or over the limit)'',
              ''Failed requests   : '' @ formatFailed s, ''Hostname requests : '' @ dec_int (ss_Hostnames s)] @
             (if ss_Total s \<ge> resolvesItselfAfter \<and> ss_Hostnames s = 0 then
                [''                    no program sent a hostname: they resolve names themselves,'',
                 ''                    outside the proxy and its DNS. Turn on remote DNS in them'',
                 ''                    (Firefox: Proxy DNS when using SOCKS v5)'']
              else []) @
             [relayed, ''UDP ASSOCIATE     : '' @ udp, []])
      | _ \<Rightarrow> None)"

definition joinComma :: "string list \<Rightarrow> string" where "joinComma xs = Go_Strings.Join '', '' xs"

definition status_params :: "(string \<rightharpoonup> string) \<Rightarrow> string list" where
  "status_params ps =
     (let keys = filter (\<lambda>k. ps k \<noteq> None) sortedUAPIKeys in
      if keys = [] then []
      else [''Active AWG params : '' @ Go_Strings.Join '' '' (map (\<lambda>k. upper k @ ''='' @ the (ps k)) keys)])"

definition status_tunnel_lines :: "fmt_env \<Rightarrow> TunnelStatus \<Rightarrow> string list option" where
  "status_tunnel_lines fm t =
     (case (humanBytes fm (of_nat (ts_TxBytes t)), humanBytes fm (of_nat (ts_RxBytes t))) of
        (Some tx, Some rx) \<Rightarrow>
          Some
            ([''== AmneziaWG tunnel =='', ''State             : '' @ orDash (ts_State t)] @
             (if ts_PausedBy t \<noteq> [] then
                [''Paused            : this configuration is connected on the Windows adapter '' @ ts_PausedBy t @ '','',
                 ''                    resumes when that adapter disconnects'']
              else []) @
             [''Endpoint          : '' @ orDash (ts_Endpoint t), ''Last handshake    : '' @ formatTime fm (ts_LastHandshake t),
              ''Sent              : '' @ tx, ''Received          : '' @ rx, ''Reconnects        : '' @ dec_int (ts_Reconnects t),
              ''Last error        : '' @ orDash (ts_LastError t), ''Tunnel addresses  : '' @ orDash (joinComma (ts_Addresses t)),
              (if ts_LocalDNS t \<noteq> [] then ''Local DNS         : '' @ joinComma (ts_LocalDNS t) @ '' (this PC, outside the tunnel)''
               else ''In-tunnel DNS     : '' @ orDash (joinComma (ts_DNS t))),
              ''MTU               : '' @ dec_int (ts_MTU t), ''AllowedIPs        : '' @ orDash (joinComma (ts_AllowedIPs t)),
              ''DNS cache         : '' @ formatDNSCache fm (ts_DNSCache t) (ts_LocalDNS t \<noteq> []),
              ''AWG generation    : '' @ orDash (case ts_Generation t of None \<Rightarrow> [] | Some g \<Rightarrow> generation_String g)] @
             status_params (ts_AWGParams t) @ [[]])
      | _ \<Rightarrow> None)"

definition status_version_lines :: "VersionStatus \<Rightarrow> string list" where
  "status_version_lines v =
     [''== Versions =='', ''AWGSocks          : '' @ vs_AWGSocks v,
      ''AmneziaWG         : '' @ vs_AmneziaWGGo v @ '' (commit '' @ shortCommit (vs_AmneziaWGCommit v) @ '')'',
      ''AWG conf parser   : '' @ vs_AWGParser v @ '' (commit '' @ shortCommit (vs_AWGParserCommit v) @ '')'',
      ''Wintun            : '' @ vs_Wintun v, ''Go                : '' @ vs_GoVersion v,
      ''UDP bind          : '' @ orDash (vs_UDPBind v), ''Windows routes    : '' @ vs_SystemRouteState v]"

definition printStatus :: "fmt_env \<Rightarrow> Status \<Rightarrow> string list option" where
  "printStatus fm st =
     (case (status_proxy fm (st_Socks5 st), status_tunnel_lines fm (st_Tunnel st)) of
        (Some proxy, Some tunnel) \<Rightarrow>
          Some (status_head st @ proxy @ tunnel @ status_version_lines (st_Versions st) @
            (if st_Warnings st = [] then []
             else [[], ''== Warnings ==''] @ map (\<lambda>w. ''- '' @ fm_warning fm w) (st_Warnings st)))
      | _ \<Rightarrow> None)"

section \<open>Amounts are rendered exactly\<close>

lemma human_loop_spec:
  assumes "unat d = 1024 ^ Suc exp" and "unat v = unat (n :: u64) div 1024 ^ Suc exp" and "1 \<le> unat v" and "exp \<le> 5"
  shows "\<exists>d' exp'. human_loop v d exp = (d', exp') \<and> exp' \<le> 5 \<and> unat d' = 1024 ^ Suc exp' \<and>
    1024 ^ Suc exp' \<le> unat n \<and> unat n < 1024 ^ Suc (Suc exp')"
  using assms
proof (induction v d exp rule: human_loop.induct)
  case (1 v d exp)
  show ?case
  proof (cases "v \<ge> 1024")
    case True
    then have v: "1024 \<le> unat v" by (simp add: word_le_nat_alt)
    then have n: "1024 ^ Suc (Suc exp) \<le> unat n"
      using 1(3) by (simp add: less_eq_div_iff_mult_less_eq)
    have b: "exp + 1 \<le> 5"
    proof (rule ccontr)
      assume "\<not> exp + 1 \<le> 5"
      then have "(1024 :: nat) ^ 7 \<le> 1024 ^ Suc (Suc exp)" by (intro power_increasing) auto
      with n unsigned_less [of n, where 'a = nat] show False by simp
    qed
    have "(1024 :: nat) ^ Suc (Suc exp) \<le> 1024 ^ 6" using b by (intro power_increasing) auto
    then have d: "unat (d * 1024) = 1024 ^ Suc (exp + 1)"
      using 1(2) by (simp add: unat_word_ariths)
    have q: "unat (v div 1024) = unat n div 1024 ^ Suc (exp + 1)" using 1(3) by (simp add: unat_div div_mult2_eq [symmetric] mult.commute)
    have o: "1 \<le> unat (v div 1024)" using v by (simp add: unat_div less_eq_div_iff_mult_less_eq)
    from 1(1) [OF True d q o b] True show ?thesis by (subst human_loop.simps) simp
  next
    case False
    then have v: "unat v < 1024" by (simp add: word_le_nat_alt)
    have lo: "1024 ^ Suc exp \<le> unat n" using 1(3,4) by (metis div_less not_less zero_less_one_class.zero_less_one not_one_le_zero)
    have hi: "unat n < 1024 ^ Suc (Suc exp)"
      using v 1(3) by (simp add: div_less_iff_less_mult mult.commute)
    from False lo hi 1(2,5) show ?thesis by (subst human_loop.simps) simp
  qed
qed

lemma human_units:
  assumes "\<not> unat (n :: u64) < 1024"
  obtains d exp where "human_loop (n div 1024) 1024 0 = (d, exp)" "exp \<le> 5" "unat d = 1024 ^ Suc exp"
    "1024 ^ Suc exp \<le> unat n" "unat n < 1024 ^ Suc (Suc exp)"
proof -
  have "\<exists>d exp. human_loop (n div 1024) 1024 0 = (d, exp) \<and> exp \<le> 5 \<and> unat d = 1024 ^ Suc exp \<and>
      1024 ^ Suc exp \<le> unat n \<and> unat n < 1024 ^ Suc (Suc exp)"
    using assms by (intro human_loop_spec) (simp_all add: unat_div less_eq_div_iff_mult_less_eq)
  then show ?thesis using that by blast
qed

text \<open>
  an amount of bytes is rendered with the unit that leaves one to four digits before
  the point, for every 64-bit amount: the loop ends, its divisor does not wrap around, and
  the letter of the unit is there.
\<close>

theorem humanBytes_exact:
  "if unat n < 1024 then humanBytes fm n = Some (dec (unat n) @ '' B'')
   else (\<exists>k d. k < 6 \<and> unat d = 1024 ^ Suc k \<and> unat d \<le> unat n \<and> unat n < 1024 * unat d \<and>
     humanBytes fm n = Some (fm_fixed1 fm n d @ '' '' @ [''KMGTPE'' ! k] @ ''iB''))"
proof (cases "unat n < 1024")
  case True
  then show ?thesis by (simp add: humanBytes_def word_less_nat_alt)
next
  case False
  then obtain d exp where h: "human_loop (n div 1024) 1024 0 = (d, exp)" "exp \<le> 5" "unat d = 1024 ^ Suc exp"
    "1024 ^ Suc exp \<le> unat n" "unat n < 1024 ^ Suc (Suc exp)" by (rule human_units)
  then have "humanBytes fm n = Some (fm_fixed1 fm n d @ '' '' @ [''KMGTPE'' ! exp] @ ''iB'')"
    using False by (simp add: humanBytes_def word_less_nat_alt)
  with h False show ?thesis by (auto intro!: exI [of _ exp] exI [of _ d])
qed

lemma humanBytes_total: "\<exists>s. humanBytes fm n = Some s"
proof (cases "unat n < 1024")
  case False
  then show ?thesis by (rule human_units) (simp add: humanBytes_def)
qed (simp add: humanBytes_def word_less_nat_alt)

lemma printStatus_total: "\<exists>ls. printStatus fm st = Some ls"
proof -
  have w: "\<exists>s. with_bytes fm a b f = Some s" for a b f
    using humanBytes_total [of fm a] humanBytes_total [of fm b] by (auto simp: with_bytes_def)
  have u: "\<exists>s. formatUDP fm x = Some s" for x using w by (simp add: formatUDP_def)
  have "\<exists>p. status_proxy fm x = Some p" for x
  proof -
    obtain y where y: "formatUDP fm x = Some y" using u by blast
    show ?thesis unfolding status_proxy_def
      by (rule exE [OF w [of "ss_BytesUp x" "ss_BytesDown x"
            "\<lambda>up down. ''Relayed           : '' @ up @ '' sent / '' @ down @ '' received''"]]) (simp add: y)
  qed
  moreover have "\<exists>p. status_tunnel_lines fm x = Some p" for x
    using humanBytes_total [of fm "of_nat (ts_TxBytes x)"] humanBytes_total [of fm "of_nat (ts_RxBytes x)"]
    by (auto simp: status_tunnel_lines_def)
  ultimately show ?thesis by (metis (no_types, lifting) option.simps(5) prod.case printStatus_def)
qed

end
