(* ===== verification/Winsys_Sid.thy ===== *)
theory Winsys_Sid
  imports Awg_Errors
begin

text \<open>
  The identity of the service's account: \<open>internal/winsys/servicesid.go\<close>, with SHA-1
  (\<open>crypto/sha1\<close>) as FIPS 180-4 defines it.

  Names are ASCII, as the only name the program uses is: their upper case and their UTF-16
  units are taken character by character.
\<close>

unbundle bit_operations_syntax

section \<open>SHA-1\<close>

definition rotl :: "nat \<Rightarrow> 32 word \<Rightarrow> 32 word" where
  "rotl n x = push_bit n x OR drop_bit (32 - n) x"

definition sha1_f :: "nat \<Rightarrow> 32 word \<Rightarrow> 32 word \<Rightarrow> 32 word \<Rightarrow> 32 word" where
  "sha1_f t b c d =
     (if t < 20 then (b AND c) OR (NOT b AND d)
      else if t < 40 then b XOR c XOR d
      else if t < 60 then (b AND c) OR (b AND d) OR (c AND d)
      else b XOR c XOR d)"

definition sha1_k :: "nat \<Rightarrow> 32 word" where
  "sha1_k t = (if t < 20 then 0x5A827999 else if t < 40 then 0x6ED9EBA1 else if t < 60 then 0x8F1BBCDC else 0xCA62C1D6)"

type_synonym sha1_state = "32 word \<times> 32 word \<times> 32 word \<times> 32 word \<times> 32 word"

text \<open>The rounds from \<open>t\<close> on, over the window of the sixteen schedule words that start there.\<close>

fun sha1_rounds :: "nat \<Rightarrow> nat \<Rightarrow> 32 word list \<Rightarrow> sha1_state \<Rightarrow> sha1_state" where
  "sha1_rounds 0 t win st = st"
| "sha1_rounds (Suc n) t win (a, b, c, d, e) =
     (let next = rotl 1 (win ! 13 XOR win ! 8 XOR win ! 2 XOR win ! 0);
          temp = rotl 5 a + sha1_f t b c d + e + hd win + sha1_k t
      in sha1_rounds n (t + 1) (tl win @ [next]) (temp, a, rotl 30 b, c, d))"

fun be_words :: "byte list \<Rightarrow> 32 word list" where
  "be_words (a # b # c # d # rest) =
     (push_bit 24 (ucast a) OR push_bit 16 (ucast b) OR push_bit 8 (ucast c) OR ucast d) # be_words rest"
| "be_words _ = []"

definition sha1_pad :: "byte list \<Rightarrow> byte list" where
  "sha1_pad m =
     m @ [0x80] @ replicate ((119 - length m mod 64) mod 64) 0 @
     map (\<lambda>i. ucast (drop_bit i (of_nat (8 * length m) :: 64 word))) [56, 48, 40, 32, 24, 16, 8, 0]"

fun sha1_blocks :: "32 word list \<Rightarrow> sha1_state \<Rightarrow> sha1_state" where
  "sha1_blocks [] h = h"
| "sha1_blocks (x # xs) (h0, h1, h2, h3, h4) =
     (case sha1_rounds 80 0 (take 16 (x # xs)) (h0, h1, h2, h3, h4) of
        (a, b, c, d, e) \<Rightarrow> sha1_blocks (drop 15 xs) (h0 + a, h1 + b, h2 + c, h3 + d, h4 + e))"

definition sha1_init :: sha1_state where
  "sha1_init = (0x67452301, 0xEFCDAB89, 0x98BADCFE, 0x10325476, 0xC3D2E1F0)"

definition be_bytes :: "32 word \<Rightarrow> byte list" where
  "be_bytes x = [ucast (drop_bit 24 x), ucast (drop_bit 16 x), ucast (drop_bit 8 x), ucast x]"

definition sha1_Sum :: "byte list \<Rightarrow> byte list" where
  "sha1_Sum m =
     (case sha1_blocks (be_words (sha1_pad m)) sha1_init of
        (a, b, c, d, e) \<Rightarrow> be_bytes a @ be_bytes b @ be_bytes c @ be_bytes d @ be_bytes e)"

section \<open>Service identities\<close>

definition ascii_upper :: "char \<Rightarrow> char" where
  "ascii_upper c = (if 97 \<le> ord c \<and> ord c \<le> 122 then chr (ord c - 32) else c)"

definition utf16_Encode :: "string \<Rightarrow> 16 word list" where
  "utf16_Encode s = map (\<lambda>c. of_nat (ord c)) s"

definition le16 :: "16 word \<Rightarrow> byte list" where
  "le16 u = [ucast u, ucast (drop_bit 8 u)]"

fun le_words :: "byte list \<Rightarrow> 32 word list" where
  "le_words (a # b # c # d # rest) =
     (ucast a OR push_bit 8 (ucast b) OR push_bit 16 (ucast c) OR push_bit 24 (ucast d)) # le_words rest"
| "le_words _ = []"

definition ServiceSID :: "string \<Rightarrow> string" where
  "ServiceSID name =
     (let units = utf16_Encode (map ascii_upper name);
          buf = concat (map le16 units);
          sum = sha1_Sum buf
      in ''S-1-5-80'' @ concat (map (\<lambda>u. ''-'' @ dec (unat u)) (le_words sum)))"

definition ServiceAccount :: "string \<Rightarrow> string" where
  "ServiceAccount name = ''NT SERVICE'' @ [CHR 0x5C] @ name"

section \<open>Known answers\<close>

text \<open>Reducing a numeral to its residue keeps the rounds' intermediate values small.\<close>

definition reduce32 :: "32 word \<Rightarrow> 32 word" where "reduce32 x = x"

lemma of_int_reduce: "(of_int (k mod 4294967296) :: 32 word) = of_int k"
  by transfer (simp add: take_bit_eq_mod)

lemma reduce32_simps [simp]:
  "reduce32 0 = 0" "reduce32 1 = 1"
  "reduce32 (numeral n) = of_int (numeral n mod 4294967296)"
  "reduce32 (- numeral n) = of_int (- numeral n mod 4294967296)"
  by (simp_all only: reduce32_def of_int_reduce of_int_numeral of_int_neg_numeral)

lemma sha1_round:
  "sha1_rounds n t (w # win) (a, b, c, d, e) =
     (if n = 0 then (a, b, c, d, e)
      else sha1_rounds (n - 1) (t + 1) (win @ [reduce32 (rotl 1 (win ! 12 XOR win ! 7 XOR win ! 1 XOR w))])
        (reduce32 (rotl 5 a + sha1_f t b c d + e + w + sha1_k t), a, reduce32 (rotl 30 b), c, d))"
  by (cases n) (simp_all add: reduce32_def)

lemmas sha1_eval = sha1_round rotl_def sha1_f_def sha1_k_def


lemma AWGSOCKS_words:
  "be_words (sha1_pad (concat (map le16 (utf16_Encode (map ascii_upper ''AWGSocks''))))) =
     [0x41005700, 0x47005300, 0x4F004300, 0x4B005300, 0x80000000, 0, 0, 0, 0, 0, 0, 0, 0, 0, 0, 128]"
proof -
  have zeros: "replicate 39 (0 :: byte) = [0, 0, 0, 0, 0, 0, 0, 0, 0, 0, 0, 0, 0, 0, 0, 0, 0, 0, 0, 0, 0, 0, 0, 0, 0, 0, 0, 0, 0, 0, 0, 0, 0, 0, 0, 0, 0, 0, 0]"
    by (simp add: numeral_eq_Suc)
  show ?thesis by (simp add: ascii_upper_def utf16_Encode_def le16_def sha1_pad_def zeros)
qed

lemma AWGSOCKS_rounds:
  "sha1_rounds 80 0 [0x41005700, 0x47005300, 0x4F004300, 0x4B005300, 0x80000000, 0, 0, 0, 0, 0, 0, 0, 0, 0, 0, 128]
     (0x67452301, 0xEFCDAB89, 0x98BADCFE, 0x10325476, 0xC3D2E1F0) = (3404246441, 1557563349, 2576821359, 3983585241, 478068430)"
  by (simp add: sha1_eval del: sha1_rounds.simps)

text \<open>
  the security identifier the program computes for its own account is the one
  Windows derives from the service's name, whatever the case the name is written in.
\<close>

theorem ServiceSID_known:
  "ServiceSID ''AWGSocks'' = ''S-1-5-80-2865769778-1580442700-1829327410-1325704189-3198177760'' \<and>
   ServiceSID ''awgsocks'' = ServiceSID ''AWGSocks''"
proof
  have "sha1_Sum (concat (map le16 (utf16_Encode (map ascii_upper ''AWGSocks'')))) =
      concat (map be_bytes [841863338, 1285829470, 844237165, 4255319119, 3763445950])"
    unfolding sha1_Sum_def AWGSOCKS_words sha1_init_def by (simp add: AWGSOCKS_rounds be_bytes_def del: sha1_rounds.simps)
  moreover have "le_words (concat (map be_bytes [841863338, 1285829470, 844237165, 4255319119, 3763445950])) =
      [2865769778, 1580442700, 1829327410, 1325704189, 3198177760]" by (simp add: be_bytes_def)
  ultimately show "ServiceSID ''AWGSocks'' = ''S-1-5-80-2865769778-1580442700-1829327410-1325704189-3198177760''"
    unfolding ServiceSID_def Let_def by (simp only:) (simp add: dec.simps chr_def)
  show "ServiceSID ''awgsocks'' = ServiceSID ''AWGSocks''" by (simp add: ServiceSID_def ascii_upper_def chr_def)
qed

end
