(* ===== verification/Winsys_Acl.thy ===== *)
theory Winsys_Acl
  imports Winsys_Sid Config_App
begin

text \<open>
  The Windows helpers: access control lists (\<open>internal/winsys/security_windows.go\<close>,
  \<open>pipesec_windows.go\<close>) over a model of what the installer changes, the file system with
  the explicit DACL of each path, and the registration of the service.

  Every system call may fail; when it does is a parameter. A DACL of \<open>None\<close> is the one
  inherited from the directory.
\<close>

unbundle bit_operations_syntax

section \<open>What the installer changes\<close>

text \<open>How a service is registered: \<open>mgr.Config\<close> as far as the program sets it.\<close>

record mgr_Config =
  mc_DisplayName :: string
  mc_Description :: string
  mc_Automatic :: bool
  mc_DelayedAutoStart :: bool
  mc_OwnProcess :: bool
  mc_ErrorNormal :: bool
  mc_ServiceStartName :: string
  mc_SidUnrestricted :: bool
  mc_Dependencies :: "string list"

record service =
  sc_Binary :: string
  sc_Config :: mgr_Config
  sc_Args :: "string list"
  sc_Privileges :: "16 word list"
  sc_Recovery :: "nat list"

record os =
  os_files :: files
  os_dirs :: "string set"
  os_dacl :: "string \<rightharpoonup> string"
  os_service :: "service option"
  os_clock :: nat

datatype call =
    OpenProcessToken | TokenUser | ParseSDDL string | ReadDACL string | SetNamedSecurityInfo string
  | Mkdir string | StatOf string | Open string | OpenFile string | WriteTo string | CloseOf string
  | RemoveOf string | RemoveAllOf string | MarshalApp | WriteFile string | Rename string
  | Connect | OpenService | CreateService | ChangeServiceConfig2 | DeleteService | SetRecoveryActions
  | StartOf | ControlStop | Executable | KnownFolder

text \<open>
  The environment: which calls fail when, what a failed write or removal leaves behind, the
  entries of a directory, the state the service control manager reports, how much longer
  than asked a sleep takes, and the path functions.
\<close>

datatype svc_State = SvcStopped | SvcStartPending | SvcStopPending | SvcRunning | SvcContinuePending | SvcPausePending | SvcPaused

record winenv =
  we_app :: app_env
  we_confParse :: "string \<Rightarrow> string \<Rightarrow> goerr + conf_Config"
  we_pbase :: "string \<Rightarrow> string"
  we_nameValid :: "string \<Rightarrow> bool"
  we_fail :: "call \<Rightarrow> os \<Rightarrow> goerr option"
  we_part :: "string \<Rightarrow> os \<Rightarrow> nat"
  we_left :: "string \<Rightarrow> os \<Rightarrow> string \<Rightarrow> bool"
  we_ReadDir :: "string \<Rightarrow> os \<Rightarrow> goerr + (string \<times> bool) list"
  we_Query :: "os \<Rightarrow> goerr + svc_State"
  we_lag :: "os \<Rightarrow> nat"
  we_elevated :: bool
  we_ProgramFiles :: string
  we_Executable :: string
  we_Dir :: "string \<Rightarrow> string"
  we_Clean :: "string \<Rightarrow> string"
  we_tokenSID :: string

type_synonym outcome = "goerr option \<times> os"

text \<open>A call that changes nothing when it fails, and the sequence of two.\<close>

definition call_or :: "winenv \<Rightarrow> call \<Rightarrow> (os \<Rightarrow> os) \<Rightarrow> os \<Rightarrow> outcome" where
  "call_or we c f s = (case we_fail we c s of Some e \<Rightarrow> (Some e, s) | None \<Rightarrow> (None, f s))"

definition and_then :: "outcome \<Rightarrow> (os \<Rightarrow> outcome) \<Rightarrow> outcome" where
  "and_then r f = (case r of (Some e, s) \<Rightarrow> (Some e, s) | (None, s) \<Rightarrow> f s)"

definition wrap :: "string \<Rightarrow> outcome \<Rightarrow> outcome" where
  "wrap msg r = (map_option (Errorf_w msg) (fst r), snd r)"

definition MkdirAll :: "winenv \<Rightarrow> string \<Rightarrow> os \<Rightarrow> outcome" where
  "MkdirAll we p = call_or we (Mkdir p) (\<lambda>s. s\<lparr>os_dirs := insert p (os_dirs s)\<rparr>)"

definition ErrNotExist :: goerr where
  "ErrNotExist = errors_New ''file does not exist''"

definition Stat :: "winenv \<Rightarrow> string \<Rightarrow> os \<Rightarrow> goerr option" where
  "Stat we p s =
     (case we_fail we (StatOf p) s of
        Some e \<Rightarrow> Some e
      | None \<Rightarrow> if os_files s p \<noteq> None \<or> p \<in> os_dirs s then None else Some ErrNotExist)"

text \<open>\<open>os.Remove\<close> of one path, and \<open>os.RemoveAll\<close> of a path and all below it.\<close>

definition within :: "string \<Rightarrow> string \<Rightarrow> bool" where
  "within d p \<longleftrightarrow> p = d \<or> HasPrefix p (d @ [CHR 0x5C])"

definition Remove :: "winenv \<Rightarrow> string \<Rightarrow> os \<Rightarrow> outcome" where
  "Remove we p = call_or we (RemoveOf p)
     (\<lambda>s. s\<lparr>os_files := (os_files s)(p := None), os_dirs := os_dirs s - {p}, os_dacl := (os_dacl s)(p := None)\<rparr>)"

definition delete_where :: "(string \<Rightarrow> bool) \<Rightarrow> os \<Rightarrow> os" where
  "delete_where gone s =
     s\<lparr>os_files := (\<lambda>q. if gone q then None else os_files s q), os_dirs := Set.filter (\<lambda>q. \<not> gone q) (os_dirs s),
       os_dacl := (\<lambda>q. if gone q then None else os_dacl s q)\<rparr>"

definition RemoveAll :: "winenv \<Rightarrow> string \<Rightarrow> os \<Rightarrow> outcome" where
  "RemoveAll we p s =
     (case we_fail we (RemoveAllOf p) s of
        Some e \<Rightarrow> (Some e, delete_where (\<lambda>q. within p q \<and> \<not> we_left we p s q) s)
      | None \<Rightarrow> (None, delete_where (within p) s))"

definition Sleep :: "winenv \<Rightarrow> nat \<Rightarrow> os \<Rightarrow> os" where
  "Sleep we ms s = s\<lparr>os_clock := os_clock s + ms + we_lag we s\<rparr>"

section \<open>Security descriptors\<close>

definition secureSDDL :: string where "secureSDDL = ''D:P(A;OICI;FA;;;SY)(A;OICI;FA;;;BA)''"
definition readableSDDL :: string where "readableSDDL = ''D:P(A;;FA;;;SY)(A;;FA;;;BA)(A;;FR;;;BU)''"
definition readExecute :: string where "readExecute = ''0x1200a9''"
definition modify :: string where "modify = ''0x1301bf''"

definition dataDirSDDL :: "string \<Rightarrow> string" where
  "dataDirSDDL serviceSID = ''D:P(A;OICI;FA;;;SY)(A;OICI;FA;;;BA)(A;OICI;FR;;;'' @ serviceSID @ '')''"

definition logDirSDDL :: "string \<Rightarrow> string" where
  "logDirSDDL serviceSID = ''D:P(A;OICI;FA;;;SY)(A;OICI;FA;;;BA)(A;OICI;'' @ modify @ '';;;'' @ serviceSID @ '')''"

definition secretSDDL :: "string \<Rightarrow> string" where
  "secretSDDL serviceSID = ''D:P(A;;FA;;;SY)(A;;FA;;;BA)(A;;FR;;;'' @ serviceSID @ '')''"

definition userReadableSDDL :: "string \<Rightarrow> string" where
  "userReadableSDDL serviceSID = readableSDDL @ ''(A;;FR;;;'' @ serviceSID @ '')''"

definition programDirSDDL :: "string \<Rightarrow> string" where
  "programDirSDDL serviceSID =
     ''D:P(A;OICI;FA;;;SY)(A;OICI;FA;;;BA)(A;OICI;'' @ readExecute @ '';;;BU)(A;OICI;'' @ readExecute @ '';;;'' @ serviceSID @ '')''"

definition programFileSDDL :: "string \<Rightarrow> string" where
  "programFileSDDL serviceSID =
     ''D:P(A;;FA;;;SY)(A;;FA;;;BA)(A;;'' @ readExecute @ '';;;BU)(A;;'' @ readExecute @ '';;;'' @ serviceSID @ '')''"

section \<open>Applying them\<close>

definition ErrNotElevated :: string where "ErrNotElevated = ''this operation requires Administrator privileges''"

definition IsElevated :: "winenv \<Rightarrow> os \<Rightarrow> bool" where
  "IsElevated we s \<longleftrightarrow> we_fail we OpenProcessToken s = None \<and> we_elevated we"

definition RequireElevation :: "winenv \<Rightarrow> string \<Rightarrow> os \<Rightarrow> goerr option" where
  "RequireElevation we action s = (if IsElevated we s then None else Some (errors_New (action @ '': '' @ ErrNotElevated)))"

definition applyDACL :: "winenv \<Rightarrow> string \<Rightarrow> string \<Rightarrow> os \<Rightarrow> outcome" where
  "applyDACL we path sddl s =
     (case we_fail we (ParseSDDL sddl) s of
        Some e \<Rightarrow> (Some (Errorf_w ''could not build the security descriptor: '' e), s)
      | None \<Rightarrow>
          (case we_fail we (ReadDACL sddl) s of
             Some e \<Rightarrow> (Some (Errorf_w ''could not read the DACL: '' e), s)
           | None \<Rightarrow>
               wrap (''could not apply the ACL to '' @ path @ '': '')
                 (call_or we (SetNamedSecurityInfo path) (\<lambda>s. s\<lparr>os_dacl := (os_dacl s)(path \<mapsto> sddl)\<rparr>) s)))"

definition ensureDir :: "winenv \<Rightarrow> string \<Rightarrow> string \<Rightarrow> os \<Rightarrow> outcome" where
  "ensureDir we path sddl s =
     and_then (wrap (''could not create '' @ path @ '': '') (MkdirAll we path s)) (applyDACL we path sddl)"

definition EnsureDir :: "winenv \<Rightarrow> string \<Rightarrow> os \<Rightarrow> outcome" where "EnsureDir we path = ensureDir we path secureSDDL"
definition Protect :: "winenv \<Rightarrow> string \<Rightarrow> os \<Rightarrow> outcome" where "Protect we path = applyDACL we path secureSDDL"
definition ProtectUserReadable :: "winenv \<Rightarrow> string \<Rightarrow> string \<Rightarrow> os \<Rightarrow> outcome" where
  "ProtectUserReadable we path sid = applyDACL we path (userReadableSDDL sid)"
definition EnsureDataDir :: "winenv \<Rightarrow> string \<Rightarrow> string \<Rightarrow> os \<Rightarrow> outcome" where
  "EnsureDataDir we path sid = ensureDir we path (dataDirSDDL sid)"
definition EnsureLogDir :: "winenv \<Rightarrow> string \<Rightarrow> string \<Rightarrow> os \<Rightarrow> outcome" where
  "EnsureLogDir we path sid = ensureDir we path (logDirSDDL sid)"
definition EnsureProgramDir :: "winenv \<Rightarrow> string \<Rightarrow> string \<Rightarrow> os \<Rightarrow> outcome" where
  "EnsureProgramDir we path sid = ensureDir we path (programDirSDDL sid)"
definition ProtectSecret :: "winenv \<Rightarrow> string \<Rightarrow> string \<Rightarrow> os \<Rightarrow> outcome" where
  "ProtectSecret we path sid = applyDACL we path (secretSDDL sid)"
definition ProtectProgram :: "winenv \<Rightarrow> string \<Rightarrow> string \<Rightarrow> os \<Rightarrow> outcome" where
  "ProtectProgram we path sid = applyDACL we path (programFileSDDL sid)"

text \<open>Each entry of a directory that is not one itself, until one fails.\<close>

fun each_file :: "(string \<Rightarrow> os \<Rightarrow> outcome) \<Rightarrow> (string \<times> bool) list \<Rightarrow> os \<Rightarrow> outcome" where
  "each_file f [] s = (None, s)"
| "each_file f ((name, isDir) # es) s = (if isDir then each_file f es s else and_then (f name s) (each_file f es))"

definition ProtectTree :: "winenv \<Rightarrow> string \<Rightarrow> os \<Rightarrow> outcome" where
  "ProtectTree we dir s =
     and_then (Protect we dir s) (\<lambda>s1.
       case we_ReadDir we dir s1 of
         Inl _ \<Rightarrow> (None, s1)
       | Inr es \<Rightarrow> each_file (\<lambda>name. Protect we (ev_Join (we_app we) dir name)) es s1)"

section \<open>The management pipe\<close>

definition basePipeSDDL :: string where "basePipeSDDL = ''D:P(A;;GA;;;SY)(A;;GA;;;BA)''"

definition currentProcessSID :: "winenv \<Rightarrow> os \<Rightarrow> goerr + string" where
  "currentProcessSID we s =
     (case we_fail we OpenProcessToken s of
        Some e \<Rightarrow> Inl e
      | None \<Rightarrow>
          (case we_fail we TokenUser s of
             Some e \<Rightarrow> Inl e
           | None \<Rightarrow> if TrimSpace (we_tokenSID we) = [] then Inl (errors_New ''could not read the SID'') else Inr (we_tokenSID we)))"

definition PipeSecurityDescriptor :: "winenv \<Rightarrow> os \<Rightarrow> string" where
  "PipeSecurityDescriptor we s =
     (case currentProcessSID we s of
        Inl _ \<Rightarrow> basePipeSDDL
      | Inr sid \<Rightarrow>
          if sid = [] then basePipeSDDL
          else if sid = ''S-1-5-18'' then basePipeSDDL
          else basePipeSDDL @ ''(A;;GA;;;'' @ sid @ '')'')"

section \<open>Who may do what\<close>

text \<open>
  A descriptor as Windows documents the language: after \<open>D:P\<close>, which shuts inheritance
  out, the entries in parentheses; an allowing entry has the fields \<open>A\<close>, flags, rights, two
  empty ones and the trustee.
\<close>

function read_aces :: "string \<Rightarrow> string list list" where
  "read_aces s = (case Cut (CHR '')'') s of None \<Rightarrow> [] | Some (a, rest) \<Rightarrow> split_on (CHR '';'') (drop 1 a) # read_aces rest)"
  by auto
termination
  by (relation "measure length") (auto dest!: Cut_Some)

declare read_aces.simps [simp del]

text \<open>The access rights the program's descriptors name, as Windows defines their masks.\<close>

definition rights_mask :: "string \<Rightarrow> 32 word" where
  "rights_mask r =
     (if r = ''FA'' \<or> r = ''GA'' then 0x1F01FF
      else if r = ''FR'' then 0x120089
      else if r = readExecute then 0x1200A9
      else if r = modify then 0x1301BF
      else 0)"

definition readRights :: "32 word" where "readRights = 0x1"
definition executeRights :: "32 word" where "executeRights = 0x20"

text \<open>
  Every way to change a file or to get rid of it: write and append data, write extended
  and basic attributes, delete a child, delete, change the DACL, change the owner.
\<close>

definition writeRights :: "32 word" where "writeRights = 0xD0156"

definition ownRights :: "32 word" where "ownRights = 0xC0000"

definition holders :: "32 word \<Rightarrow> string \<Rightarrow> string list" where
  "holders bits sddl =
     (if HasPrefix sddl ''D:P'' then
        map (\<lambda>f. f ! 5) (filter (\<lambda>f. length f = 6 \<and> f ! 0 = ''A'' \<and> rights_mask (f ! 2) AND bits \<noteq> 0) (read_aces (drop 3 sddl)))
      else [])"

definition sid_text :: "string \<Rightarrow> bool" where
  "sid_text s \<longleftrightarrow> CHR '';'' \<notin> set s \<and> CHR '')'' \<notin> set s"

lemma ServiceSID_text: "sid_text (ServiceSID name)"
  by (auto simp: sid_text_def ServiceSID_def Let_def is_digit_def dest!: dec_digits)

lemma read_aces_Nil [simp]: "read_aces [] = []"
  by (simp add: read_aces.simps)

lemma read_ace [simp]:
  assumes "sid_text sid" and "CHR '')'' \<notin> set fs"
  shows "read_aces (CHR ''('' # fs @ CHR '';'' # sid @ CHR '')'' # rest) = split_on (CHR '';'') (fs @ CHR '';'' # sid) # read_aces rest"
  using assms Cut_append [of "CHR '')''" "CHR ''('' # fs @ CHR '';'' # sid" rest]
  by (subst read_aces.simps) (simp add: sid_text_def)


end
