(* ===== verification/Service_Control.thy ===== *)
theory Service_Control
  imports Winsys_Acl Service_Status
begin

text \<open>
  Installing, repairing and removing the service, and controlling it from the command
  line: \<open>internal/service/control_windows.go\<close>.

  The messages printed on the console and the texts of the errors of the configuration
  packages are left out; \<open>strings.EqualFold\<close> folds ASCII.
\<close>

section \<open>Registration\<close>

definition serviceDescription :: string where
  "serviceDescription =
     ''Exposes an AmneziaWG userspace tunnel as a local SOCKS5 proxy only. '' @
     ''It does not change Windows routing, the default gateway, system DNS or system proxy settings.''"

definition ServiceDisplayName :: string where "ServiceDisplayName = ''AWGSocks AmneziaWG SOCKS5 Proxy''"

definition stateWaitTimeout :: nat where "stateWaitTimeout = 30000"

record InstallOptions =
  io_ConfigPath :: string
  io_InPlace :: bool
  io_Socks5Listen :: string
  io_LogLevel :: string
  io_AutoStartTunnel :: bool
  io_StartService :: bool
  io_Scripts :: "string list"

definition programDir :: "winenv \<Rightarrow> os \<Rightarrow> goerr + string" where
  "programDir we s =
     (case we_fail we KnownFolder s of
        Some e \<Rightarrow> Inl (Errorf_w ''could not locate Program Files: '' e)
      | None \<Rightarrow> Inr (ev_Join (we_app we) (we_ProgramFiles we) ServiceName))"

definition requiredPrivileges :: "string list" where "requiredPrivileges = [''SeChangeNotifyPrivilege'']"

definition multiSZ :: "string list \<Rightarrow> 16 word list" where
  "multiSZ items = concat (map (\<lambda>s. utf16_Encode s @ [0]) items) @ [0]"

definition restrictPrivileges :: "winenv \<Rightarrow> os \<Rightarrow> outcome" where
  "restrictPrivileges we s =
     wrap ''could not restrict the service privileges: ''
       (call_or we ChangeServiceConfig2
          (\<lambda>s. s\<lparr>os_service := map_option (\<lambda>v. v\<lparr>sc_Privileges := multiSZ requiredPrivileges\<rparr>) (os_service s)\<rparr>) s)"

definition serviceConfig :: mgr_Config where
  "serviceConfig =
     \<lparr>mc_DisplayName = ServiceDisplayName, mc_Description = serviceDescription, mc_Automatic = True,
      mc_DelayedAutoStart = False, mc_OwnProcess = True, mc_ErrorNormal = True,
      mc_ServiceStartName = ServiceAccount ServiceName, mc_SidUnrestricted = True, mc_Dependencies = [''Tcpip'']\<rparr>"

section \<open>Waiting and copying\<close>

fun stateName :: "svc_State \<Rightarrow> string" where
  "stateName SvcStopped = ''stopped''"
| "stateName SvcStartPending = ''starting''"
| "stateName SvcStopPending = ''stopping''"
| "stateName SvcRunning = ''running''"
| "stateName SvcContinuePending = ''continuing''"
| "stateName SvcPausePending = ''pausing''"
| "stateName SvcPaused = ''paused''"

function wait_until :: "winenv \<Rightarrow> svc_State \<Rightarrow> nat \<Rightarrow> os \<Rightarrow> outcome" where
  "wait_until we want deadline s =
     (if os_clock s < deadline then
        (case we_Query we s of
           Inl e \<Rightarrow> (Some (Errorf_w ''could not read the service state: '' e), s)
         | Inr st \<Rightarrow> if st = want then (None, s) else wait_until we want deadline (Sleep we 300 s))
      else (Some (errors_New (''the service did not reach the '' @ stateName want @ '' state within 30s'')), s))"
  by pat_completeness auto
termination
  by (relation "measure (\<lambda>(we, want, deadline, s). deadline - os_clock s)") (auto simp: Sleep_def)

declare wait_until.simps [simp del]

definition waitForState :: "winenv \<Rightarrow> svc_State \<Rightarrow> os \<Rightarrow> outcome" where
  "waitForState we want s = wait_until we want (os_clock s + stateWaitTimeout) s"

text \<open>Opening a file to read, creating or truncating one, and writing it.\<close>

definition open_read :: "winenv \<Rightarrow> string \<Rightarrow> os \<Rightarrow> goerr + byte list" where
  "open_read we p s =
     (case we_fail we (Open p) s of
        Some e \<Rightarrow> Inl e
      | None \<Rightarrow> (case os_files s p of None \<Rightarrow> Inl ErrNotExist | Some c \<Rightarrow> Inr c))"

definition open_truncate :: "winenv \<Rightarrow> string \<Rightarrow> os \<Rightarrow> outcome" where
  "open_truncate we p = call_or we (OpenFile p)
     (\<lambda>s. s\<lparr>os_files := (os_files s)(p \<mapsto> []),
            os_dacl := (if os_files s p = None then (os_dacl s)(p := None) else os_dacl s)\<rparr>)"

definition write_all :: "winenv \<Rightarrow> string \<Rightarrow> byte list \<Rightarrow> os \<Rightarrow> outcome" where
  "write_all we p content s =
     (case we_fail we (WriteTo p) s of
        Some e \<Rightarrow> (Some e, s\<lparr>os_files := (os_files s)(p \<mapsto> take (we_part we p s) content)\<rparr>)
      | None \<Rightarrow> (we_fail we (CloseOf p) s, s\<lparr>os_files := (os_files s)(p \<mapsto> content)\<rparr>))"

definition copyFile :: "winenv \<Rightarrow> string \<Rightarrow> string \<Rightarrow> os \<Rightarrow> outcome" where
  "copyFile we src dst s =
     (case open_read we src s of
        Inl e \<Rightarrow> (Some e, s)
      | Inr content \<Rightarrow>
          and_then (MkdirAll we (we_Dir we dst) s) (\<lambda>s1.
          and_then (open_truncate we dst s1) (write_all we dst content)))"

fun copy_attempts :: "winenv \<Rightarrow> string \<Rightarrow> string \<Rightarrow> nat \<Rightarrow> goerr option \<Rightarrow> os \<Rightarrow> outcome" where
  "copy_attempts we src dst 0 err s = (err, s)"
| "copy_attempts we src dst (Suc n) err s =
     (case copyFile we src dst s of
        (None, s1) \<Rightarrow> (None, s1)
      | (Some e, s1) \<Rightarrow> copy_attempts we src dst n (Some e) (Sleep we 250 s1))"

definition copyWhenReleased :: "winenv \<Rightarrow> string \<Rightarrow> string \<Rightarrow> os \<Rightarrow> outcome" where
  "copyWhenReleased we src dst s = copy_attempts we src dst 20 None s"

definition removeLegacyBinary :: "winenv \<Rightarrow> string \<Rightarrow> os \<Rightarrow> os" where
  "removeLegacyBinary we root s =
     (let legacy = ev_Join (we_app we) root ''awgsocks.exe'' in
      if Stat we legacy s \<noteq> None then s else snd (Remove we legacy s))"

section \<open>Repairing permissions\<close>

record aclOps =
  ac_dataDir :: "string \<Rightarrow> os \<Rightarrow> outcome"
  ac_logDir :: "string \<Rightarrow> os \<Rightarrow> outcome"
  ac_secret :: "string \<Rightarrow> os \<Rightarrow> outcome"
  ac_readable :: "string \<Rightarrow> os \<Rightarrow> outcome"
  ac_programDir :: "string \<Rightarrow> os \<Rightarrow> outcome"
  ac_program :: "string \<Rightarrow> os \<Rightarrow> outcome"
  ac_protect :: "string \<Rightarrow> os \<Rightarrow> outcome"

definition realACLs :: "winenv \<Rightarrow> aclOps" where
  "realACLs we =
     (let sid = ServiceSID ServiceName in
      \<lparr>ac_dataDir = \<lambda>p. EnsureDataDir we p sid, ac_logDir = \<lambda>p. EnsureLogDir we p sid,
       ac_secret = \<lambda>p. ProtectSecret we p sid, ac_readable = \<lambda>p. ProtectUserReadable we p sid,
       ac_programDir = \<lambda>p. EnsureProgramDir we p sid, ac_program = \<lambda>p. ProtectProgram we p sid,
       ac_protect = Protect we\<rparr>)"

text \<open>The application environment, reading the files as they are now.\<close>

definition env_now :: "winenv \<Rightarrow> os \<Rightarrow> app_env" where
  "env_now we s =
     (we_app we)\<lparr>ev_ReadFile := (\<lambda>p.
        case we_fail we (Open p) s of
          Some e \<Rightarrow> ReadError e
        | None \<Rightarrow> (case os_files s p of None \<Rightarrow> Missing | Some c \<Rightarrow> Content c))\<rparr>"

text \<open>The steps of a repair, in their order: the ones on paths that are there.\<close>

definition if_there :: "winenv \<Rightarrow> string \<Rightarrow> (string \<Rightarrow> os \<Rightarrow> outcome) \<Rightarrow> os \<Rightarrow> outcome" where
  "if_there we p f s = (if Stat we p s = None then f p s else (None, s))"

definition repair_secret :: "winenv \<Rightarrow> aclOps \<Rightarrow> os \<Rightarrow> outcome" where
  "repair_secret we acl s =
     (case LoadApp (env_now we s) [] of
        Inl _ \<Rightarrow> (None, s)
      | Inr app \<Rightarrow> if a_ConfigPath app = [] then (None, s) else if_there we (a_ConfigPath app) (ac_secret acl) s)"

definition repair_program :: "winenv \<Rightarrow> aclOps \<Rightarrow> os \<Rightarrow> outcome" where
  "repair_program we acl s =
     (case programDir we s of
        Inl _ \<Rightarrow> (None, s)
      | Inr dir \<Rightarrow>
          (case we_ReadDir we dir s of
             Inl _ \<Rightarrow> (None, s)
           | Inr entries \<Rightarrow>
               and_then (ac_programDir acl dir s)
                 (each_file (\<lambda>name. ac_program acl (ev_Join (we_app we) dir name)) entries)))"

definition repairPermissions :: "winenv \<Rightarrow> aclOps \<Rightarrow> os \<Rightarrow> outcome" where
  "repairPermissions we acl s =
     (let root = RootDir (we_app we) in
      case Stat we root s of
        Some e \<Rightarrow> (Some (Errorf_w (root @ '' does not exist, so there is nothing to repair: '') e), s)
      | None \<Rightarrow>
          and_then (ac_dataDir acl root s) (\<lambda>s1.
          and_then (if_there we (LogDir (we_app we)) (ac_logDir acl) s1) (\<lambda>s2.
          and_then (repair_secret we acl s2) (\<lambda>s3.
          and_then (if_there we (ev_Join (we_app we) root ''awgsocks.exe'') (ac_protect acl) s3) (\<lambda>s4.
          and_then (if_there we (AppConfigPath (we_app we)) (ac_readable acl) s4)
            (repair_program we acl))))))"

definition RepairPermissions :: "winenv \<Rightarrow> os \<Rightarrow> outcome" where
  "RepairPermissions we s =
     (case RequireElevation we ''repairing the data directory permissions'' s of
        Some e \<Rightarrow> (Some e, s)
      | None \<Rightarrow> repairPermissions we (realACLs we) s)"

section \<open>Installing\<close>

definition installApp :: "winenv \<Rightarrow> string \<Rightarrow> string \<Rightarrow> InstallOptions \<Rightarrow> os \<Rightarrow> app_err + (App \<times> bool)" where
  "installApp we appPath destPath opts s =
     (let ev = env_now we s;
          (app, kept) =
            (if Stat we appPath s = None then
               (case LoadApp ev appPath of Inr existing \<Rightarrow> (existing, True) | Inl _ \<Rightarrow> (DefaultApp ev, False))
             else (DefaultApp ev, False));
          app1 = app\<lparr>a_ConfigPath := destPath,
                     a_AutoStart := (if \<not> io_AutoStartTunnel opts then False else a_AutoStart app),
                     a_Socks5Listen := (if io_Socks5Listen opts \<noteq> [] then io_Socks5Listen opts else a_Socks5Listen app),
                     a_LogLevel := (if io_LogLevel opts \<noteq> [] then io_LogLevel opts else a_LogLevel app)\<rparr>
      in case Normalize ev app1 of Inl e \<Rightarrow> Inl e | Inr app2 \<Rightarrow> Inr (app2, kept))"

text \<open>\<open>App.Save\<close> on the file system: a file that is renamed into place inherits its DACL.\<close>

definition save_app :: "winenv \<Rightarrow> string \<Rightarrow> App \<Rightarrow> os \<Rightarrow> outcome" where
  "save_app we path app s =
     and_then (wrap ''could not create the directory: '' (MkdirAll we (we_Dir we path) s)) (\<lambda>s1.
       let tmp = path @ ''.tmp'';
           fe = \<lparr>fe_mkdir = True,
                 fe_write =
                   (case (we_fail we (WriteFile tmp) s1, ev_Marshal (we_app we) app) of
                      (Some _, Inr raw) \<Rightarrow> Some (take (we_part we tmp s1) raw)
                    | _ \<Rightarrow> None),
                 fe_rename = (we_fail we (Rename path) s1 = None)\<rparr>
       in case Save (we_app we) fe path app (os_files s1) of
            (False, _, fs) \<Rightarrow> (Some (errors_New ''could not save the settings''), s1\<lparr>os_files := fs\<rparr>)
          | (True, _, fs) \<Rightarrow> (None, s1\<lparr>os_files := fs, os_dacl := (os_dacl s1)(path := None)\<rparr>))"

definition copy_job :: "winenv \<Rightarrow> string \<Rightarrow> string \<Rightarrow> string \<times> string \<Rightarrow> os \<Rightarrow> outcome" where
  "copy_job we dir sid j s =
     (case j of (src, dst) \<Rightarrow>
        and_then
          (if EqualFold_ascii (we_Clean we src) (we_Clean we dst) then (None, s)
           else wrap (''could not copy '' @ we_pbase we src @ '' into '' @ dir @ '': '') (copyWhenReleased we src dst s))
          (ProtectProgram we dst sid))"

fun copy_jobs :: "winenv \<Rightarrow> string \<Rightarrow> string \<Rightarrow> (string \<times> string) list \<Rightarrow> os \<Rightarrow> outcome" where
  "copy_jobs we dir sid [] s = (None, s)"
| "copy_jobs we dir sid (j # js) s = and_then (copy_job we dir sid j s) (copy_jobs we dir sid js)"

definition service_path :: "winenv \<Rightarrow> string \<Rightarrow> string" where
  "service_path we dir = ev_Join (we_app we) dir ''awgsocks.exe''"

definition installProgram :: "winenv \<Rightarrow> string \<Rightarrow> string \<Rightarrow> string list \<Rightarrow> string \<Rightarrow> os \<Rightarrow> outcome" where
  "installProgram we exePath dir scripts sid s =
     and_then (EnsureProgramDir we dir sid s) (\<lambda>s1.
       copy_jobs we dir sid
         ((exePath, service_path we dir) #
          map (\<lambda>name. (ev_Join (we_app we) (we_Dir we exePath) name, ev_Join (we_app we) dir name))
            (filter (\<lambda>name. Stat we (ev_Join (we_app we) (we_Dir we exePath) name) s1 = None) scripts)) s1)"

text \<open>The directories and the configuration, up to the ACL of the private key.\<close>

definition install_data :: "winenv \<Rightarrow> InstallOptions \<Rightarrow> string \<Rightarrow> string \<Rightarrow> string \<Rightarrow> os \<Rightarrow> outcome" where
  "install_data we opts srcPath destPath sid s =
     and_then (EnsureDataDir we (RootDir (we_app we)) sid s) (\<lambda>s1.
     and_then (EnsureLogDir we (LogDir (we_app we)) sid s1) (\<lambda>s2.
     and_then
       (if io_InPlace opts \<or> EqualFold_ascii srcPath destPath then (None, s2)
        else wrap ''could not copy the configuration: '' (copyFile we srcPath destPath s2))
       (ProtectSecret we destPath sid)))"

definition install_settings :: "winenv \<Rightarrow> InstallOptions \<Rightarrow> string \<Rightarrow> string \<Rightarrow> os \<Rightarrow> outcome" where
  "install_settings we opts destPath sid s =
     (let appPath = AppConfigPath (we_app we) in
      case installApp we appPath destPath opts s of
        Inl _ \<Rightarrow> (Some (errors_New ''the settings are invalid''), s)
      | Inr (app, kept) \<Rightarrow> and_then (save_app we appPath app s) (ProtectUserReadable we appPath sid))"

definition create_service :: "winenv \<Rightarrow> string \<Rightarrow> os \<Rightarrow> outcome" where
  "create_service we servicePath s =
     wrap ''could not create the service: ''
       (case os_service s of
          Some _ \<Rightarrow> (Some (errors_New ''the service already exists''), s)
        | None \<Rightarrow>
            call_or we CreateService
              (\<lambda>s. s\<lparr>os_service := Some \<lparr>sc_Binary = servicePath, sc_Config = serviceConfig, sc_Args = [''service''],
                 sc_Privileges = [], sc_Recovery = []\<rparr>\<rparr>) s)"

definition delete_service :: "winenv \<Rightarrow> os \<Rightarrow> outcome" where
  "delete_service we = call_or we DeleteService (\<lambda>s. s\<lparr>os_service := None\<rparr>)"

definition set_recovery :: "winenv \<Rightarrow> os \<Rightarrow> os" where
  "set_recovery we s =
     snd (call_or we SetRecoveryActions
       (\<lambda>s. s\<lparr>os_service := map_option (\<lambda>v. v\<lparr>sc_Recovery := [5000, 10000, 30000]\<rparr>) (os_service s)\<rparr>) s)"

definition start_and_wait :: "winenv \<Rightarrow> os \<Rightarrow> outcome" where
  "start_and_wait we s =
     and_then (wrap ''could not start the service: '' (call_or we StartOf id s)) (waitForState we SvcRunning)"

definition register :: "winenv \<Rightarrow> InstallOptions \<Rightarrow> string \<Rightarrow> os \<Rightarrow> outcome" where
  "register we opts servicePath s =
     and_then (create_service we servicePath s) (\<lambda>s1.
       case restrictPrivileges we s1 of
         (Some e, s2) \<Rightarrow> (Some (e\<lparr>e_msg := e_msg e @ '', so the service was not installed''\<rparr>), snd (delete_service we s2))
       | (None, s2) \<Rightarrow>
           (let s3 = set_recovery we s2 in
            if io_StartService opts then start_and_wait we s3 else (None, s3)))"

definition install_from :: "winenv \<Rightarrow> InstallOptions \<Rightarrow> string \<Rightarrow> string \<Rightarrow> os \<Rightarrow> outcome" where
  "install_from we opts srcPath progDir s =
     (let sid = ServiceSID ServiceName;
          destPath = (if io_InPlace opts then srcPath else TunnelConfigPath (we_app we))
      in and_then (install_data we opts srcPath destPath sid s) (\<lambda>s1.
         and_then (install_settings we opts destPath sid s1) (\<lambda>s2.
           case we_fail we Executable s2 of
             Some e \<Rightarrow> (Some (Errorf_w ''could not determine the executable path: '' e), s2)
           | None \<Rightarrow>
               (let exePath = (case ev_Abs (we_app we) (we_Executable we) of None \<Rightarrow> [] | Some p \<Rightarrow> p) in
                and_then (installProgram we exePath progDir (io_Scripts opts) sid s2) (\<lambda>s3.
                  register we opts (service_path we progDir) (removeLegacyBinary we (RootDir (we_app we)) s3))))))"

definition Install :: "winenv \<Rightarrow> InstallOptions \<Rightarrow> os \<Rightarrow> outcome" where
  "Install we opts s =
     (case RequireElevation we ''installing the service'' s of
        Some e \<Rightarrow> (Some e, s)
      | None \<Rightarrow>
          if TrimSpace (io_ConfigPath opts) = [] then (Some (errors_New ''--config must name the AmneziaWG configuration file''), s)
          else (case ev_Abs (we_app we) (io_ConfigPath opts) of
              None \<Rightarrow> (Some (errors_New ''invalid configuration path''), s)
            | Some srcPath \<Rightarrow>
                (case LoadTunnel (env_now we s) (we_confParse we) (we_pbase we) (we_nameValid we) srcPath of
                   Inl _ \<Rightarrow> (Some (errors_New ''the configuration is invalid, nothing was installed''), s)
                 | Inr tunCfg \<Rightarrow>
                     (case we_fail we Connect s of
                        Some e \<Rightarrow> (Some (Errorf_w ''could not connect to the service control manager: '' e), s)
                      | None \<Rightarrow>
                          if we_fail we OpenService s = None \<and> os_service s \<noteq> None then
                            (Some (errors_New (''the '' @ ServiceName @ '' service is already installed: run `awgsocks uninstall` first'')), s)
                          else (case programDir we s of
                              Inl e \<Rightarrow> (Some e, s)
                            | Inr progDir \<Rightarrow> install_from we opts srcPath progDir s)))))"

section \<open>Removing\<close>

definition removeInstalledData :: "winenv \<Rightarrow> bool \<Rightarrow> os \<Rightarrow> os" where
  "removeInstalledData we keepSettings s =
     (if keepSettings then s
      else snd (Remove we (AppConfigPath (we_app we)) (snd (RemoveAll we (LogDir (we_app we)) s))))"

text \<open>Stopping the service, whose failure is only a warning, and deleting it.\<close>

definition stop_before_delete :: "winenv \<Rightarrow> os \<Rightarrow> os" where
  "stop_before_delete we s =
     (case we_Query we s of
        Inl _ \<Rightarrow> s
      | Inr st \<Rightarrow>
          if st = SvcStopped then s
          else if we_fail we ControlStop s \<noteq> None then s
          else snd (waitForState we SvcStopped s))"

definition uninstall_data :: "winenv \<Rightarrow> bool \<Rightarrow> bool \<Rightarrow> os \<Rightarrow> outcome" where
  "uninstall_data we purge keepSettings s =
     (let root = RootDir (we_app we);
          s1 = removeLegacyBinary we root (removeInstalledData we keepSettings s)
      in if purge then
           (case RemoveAll we root s1 of
              (Some e, s2) \<Rightarrow> if e = ErrNotExist then (None, s2) else (Some (Errorf_w (''could not delete '' @ root @ '': '') e), s2)
            | (None, s2) \<Rightarrow> (None, s2))
         else if Stat we (TunnelConfigPath (we_app we)) s1 = None then (None, s1)
         else (None, snd (Remove we root s1)))"

definition Uninstall :: "winenv \<Rightarrow> bool \<Rightarrow> bool \<Rightarrow> os \<Rightarrow> outcome" where
  "Uninstall we purge keepSettings s =
     (if purge \<and> keepSettings then
        (Some (errors_New ''--purge deletes the settings that --keep-settings is asked to keep, so the two cannot be combined''), s)
      else (case RequireElevation we ''removing the service'' s of
          Some e \<Rightarrow> (Some e, s)
        | None \<Rightarrow>
            (case we_fail we Connect s of
               Some e \<Rightarrow> (Some (Errorf_w ''could not connect to the service control manager: '' e), s)
             | None \<Rightarrow>
                 if we_fail we OpenService s \<noteq> None \<or> os_service s = None then uninstall_data we purge keepSettings s
                 else and_then (wrap ''could not delete the service: '' (delete_service we (stop_before_delete we s)))
                        (uninstall_data we purge keepSettings))))"

section \<open>Controlling the service\<close>

definition withService :: "winenv \<Rightarrow> string \<Rightarrow> (os \<Rightarrow> outcome) \<Rightarrow> os \<Rightarrow> outcome" where
  "withService we action fn s =
     (case RequireElevation we action s of
        Some e \<Rightarrow> (Some e, s)
      | None \<Rightarrow>
          (case we_fail we Connect s of
             Some e \<Rightarrow> (Some (Errorf_w ''could not connect to the service control manager: '' e), s)
           | None \<Rightarrow>
               if we_fail we OpenService s \<noteq> None \<or> os_service s = None then
                 (Some (errors_New (''the '' @ ServiceName @ '' service was not found: run `awgsocks install` first'')), s)
               else fn s))"

definition StartService :: "winenv \<Rightarrow> os \<Rightarrow> outcome" where
  "StartService we = withService we ''starting the service''
     (\<lambda>s. if we_Query we s = Inr SvcRunning then (None, s) else start_and_wait we s)"

definition StopService :: "winenv \<Rightarrow> os \<Rightarrow> outcome" where
  "StopService we = withService we ''stopping the service''
     (\<lambda>s. if we_Query we s = Inr SvcStopped then (None, s)
          else and_then (wrap ''could not stop the service: '' (call_or we ControlStop id s)) (waitForState we SvcStopped))"

definition RestartService :: "winenv \<Rightarrow> os \<Rightarrow> outcome" where
  "RestartService we s = and_then (StopService we s) (StartService we)"

definition QueryState :: "winenv \<Rightarrow> os \<Rightarrow> goerr + string" where
  "QueryState we s =
     (case we_fail we Connect s of
        Some e \<Rightarrow> Inl (Errorf_w ''could not connect to the service control manager: '' e)
      | None \<Rightarrow>
          if we_fail we OpenService s \<noteq> None \<or> os_service s = None then Inr ''not installed''
          else (case we_Query we s of
              Inl e \<Rightarrow> Inl (Errorf_w ''could not read the service state: '' e)
            | Inr st \<Rightarrow> Inr (stateName st)))"

end
