(* ===== verification/Service_Install.thy ===== *)
theory Service_Install
  imports Service_Control
begin

text \<open>
  What installing, repairing and removing guarantee, whichever system call fails.
\<close>

section \<open>Bounded waits\<close>

lemma wait_until_cases:
  assumes "wait_until we want d s = (r, s')" and "\<And>x. we_lag we x \<le> L"
  shows "\<exists>t. s' = s\<lparr>os_clock := t\<rparr> \<and> os_clock s \<le> t \<and> t < max (os_clock s + 1) (d + 300 + L) \<and>
    (case r of None \<Rightarrow> we_Query we s' = Inr want \<and> t < d | Some e \<Rightarrow> (\<exists>q. we_Query we s' = Inl q) \<or> d \<le> t)"
  using assms
proof (induction we want d s arbitrary: r s' rule: wait_until.induct)
  case (1 we want d s)
  note r = 1(2) [unfolded wait_until.simps [of we want d s]]
  show ?case
  proof (cases "os_clock s < d \<and> (\<exists>st. we_Query we s = Inr st \<and> st \<noteq> want)")
    case True
    then obtain st where q: "os_clock s < d" "we_Query we s = Inr st" "st \<noteq> want" by blast
    with r have "wait_until we want d (Sleep we 300 s) = (r, s')" by simp
    from 1(1) [OF q this 1(3)] q 1(3) [of s] show ?thesis by (auto simp: Sleep_def split: option.splits)
  qed (use r in \<open>auto split: if_splits sum.splits intro!: exI [of _ "os_clock s"]\<close>)
qed

lemma waitForState_frame: "\<exists>t. snd (waitForState we want s) = s\<lparr>os_clock := t\<rparr>"
proof -
  have "\<exists>t. snd (wait_until we want d s) = s\<lparr>os_clock := t\<rparr>" for d
  proof (induction we want d s rule: wait_until.induct)
    case (1 we want d s)
    show ?case
    proof (cases "os_clock s < d \<and> (\<exists>st. we_Query we s = Inr st \<and> st \<noteq> want)")
      case True
      with 1 show ?thesis by (subst wait_until.simps) (auto simp: Sleep_def)
    qed (subst wait_until.simps, auto split: sum.splits intro!: exI [of _ "os_clock s"])
  qed
  then show ?thesis by (simp add: waitForState_def)
qed

text \<open>
  C28: waiting for the service to reach a state ends. If a sleep is never more than \<open>L\<close>
  milliseconds longer than asked, the wait is over within 30.3 seconds and \<open>L\<close>
  milliseconds. It succeeds only when the service control manager reports the state, before
  the 30 seconds are over; it fails only when the state cannot be read or the 30 seconds
  are over; and it changes nothing.
\<close>

theorem waitForState_ends:
  assumes "waitForState we want s = (r, s')" and "\<And>x. we_lag we x \<le> L"
  shows "\<exists>t. s' = s\<lparr>os_clock := t\<rparr> \<and> os_clock s \<le> t \<and> t < os_clock s + 30300 + L \<and>
    (case r of
       None \<Rightarrow> we_Query we s' = Inr want \<and> t < os_clock s + 30000
     | Some e \<Rightarrow> (\<exists>q. we_Query we s' = Inl q) \<or> os_clock s + 30000 \<le> t)"
proof -
  obtain t where "s' = s\<lparr>os_clock := t\<rparr>" "os_clock s \<le> t" "t < os_clock s + 30300 + L"
    "case r of None \<Rightarrow> we_Query we s' = Inr want \<and> t < os_clock s + 30000
     | Some e \<Rightarrow> (\<exists>q. we_Query we s' = Inl q) \<or> os_clock s + 30000 \<le> t"
    using wait_until_cases [OF assms(1) [unfolded waitForState_def stateWaitTimeout_def] assms(2)] by auto
  then show ?thesis by blast
qed

section \<open>A machine to try it on\<close>

text \<open>Every call succeeds; the service is reported stopped for a second, and running then.\<close>

definition demo_win :: winenv where
  "demo_win =
     \<lparr>we_app = (demo_files ''std'')\<lparr>ev_Join := \<lambda>a b. a @ CHR 0x5C # b\<rparr>, we_confParse = (\<lambda>text name. Inr demo_cfg), we_pbase = id,
      we_nameValid = (\<lambda>n. True), we_fail = (\<lambda>c s. None), we_part = (\<lambda>p s. 0), we_left = (\<lambda>p s q. False),
      we_ReadDir = (\<lambda>p s. Inr []), we_Query = (\<lambda>s. Inr (if os_clock s < 1000 then SvcStopped else SvcRunning)),
      we_lag = (\<lambda>s. 7), we_elevated = True, we_ProgramFiles = ''P'', we_Executable = ''x.exe'', we_Dir = (\<lambda>p. ''D''),
      we_Clean = id, we_tokenSID = ''S-1-5-18''\<rparr>"

definition demo_state :: os where
  "demo_state =
     \<lparr>os_files = [''c.conf'' \<mapsto> bytes_of_string demo_text, ''x.exe'' \<mapsto> [77, 90]], os_dirs = {}, os_dacl = Map.empty,
      os_service = None, os_clock = 0\<rparr>"

theorem waitForState_ends_witness:
  "\<exists>t. waitForState demo_win SvcRunning demo_state = (None, demo_state\<lparr>os_clock := t\<rparr>) \<and> t < 30307"
proof -
  obtain r s' where w: "waitForState demo_win SvcRunning demo_state = (r, s')" by fastforce
  have lag: "we_lag demo_win x \<le> 7" for x by (simp add: demo_win_def)
  obtain t where t: "s' = demo_state\<lparr>os_clock := t\<rparr>" "t < 30307"
    "case r of None \<Rightarrow> True | Some e \<Rightarrow> (\<exists>q. we_Query demo_win s' = Inl q) \<or> 30000 \<le> t"
    using waitForState_ends [OF w lag] by (auto simp: demo_state_def split: option.splits)
  have "r = None"
    using w by (simp add: waitForState_def stateWaitTimeout_def wait_until.simps demo_win_def demo_state_def Sleep_def)
  with w t show ?thesis by auto
qed

section \<open>Removing\<close>

text \<open>\<open>filepath.Join\<close> of the data directory, which is clean, and a plain name.\<close>

definition joins :: "winenv \<Rightarrow> bool" where
  "joins we \<longleftrightarrow>
     (\<forall>n \<in> {''config.json'', ''client.conf'', ''logs'', ''awgsocks.exe''}.
        ev_Join (we_app we) (RootDir (we_app we)) n = RootDir (we_app we) @ CHR 0x5C # n)"

lemma HasPrefix_same [simp]: "HasPrefix (a @ s) (a @ p) = HasPrefix s p"
  by (induction a) auto

lemma HasPrefix_shorter [simp]: "HasPrefix a (a @ c # p) = False"
  using HasPrefix_same [of a "[]" "c # p"] by simp

lemma joined:
  assumes "joins we"
  shows "AppConfigPath (we_app we) = RootDir (we_app we) @ CHR 0x5C # ''config.json''"
    and "TunnelConfigPath (we_app we) = RootDir (we_app we) @ CHR 0x5C # ''client.conf''"
    and "LogDir (we_app we) = RootDir (we_app we) @ CHR 0x5C # ''logs''"
    and "ev_Join (we_app we) (RootDir (we_app we)) ''awgsocks.exe'' = RootDir (we_app we) @ CHR 0x5C # ''awgsocks.exe''"
  using assms by (simp_all add: joins_def AppConfigPath_def TunnelConfigPath_def LogDir_def)

lemma Remove_other: "q \<noteq> p \<Longrightarrow> os_files (snd (Remove we p s)) q = os_files s q"
  by (simp add: Remove_def call_or_def split: option.split)

lemma RemoveAll_other: "\<not> within p q \<Longrightarrow> os_files (snd (RemoveAll we p s)) q = os_files s q"
  by (simp add: RemoveAll_def delete_where_def split: option.split)

lemma removeLegacy_other: "q \<noteq> ev_Join (we_app we) root ''awgsocks.exe'' \<Longrightarrow> os_files (removeLegacyBinary we root s) q = os_files s q"
  by (simp add: removeLegacyBinary_def Let_def Remove_other)

lemma stop_before_delete_files [simp]: "os_files (stop_before_delete we s) = os_files s"
  using waitForState_frame [of we SvcStopped s] by (auto simp: stop_before_delete_def split: sum.split)

lemma delete_service_files [simp]: "os_files (snd (delete_service we s)) = os_files s"
  by (simp add: delete_service_def call_or_def split: option.split)

lemma uninstall_data_keeps:
  assumes j: "joins we" and q: "q \<noteq> RootDir (we_app we)" "q \<noteq> RootDir (we_app we) @ CHR 0x5C # ''awgsocks.exe''"
    and k: "keep \<or> \<not> within (LogDir (we_app we)) q \<and> q \<noteq> AppConfigPath (we_app we)"
  shows "os_files (snd (uninstall_data we False keep s)) q = os_files s q"
  using q k by (auto simp: uninstall_data_def Let_def removeInstalledData_def Remove_other RemoveAll_other removeLegacy_other joined(4) [OF j])

lemma Uninstall_keeps:
  assumes "joins we" and "q \<noteq> RootDir (we_app we)" "q \<noteq> RootDir (we_app we) @ CHR 0x5C # ''awgsocks.exe''"
    and "keep \<or> \<not> within (LogDir (we_app we)) q \<and> q \<noteq> AppConfigPath (we_app we)"
  shows "os_files (snd (Uninstall we False keep s)) q = os_files s q"
proof -
  note d = uninstall_data_keeps [OF assms]
  obtain r s1 where dl: "delete_service we (stop_before_delete we s) = (r, s1)" by fastforce
  have f: "os_files s1 = os_files s" using delete_service_files [of we "stop_before_delete we s"] dl by simp
  show ?thesis using d f dl by (auto simp: Uninstall_def and_then_def wrap_def split: option.splits)
qed


lemma demo_joins: "joins demo_win"
  by (simp add: joins_def demo_win_def)


section \<open>Installing\<close>

text \<open>The paths whose DACL an operation may set, and the service is as it was.\<close>

definition touches :: "string set \<Rightarrow> os \<Rightarrow> os \<Rightarrow> bool" where
  "touches D s s' \<longleftrightarrow> (\<forall>q. q \<notin> D \<longrightarrow> os_dacl s' q = os_dacl s q) \<and> os_service s' = os_service s"

lemma touches_refl [simp]: "touches D s s"
  by (simp add: touches_def)

lemma touches_trans: "touches D s s1 \<Longrightarrow> touches D s1 s2 \<Longrightarrow> touches D s s2"
  by (simp add: touches_def)

lemma touches_mono: "touches D s s' \<Longrightarrow> D \<subseteq> E \<Longrightarrow> touches E s s'"
  by (auto simp: touches_def)

lemma touches_dacl: "touches D s s' \<Longrightarrow> q \<notin> D \<Longrightarrow> os_dacl s' q = os_dacl s q"
  by (simp add: touches_def)

lemma and_then_None: "and_then r f = (None, s') \<longleftrightarrow> (\<exists>s1. r = (None, s1) \<and> f s1 = (None, s'))"
  by (auto simp: and_then_def split: prod.splits option.splits)

lemma and_then_touches:
  assumes "and_then r f = (e, s')" and "\<And>e s1. r = (e, s1) \<Longrightarrow> touches D s s1" and "\<And>s1 e s2. f s1 = (e, s2) \<Longrightarrow> touches D s1 s2"
  shows "touches D s s'"
  using assms by (cases r) (auto simp: and_then_def split: option.splits intro: touches_trans)

lemma wrap_cases: "wrap m r = (e, s') \<Longrightarrow> \<exists>e0. r = (e0, s') \<and> (e = None \<longleftrightarrow> e0 = None)"
  by (cases r) (auto simp: wrap_def)

lemma applyDACL_touches: "applyDACL we p sddl s = (e, s') \<Longrightarrow> touches {p} s s'"
  by (auto simp: applyDACL_def call_or_def touches_def wrap_def split: option.splits)

lemma applyDACL_sets: "applyDACL we p sddl s = (None, s') \<Longrightarrow> os_dacl s' p = Some sddl"
  by (auto simp: applyDACL_def call_or_def wrap_def split: option.splits)

lemma MkdirAll_touches: "MkdirAll we p s = (e, s') \<Longrightarrow> touches D s s'"
  by (auto simp: MkdirAll_def call_or_def touches_def split: option.splits)

lemma ensureDir_touches: "ensureDir we p sddl s = (e, s') \<Longrightarrow> touches {p} s s'"
  unfolding ensureDir_def
  by (erule and_then_touches) (auto dest!: wrap_cases intro: MkdirAll_touches applyDACL_touches)

lemma ensureDir_sets: "ensureDir we p sddl s = (None, s') \<Longrightarrow> os_dacl s' p = Some sddl"
  by (auto simp: ensureDir_def and_then_None dest: applyDACL_sets)

lemma copyFile_touches:
  assumes "copyFile we src dst s = (e, s')"
  shows "touches {dst} s s'"
proof -
  have w: "touches {dst} s1 s2" if "write_all we dst c s1 = (e, s2)" for c s1 e s2
    using that by (auto simp: write_all_def touches_def split: option.splits)
  have t: "touches {dst} s1 s2" if "open_truncate we dst s1 = (e, s2)" for s1 e s2
    using that by (auto simp: open_truncate_def call_or_def touches_def split: option.splits)
  show ?thesis
    using assms by (auto simp: copyFile_def split: sum.splits elim!: and_then_touches intro: MkdirAll_touches w t)
qed

lemma Sleep_touches [simp]: "touches D (Sleep we n s) s' = touches D s s'" "touches D s (Sleep we n s') = touches D s s'"
  by (simp_all add: touches_def Sleep_def)

lemma copy_attempts_touches: "copy_attempts we src dst n err s = (e, s') \<Longrightarrow> touches {dst} s s'"
proof (induction n arbitrary: err s)
  case (Suc n)
  obtain e1 s1 where c: "copyFile we src dst s = (e1, s1)" by fastforce
  from copyFile_touches [OF c] Suc.prems Suc.IH [of e1 "Sleep we 250 s1"] c show ?case
    by (cases e1) (auto intro: touches_trans)
qed simp

lemma save_app_touches:
  assumes "save_app we p app s = (e, s')"
  shows "touches {p} s s'"
  using assms unfolding save_app_def
proof (rule and_then_touches)
  show "wrap ''could not create the directory: '' (MkdirAll we (we_Dir we p) s) = (e, s1) \<Longrightarrow> touches {p} s s1" for e s1
    by (auto dest!: wrap_cases intro: MkdirAll_touches)
qed (auto simp: Let_def touches_def split: prod.splits bool.splits)

lemma copy_job_outcome:
  assumes "copy_job we dir sid (src, dst) s = (e, s')"
  shows "touches {dst} s s'" and "e = None \<Longrightarrow> os_dacl s' dst = Some (programFileSDDL sid)"
proof -
  show "touches {dst} s s'"
    using assms unfolding copy_job_def prod.case
    by (rule and_then_touches)
       (auto dest!: wrap_cases simp: copyWhenReleased_def ProtectProgram_def split: if_splits intro: copy_attempts_touches applyDACL_touches)
  show "e = None \<Longrightarrow> os_dacl s' dst = Some (programFileSDDL sid)"
    using assms by (auto simp: copy_job_def and_then_None ProtectProgram_def dest: applyDACL_sets)
qed

lemma copy_jobs_touches: "copy_jobs we dir sid js s = (e, s') \<Longrightarrow> touches (snd ` set js) s s'"
proof (induction js arbitrary: s e s')
  case (Cons j js)
  obtain src dst where j: "j = (src, dst)" by fastforce
  show ?case
    using Cons.prems unfolding copy_jobs.simps j
  proof (rule and_then_touches)
    show "copy_job we dir sid (src, dst) s = (e, s1) \<Longrightarrow> touches (snd ` set ((src, dst) # js)) s s1" for e s1
      by (auto dest!: copy_job_outcome(1) elim: touches_mono)
    show "copy_jobs we dir sid js s1 = (e, s2) \<Longrightarrow> touches (snd ` set ((src, dst) # js)) s1 s2" for s1 e s2
      by (drule Cons.IH) (auto elim: touches_mono)
  qed
qed simp

lemma copy_jobs_sets: "copy_jobs we dir sid js s = (None, s') \<Longrightarrow> (src, dst) \<in> set js \<Longrightarrow> os_dacl s' dst = Some (programFileSDDL sid)"
proof (induction js arbitrary: s src)
  case (Cons j js)
  then obtain s1 where s1: "copy_job we dir sid j s = (None, s1)" "copy_jobs we dir sid js s1 = (None, s')" by (auto simp: and_then_None)
  show ?case
  proof (cases "\<exists>src. (src, dst) \<in> set js")
    case True
    with Cons.IH [OF s1(2)] show ?thesis by blast
  next
    case False
    with Cons.prems have "j = (src, dst)" "dst \<notin> snd ` set js" by auto
    with copy_job_outcome(2) s1 touches_dacl [OF copy_jobs_touches [OF s1(2)]] show ?thesis by metis
  qed
qed simp

text \<open>How a registration ends: with the service as it is configured, or without it.\<close>

definition registered :: "string \<Rightarrow> service \<Rightarrow> bool" where
  "registered binary v \<longleftrightarrow>
     sc_Binary v = binary \<and> sc_Config v = serviceConfig \<and> sc_Args v = [''service''] \<and> sc_Privileges v = multiSZ requiredPrivileges"

lemma start_and_wait_frame: "\<exists>t. snd (start_and_wait we s) = s\<lparr>os_clock := t\<rparr>"
  using waitForState_frame [of we SvcRunning s]
  by (auto simp: start_and_wait_def and_then_def wrap_def call_or_def split: option.split intro: exI [of _ "os_clock s"])

lemma set_recovery_frame:
  "os_dacl (set_recovery we s) = os_dacl s" "os_service s = Some v \<Longrightarrow> registered b v \<Longrightarrow> \<exists>u. os_service (set_recovery we s) = Some u \<and> registered b u"
  by (auto simp: set_recovery_def call_or_def registered_def split: option.split)

lemma create_service_cases:
  assumes "create_service we p s = (e, s')"
  obtains (no) err where "e = Some err" "s' = s"
  | (yes) "e = None" "os_service s = None" "os_dacl s' = os_dacl s"
      "os_service s' = Some \<lparr>sc_Binary = p, sc_Config = serviceConfig, sc_Args = [''service''], sc_Privileges = [], sc_Recovery = []\<rparr>"
  using assms by (auto simp: create_service_def wrap_def call_or_def split: option.splits)

lemma restrict_cases:
  assumes "restrictPrivileges we s = (e, s')"
  obtains (no) err where "e = Some err" "s' = s"
  | (yes) "e = None" "os_dacl s' = os_dacl s"
      "os_service s' = map_option (\<lambda>v. v\<lparr>sc_Privileges := multiSZ requiredPrivileges\<rparr>) (os_service s)"
  using assms by (auto simp: restrictPrivileges_def wrap_def call_or_def split: option.splits)

lemma register_ok:
  assumes "register we opts p s = (None, s')"
  shows "os_dacl s' = os_dacl s \<and> (\<exists>v. os_service s' = Some v \<and> registered p v)"
proof -
  obtain s1 where c: "create_service we p s = (None, s1)" using assms by (auto simp: register_def and_then_None)
  obtain e s2 where r: "restrictPrivileges we s1 = (e, s2)" by fastforce
  with assms c have e: "e = None" by (cases e) (auto simp: register_def and_then_def)
  from r e obtain v where s2: "os_dacl s2 = os_dacl s" "os_service s2 = Some v" "registered p v"
    by (cases rule: restrict_cases; cases rule: create_service_cases [OF c]) (auto simp: registered_def)
  let ?s3 = "set_recovery we s2"
  have s3: "os_dacl ?s3 = os_dacl s" "\<exists>u. os_service ?s3 = Some u \<and> registered p u"
    using s2 set_recovery_frame(1) set_recovery_frame(2) [OF s2(2,3)] by auto
  have "s' = (if io_StartService opts then snd (start_and_wait we ?s3) else ?s3)"
    using assms c r e by (auto simp: register_def and_then_def Let_def split: if_splits)
  with s3 start_and_wait_frame [of we ?s3] show ?thesis by (auto split: if_splits)
qed

lemma register_fails:
  assumes "register we opts p s = (Some e, s')" and "\<not> io_StartService opts" and "\<And>x. we_fail we DeleteService x = None"
  shows "os_service s' = os_service s"
proof -
  obtain e1 s1 where c: "create_service we p s = (e1, s1)" by fastforce
  obtain e2 s2 where r: "restrictPrivileges we s1 = (e2, s2)" by fastforce
  show ?thesis
    using assms c r
    by (cases rule: create_service_cases [OF c]; cases rule: restrict_cases [OF r])
       (auto simp: register_def and_then_def Let_def delete_service_def call_or_def split: option.splits)
qed

text \<open>The paths of an installation, and that they are different ones.\<close>

definition program_paths :: "winenv \<Rightarrow> InstallOptions \<Rightarrow> string \<Rightarrow> string list" where
  "program_paths we opts progDir = map (ev_Join (we_app we) progDir) (''awgsocks.exe'' # io_Scripts opts)"

definition destination_conf :: "winenv \<Rightarrow> InstallOptions \<Rightarrow> string \<Rightarrow> string" where
  "destination_conf we opts srcPath = (if io_InPlace opts then srcPath else TunnelConfigPath (we_app we))"

definition layout_ok :: "winenv \<Rightarrow> InstallOptions \<Rightarrow> string \<Rightarrow> string \<Rightarrow> bool" where
  "layout_ok we opts srcPath progDir \<longleftrightarrow>
     joins we \<and>
     (let mine = [RootDir (we_app we), LogDir (we_app we), AppConfigPath (we_app we),
                  ev_Join (we_app we) (RootDir (we_app we)) ''awgsocks.exe''];
          prog = progDir # program_paths we opts progDir
      in destination_conf we opts srcPath \<notin> set (mine @ prog) \<and> set mine \<inter> set prog = {} \<and> progDir \<notin> set (program_paths we opts progDir))"

lemma removeLegacy_touches: "touches {ev_Join (we_app we) root ''awgsocks.exe''} s (removeLegacyBinary we root s)"
  by (auto simp: removeLegacyBinary_def Let_def Remove_def call_or_def touches_def split: option.split)

lemma install_data_ok:
  assumes "install_data we opts src dest sid s = (None, s')" and "dest \<notin> {RootDir (we_app we), LogDir (we_app we)}"
    and "RootDir (we_app we) \<noteq> LogDir (we_app we)"
  shows "os_dacl s' (RootDir (we_app we)) = Some (dataDirSDDL sid) \<and> os_dacl s' (LogDir (we_app we)) = Some (logDirSDDL sid) \<and>
    os_dacl s' dest = Some (secretSDDL sid)"
proof -
  obtain s1 s2 s3 where 1: "EnsureDataDir we (RootDir (we_app we)) sid s = (None, s1)"
    and 2: "EnsureLogDir we (LogDir (we_app we)) sid s1 = (None, s2)"
    and 3: "(if io_InPlace opts \<or> EqualFold_ascii src dest then (None, s2)
        else wrap ''could not copy the configuration: '' (copyFile we src dest s2)) = (None, s3)"
    and 4: "ProtectSecret we dest sid s3 = (None, s')"
    using assms(1) by (auto simp: install_data_def and_then_None)
  have t3: "touches {dest} s2 s3" using 3 by (auto dest!: wrap_cases copyFile_touches split: if_splits)
  have t4: "touches {dest} s3 s'" using 4 by (auto simp: ProtectSecret_def dest: applyDACL_touches)
  have d: "os_dacl s1 (RootDir (we_app we)) = Some (dataDirSDDL sid)" "os_dacl s2 (LogDir (we_app we)) = Some (logDirSDDL sid)"
    "os_dacl s' dest = Some (secretSDDL sid)" "touches {LogDir (we_app we)} s1 s2"
    using 1 2 4 by (auto simp: EnsureDataDir_def EnsureLogDir_def ProtectSecret_def dest: ensureDir_sets applyDACL_sets ensureDir_touches)
  with t3 t4 assms(2,3) show ?thesis by (auto simp: touches_def)
qed

lemma install_settings_ok:
  assumes "install_settings we opts dest sid s = (None, s')"
  shows "os_dacl s' (AppConfigPath (we_app we)) = Some (userReadableSDDL sid) \<and> touches {AppConfigPath (we_app we)} s s'"
  using assms
  by (auto simp: install_settings_def Let_def and_then_None ProtectUserReadable_def split: sum.splits
      dest: applyDACL_sets intro: touches_trans [OF save_app_touches applyDACL_touches])

lemma installProgram_ok:
  assumes "installProgram we exe dir scripts sid s = (None, s')" and "dir \<notin> set (map (ev_Join (we_app we) dir) (''awgsocks.exe'' # scripts))"
  shows "os_dacl s' dir = Some (programDirSDDL sid) \<and> os_dacl s' (service_path we dir) = Some (programFileSDDL sid) \<and>
    touches (insert dir (set (map (ev_Join (we_app we) dir) (''awgsocks.exe'' # scripts)))) s s'"
proof -
  obtain s1 where 1: "EnsureProgramDir we dir sid s = (None, s1)"
    using assms(1) by (auto simp: installProgram_def and_then_None)
  define js where "js = map (\<lambda>name. (ev_Join (we_app we) (we_Dir we exe) name, ev_Join (we_app we) dir name))
    (filter (\<lambda>name. Stat we (ev_Join (we_app we) (we_Dir we exe) name) s1 = None) scripts)"
  have 2: "copy_jobs we dir sid ((exe, service_path we dir) # js) s1 = (None, s')"
    using assms(1) 1 unfolding js_def installProgram_def and_then_def by simp
  have js: "snd ` set js \<subseteq> ev_Join (we_app we) dir ` set scripts" by (auto simp: js_def)
  have t1: "touches {dir} s s1" "os_dacl s1 dir = Some (programDirSDDL sid)"
    using 1 by (auto simp: EnsureProgramDir_def dest: ensureDir_touches ensureDir_sets)
  have t2: "touches (set (map (ev_Join (we_app we) dir) (''awgsocks.exe'' # scripts))) s1 s'"
    using copy_jobs_touches [OF 2] by (rule touches_mono) (use js in \<open>auto simp: service_path_def\<close>)
  have "touches (insert dir (set (map (ev_Join (we_app we) dir) (''awgsocks.exe'' # scripts)))) s s'"
    by (rule touches_trans [OF touches_mono [OF t1(1)] touches_mono [OF t2]]) auto
  then show ?thesis using touches_dacl [OF t2 assms(2)] t1 copy_jobs_sets [OF 2, of exe] by simp
qed

text \<open>
  C17: an installation that reports success has locked everything down. The data and log
  directories, the tunnel configuration with its private key, the settings, the program
  directory and the binary the service runs carry their descriptors, and the service is
  registered to run that binary, under its own account and with the one privilege it needs.
\<close>

theorem install_secures:
  assumes "Install we opts s = (None, s')" and "ev_Abs (we_app we) (io_ConfigPath opts) = Some srcPath"
    and "layout_ok we opts srcPath progDir" and "ev_Join (we_app we) (we_ProgramFiles we) ServiceName = progDir"
  shows "let sid = ServiceSID ServiceName in
    os_dacl s' (RootDir (we_app we)) = Some (dataDirSDDL sid) \<and> os_dacl s' (LogDir (we_app we)) = Some (logDirSDDL sid) \<and>
    os_dacl s' (destination_conf we opts srcPath) = Some (secretSDDL sid) \<and>
    os_dacl s' (AppConfigPath (we_app we)) = Some (userReadableSDDL sid) \<and>
    os_dacl s' progDir = Some (programDirSDDL sid) \<and> os_dacl s' (service_path we progDir) = Some (programFileSDDL sid) \<and>
    (\<exists>v. os_service s' = Some v \<and> registered (service_path we progDir) v)"
proof -
  let ?sid = "ServiceSID ServiceName" and ?root = "RootDir (we_app we)" and ?dest = "destination_conf we opts srcPath"
  have i: "install_from we opts srcPath progDir s = (None, s')"
    using assms(1,2,4) by (auto simp: Install_def programDir_def split: option.splits if_splits sum.splits)
  obtain s1 s2 exe s3 where 1: "install_data we opts srcPath ?dest ?sid s = (None, s1)"
    and 2: "install_settings we opts ?dest ?sid s1 = (None, s2)"
    and 3: "installProgram we exe progDir (io_Scripts opts) ?sid s2 = (None, s3)"
    and 4: "register we opts (service_path we progDir) (removeLegacyBinary we ?root s3) = (None, s')"
    using i by (auto simp: install_from_def Let_def and_then_None destination_conf_def split: option.splits)
  have j: "joins we" and l: "?dest \<notin> set ([?root, LogDir (we_app we), AppConfigPath (we_app we), ev_Join (we_app we) ?root ''awgsocks.exe''] @
        progDir # program_paths we opts progDir)"
      "set [?root, LogDir (we_app we), AppConfigPath (we_app we), ev_Join (we_app we) ?root ''awgsocks.exe''] \<inter>
        set (progDir # program_paths we opts progDir) = {}" "progDir \<notin> set (program_paths we opts progDir)"
    using assms(3) by (auto simp: layout_ok_def Let_def)
  note p = joined [OF j]
  have d1: "os_dacl s1 ?root = Some (dataDirSDDL ?sid)" "os_dacl s1 (LogDir (we_app we)) = Some (logDirSDDL ?sid)"
    "os_dacl s1 ?dest = Some (secretSDDL ?sid)"
    using install_data_ok [OF 1] l p by auto
  have d2: "os_dacl s2 (AppConfigPath (we_app we)) = Some (userReadableSDDL ?sid)" "touches {AppConfigPath (we_app we)} s1 s2"
    using install_settings_ok [OF 2] by auto
  have d3: "os_dacl s3 progDir = Some (programDirSDDL ?sid)" "os_dacl s3 (service_path we progDir) = Some (programFileSDDL ?sid)"
    "touches (insert progDir (set (program_paths we opts progDir))) s2 s3"
    using installProgram_ok [OF 3] l(3) by (auto simp: program_paths_def)
  have sp: "service_path we progDir \<in> set (program_paths we opts progDir)" by (simp add: service_path_def program_paths_def)
  have f: "os_dacl s' q = os_dacl s3 q" if "q \<noteq> ev_Join (we_app we) ?root ''awgsocks.exe''" for q
    using register_ok [OF 4] touches_dacl [OF removeLegacy_touches] that by simp
  have g: "os_dacl s' q = os_dacl s1 q"
    if "q \<notin> insert (ev_Join (we_app we) ?root ''awgsocks.exe'')
          (insert (AppConfigPath (we_app we)) (insert progDir (set (program_paths we opts progDir))))" for q
    using f [of q] touches_dacl [OF d3(3), of q] touches_dacl [OF d2(2), of q] that by simp
  have "os_dacl s' ?root = os_dacl s1 ?root" using l(2) p by (intro g) auto
  moreover have "os_dacl s' (LogDir (we_app we)) = os_dacl s1 (LogDir (we_app we))" using l(2) by (intro g) (auto simp: p)
  moreover have "os_dacl s' ?dest = os_dacl s1 ?dest" using l(1) by (intro g) auto
  moreover have "os_dacl s' (AppConfigPath (we_app we)) = os_dacl s2 (AppConfigPath (we_app we))"
    using f [of "AppConfigPath (we_app we)"] touches_dacl [OF d3(3), of "AppConfigPath (we_app we)"] l(2) by (auto simp: p)
  moreover have "os_dacl s' progDir = os_dacl s3 progDir" "os_dacl s' (service_path we progDir) = os_dacl s3 (service_path we progDir)"
    using l(2) sp by (auto intro!: f)
  ultimately show ?thesis unfolding Let_def using register_ok [OF 4] d1 d2(1) d3(1,2) by simp
qed

definition demo_opts :: InstallOptions where
  "demo_opts = \<lparr>io_ConfigPath = ''c.conf'', io_InPlace = False, io_Socks5Listen = ''127.0.0.1:1080'', io_LogLevel = [],
     io_AutoStartTunnel = True, io_StartService = True, io_Scripts = []\<rparr>"

lemma demo_calls [simp]:
  "we_fail demo_win c s = None" "we_elevated demo_win" "ev_Join (we_app demo_win) a b = a @ CHR 0x5C # b" "RootDir (we_app demo_win) = ''R''"
  "ev_Abs (we_app demo_win) a = Some a" "we_ProgramFiles demo_win = ''P''" "we_Executable demo_win = ''x.exe''" "we_Clean demo_win a = a"
  "we_Dir demo_win a = ''D''" "ev_Marshal (we_app demo_win) app = Inr [123, 125]"
  by (simp_all add: demo_win_def demo_files_def demo_env_def RootDir_def)

lemma demo_apply [simp]: "applyDACL demo_win p d s = (None, s\<lparr>os_dacl := (os_dacl s)(p \<mapsto> d)\<rparr>)"
  by (simp add: applyDACL_def wrap_def call_or_def)

lemma demo_ensure [simp]:
  "ensureDir demo_win p d s = (None, s\<lparr>os_dirs := insert p (os_dirs s), os_dacl := (os_dacl s)(p \<mapsto> d)\<rparr>)"
  by (simp add: ensureDir_def wrap_def call_or_def MkdirAll_def and_then_def)

lemma demo_copy: "os_files s src = Some c \<Longrightarrow> \<exists>s'. copyFile demo_win src dst s = (None, s') \<and> os_files s' = (os_files s)(dst \<mapsto> c) \<and>
    os_dirs s' = insert ''D'' (os_dirs s) \<and> os_service s' = os_service s \<and> os_clock s' = os_clock s"
  by (simp add: copyFile_def open_read_def and_then_def MkdirAll_def call_or_def open_truncate_def write_all_def)

lemma demo_paths:
  "AppConfigPath (we_app demo_win) = ''R'' @ CHR 0x5C # ''config.json''" "LogDir (we_app demo_win) = ''R'' @ CHR 0x5C # ''logs''"
  "TunnelConfigPath (we_app demo_win) = ''R'' @ CHR 0x5C # ''client.conf''"
  by (simp_all add: joined [OF demo_joins])

lemma demo_install_data:
  "\<exists>s'. install_data demo_win demo_opts ''c.conf'' (TunnelConfigPath (we_app demo_win)) sid demo_state = (None, s') \<and>
     os_files s' = (os_files demo_state)(TunnelConfigPath (we_app demo_win) \<mapsto> bytes_of_string demo_text) \<and>
     AppConfigPath (we_app demo_win) \<notin> os_dirs s' \<and> os_service s' = None \<and> os_clock s' = 0"
proof -
  define s2 where "s2 = demo_state\<lparr>os_dirs := {''R'', ''R'' @ CHR 0x5C # ''logs''},
    os_dacl := [''R'' \<mapsto> dataDirSDDL sid, ''R'' @ CHR 0x5C # ''logs'' \<mapsto> logDirSDDL sid]\<rparr>"
  obtain s3 where c: "copyFile demo_win ''c.conf'' (TunnelConfigPath (we_app demo_win)) s2 = (None, s3)"
    "os_files s3 = (os_files s2)(TunnelConfigPath (we_app demo_win) \<mapsto> bytes_of_string demo_text)"
    "os_dirs s3 = insert ''D'' (os_dirs s2)" "os_service s3 = os_service s2" "os_clock s3 = os_clock s2"
    using demo_copy [of s2 "''c.conf''" "bytes_of_string demo_text"] by (auto simp: s2_def demo_state_def)
  have "\<not> EqualFold_ascii ''c.conf'' (TunnelConfigPath (we_app demo_win))" by (simp add: demo_paths EqualFold_ascii_def ascii_lower_def chr_def)
  with c show ?thesis
    by (simp add: install_data_def EnsureDataDir_def EnsureLogDir_def ProtectSecret_def and_then_def demo_opts_def demo_paths wrap_def)
       (simp add: s2_def demo_state_def insert_commute)
qed

lemma demo_installApp:
  assumes "os_files s (AppConfigPath (we_app demo_win)) = None" and "AppConfigPath (we_app demo_win) \<notin> os_dirs s"
  shows "\<exists>app. installApp demo_win (AppConfigPath (we_app demo_win)) (TunnelConfigPath (we_app demo_win)) demo_opts s = Inr (app, False)"
proof -
  have st: "Stat demo_win (AppConfigPath (we_app demo_win)) s = Some ErrNotExist" using assms by (simp add: Stat_def)
  have e: "ev_Abs (env_now demo_win s) a = Some a" "TunnelConfigPath (env_now demo_win s) = ''R'' @ CHR 0x5C # ''client.conf''" for a
    by (simp_all add: env_now_def demo_win_def demo_files_def demo_env_def TunnelConfigPath_def RootDir_def)
  have t: "TrimSpace ''127.0.0.1:1080'' = ''127.0.0.1:1080''" "TrimSpace ''info'' = ''info''" "TrimSpace ''std'' = ''std''"
    "TrimSpace (''R'' @ CHR 0x5C # ''client.conf'') = ''R'' @ CHR 0x5C # ''client.conf''"
    by (rule TrimSpace_plain; simp add: plain_def)+
  show ?thesis using st
    by (simp add: installApp_def DefaultApp_def demo_opts_def Normalize_def Let_def e t orDefault_def demo_valid mapErr_def
        DefaultLogLevel_def DefaultUDPBind_def ascii_lower_def demo_paths)
qed

lemma demo_LoadTunnel_now:
  "\<exists>t. LoadTunnel (env_now demo_win demo_state) (we_confParse demo_win) (we_pbase demo_win) (we_nameValid demo_win) ''c.conf'' = Inr t"
proof -
  have "LoadTunnel (env_now demo_win demo_state) (we_confParse demo_win) (we_pbase demo_win) (we_nameValid demo_win) ''c.conf'' =
      LoadTunnel (demo_files ''std'') (\<lambda>text name. Inr demo_cfg) id (\<lambda>n. True) ''c.conf''"
    by (simp add: LoadTunnel_def env_now_def demo_win_def demo_files_def demo_env_def demo_state_def)
  with demo_LoadTunnel [of "''std''"] show ?thesis by auto
qed

lemma demo_register:
  assumes "os_service s = None" and "os_clock s = 0"
  shows "\<exists>s'. register demo_win demo_opts b s = (None, s')"
proof -
  have "fst (waitForState demo_win SvcRunning x) = None" if "os_clock x = 0" for x
    using that by (simp add: waitForState_def stateWaitTimeout_def wait_until.simps demo_win_def Sleep_def)
  then have "\<exists>y. waitForState demo_win SvcRunning x = (None, y)" if "os_clock x = 0" for x
    using that by (metis prod.collapse)
  with assms show ?thesis
    by (simp add: register_def create_service_def restrictPrivileges_def set_recovery_def start_and_wait_def and_then_def wrap_def
        call_or_def demo_opts_def)
qed

lemma demo_install: "\<exists>s'. Install demo_win demo_opts demo_state = (None, s')"
proof -
  let ?sid = "ServiceSID ServiceName" and ?conf = "TunnelConfigPath (we_app demo_win)" and ?app = "AppConfigPath (we_app demo_win)"
  obtain s1 where 1: "install_data demo_win demo_opts ''c.conf'' ?conf ?sid demo_state = (None, s1)"
    "os_files s1 = (os_files demo_state)(?conf \<mapsto> bytes_of_string demo_text)" "?app \<notin> os_dirs s1" "os_service s1 = None" "os_clock s1 = 0"
    using demo_install_data by blast
  have "os_files s1 ?app = None" using 1(2) by (simp add: demo_paths demo_state_def)
  with demo_installApp 1(3) obtain app where app: "installApp demo_win ?app ?conf demo_opts s1 = Inr (app, False)" by blast
  then obtain s2 where 2: "install_settings demo_win demo_opts ?conf ?sid s1 = (None, s2)" "os_files s2 ''x.exe'' = Some [77, 90]"
    "os_service s2 = None" "os_clock s2 = 0"
    using 1 by (auto simp: install_settings_def save_app_def Save_def MkdirAll_def call_or_def wrap_def and_then_def Let_def
        ProtectUserReadable_def demo_paths demo_state_def)
  obtain s3 where 3: "installProgram demo_win ''x.exe'' (''P'' @ CHR 0x5C # ServiceName) [] ?sid s2 = (None, s3)"
    "os_service s3 = None" "os_clock s3 = 0"
  proof -
    let ?p = "''P'' @ CHR 0x5C # ServiceName"
    let ?x = "s2\<lparr>os_dirs := insert ?p (os_dirs s2), os_dacl := (os_dacl s2)(?p \<mapsto> programDirSDDL ?sid)\<rparr>"
    obtain s' where c: "copyFile demo_win ''x.exe'' (service_path demo_win ?p) ?x = (None, s')" "os_service s' = None" "os_clock s' = 0"
      using demo_copy [of ?x "''x.exe''" "[77, 90]" "service_path demo_win ?p"] 2 by auto
    then have "copyWhenReleased demo_win ''x.exe'' (service_path demo_win ?p) ?x = (None, s')"
      by (simp add: copyWhenReleased_def numeral_eq_Suc)
    moreover have "\<not> EqualFold_ascii ''x.exe'' (service_path demo_win ?p)"
      by (simp add: service_path_def EqualFold_ascii_def ascii_lower_def chr_def)
    ultimately show ?thesis
      using c by (intro that [of "s'\<lparr>os_dacl := (os_dacl s')(service_path demo_win ?p \<mapsto> programFileSDDL ?sid)\<rparr>"])
        (simp_all add: installProgram_def EnsureProgramDir_def and_then_def copy_job_def wrap_def ProtectProgram_def)
  qed
  have "os_service (removeLegacyBinary demo_win ''R'' s3) = None" "os_clock (removeLegacyBinary demo_win ''R'' s3) = 0"
    using 3 by (simp_all add: removeLegacyBinary_def Let_def Remove_def call_or_def)
  from demo_register [OF this] obtain s' where "register demo_win demo_opts (service_path demo_win (''P'' @ CHR 0x5C # ServiceName))
      (removeLegacyBinary demo_win ''R'' s3) = (None, s')" by blast
  with 1(1) 2(1) 3(1) have "install_from demo_win demo_opts ''c.conf'' (''P'' @ CHR 0x5C # ServiceName) demo_state = (None, s')"
    by (simp add: install_from_def Let_def and_then_def demo_opts_def)
  moreover have "TrimSpace ''c.conf'' = ''c.conf''" by (rule TrimSpace_plain; simp add: plain_def)
  moreover obtain t where "LoadTunnel (env_now demo_win demo_state) (we_confParse demo_win) (we_pbase demo_win) (we_nameValid demo_win) ''c.conf'' = Inr t"
    using demo_LoadTunnel_now by blast
  ultimately show ?thesis
    by (simp add: Install_def RequireElevation_def IsElevated_def programDir_def demo_opts_def demo_state_def)
qed

theorem install_secures_witness:
  "\<exists>s' v. Install demo_win demo_opts demo_state = (None, s') \<and>
     os_dacl s' (''R'' @ CHR 0x5C # ''client.conf'') = Some (secretSDDL (ServiceSID ServiceName)) \<and>
     os_service s' = Some v \<and> registered (''P'' @ CHR 0x5C # ServiceName @ CHR 0x5C # ''awgsocks.exe'') v"
proof -
  let ?p = "''P'' @ CHR 0x5C # ServiceName"
  obtain s' where s: "Install demo_win demo_opts demo_state = (None, s')" using demo_install by blast
  have l: "layout_ok demo_win demo_opts ''c.conf'' ?p"
    by (simp add: layout_ok_def demo_joins demo_paths program_paths_def destination_conf_def demo_opts_def ServiceName_def)
  have "destination_conf demo_win demo_opts ''c.conf'' = ''R'' @ CHR 0x5C # ''client.conf''"
    by (simp add: destination_conf_def demo_opts_def demo_paths)
  with install_secures [OF s _ l] s show ?thesis by (auto simp: demo_opts_def service_path_def Let_def)
qed

text \<open>Every stage before the registration leaves the service's registration alone.\<close>

lemma install_data_service: "install_data we opts src dest sid s = (e, s') \<Longrightarrow> touches UNIV s s'"
  unfolding install_data_def
  by (elim and_then_touches)
     (auto simp: EnsureDataDir_def EnsureLogDir_def ProtectSecret_def split: if_splits
       dest!: wrap_cases copyFile_touches ensureDir_touches applyDACL_touches elim: touches_mono elim!: and_then_touches)

lemma install_settings_service: "install_settings we opts dest sid s = (e, s') \<Longrightarrow> touches UNIV s s'"
  by (auto simp: install_settings_def Let_def ProtectUserReadable_def split: sum.splits elim!: and_then_touches
      dest!: save_app_touches applyDACL_touches elim: touches_mono)

lemma installProgram_service: "installProgram we exe dir scripts sid s = (e, s') \<Longrightarrow> touches UNIV s s'"
  unfolding installProgram_def
  by (erule and_then_touches) (auto simp: EnsureProgramDir_def simp del: copy_jobs.simps dest!: ensureDir_touches copy_jobs_touches elim: touches_mono)

lemma touches_service: "touches D s s' \<Longrightarrow> os_service s' = os_service s"
  by (simp add: touches_def)

lemma and_then_Some: "and_then r f = (Some e, s') \<longleftrightarrow> r = (Some e, s') \<or> (\<exists>s1. r = (None, s1) \<and> f s1 = (Some e, s'))"
  by (auto simp: and_then_def split: prod.splits option.splits)

text \<open>
  an installation that fails registers nothing. If the program was not also asked to
  start the service, and Windows lets it take a registration back, an error leaves the
  registration of the service as it was; and a configuration that does not load is refused
  before anything at all is touched.
\<close>

theorem install_failure_registers_nothing:
  assumes "Install we opts s = (Some e, s')" and "\<not> io_StartService opts" and "\<And>x. we_fail we DeleteService x = None"
  shows "os_service s' = os_service s \<and>
    (case ev_Abs (we_app we) (io_ConfigPath opts) of
       None \<Rightarrow> s' = s
     | Some srcPath \<Rightarrow>
         (case LoadTunnel (env_now we s) (we_confParse we) (we_pbase we) (we_nameValid we) srcPath of Inl _ \<Rightarrow> s' = s | Inr _ \<Rightarrow> True))"
proof -
  have "os_service s' = os_service s" if f: "install_from we opts src dir s = (Some e, s')" for src dir
  proof -
    let ?sid = "ServiceSID ServiceName" and ?dest = "if io_InPlace opts then src else TunnelConfigPath (we_app we)"
    obtain e1 s1 where 1: "install_data we opts src ?dest ?sid s = (e1, s1)" by fastforce
    obtain e2 s2 where 2: "install_settings we opts ?dest ?sid s1 = (e2, s2)" by fastforce
    let ?exe = "case ev_Abs (we_app we) (we_Executable we) of None \<Rightarrow> [] | Some p \<Rightarrow> p"
    obtain e3 s3 where 3: "installProgram we ?exe dir (io_Scripts opts) ?sid s2 = (e3, s3)" by fastforce
    have t: "os_service s1 = os_service s" "os_service s2 = os_service s1" "os_service s3 = os_service s2"
      "os_service (removeLegacyBinary we (RootDir (we_app we)) s3) = os_service s3"
      using install_data_service [OF 1] install_settings_service [OF 2] installProgram_service [OF 3] removeLegacy_touches
      by (auto dest: touches_service)
    show ?thesis using f 1 2 3 t register_fails [OF _ assms(2,3)]
      by (auto simp: install_from_def Let_def and_then_Some split: option.splits)
  qed
  with assms(1) show ?thesis by (auto simp: Install_def split: option.splits if_splits sum.splits)
qed

theorem install_failure_registers_nothing_witness:
  "\<exists>e. Install demo_win (demo_opts\<lparr>io_StartService := False\<rparr>) (demo_state\<lparr>os_files := Map.empty\<rparr>) =
     (Some e, demo_state\<lparr>os_files := Map.empty\<rparr>)"
proof -
  let ?o = "demo_opts\<lparr>io_StartService := False\<rparr>" and ?s = "demo_state\<lparr>os_files := Map.empty\<rparr>"
  have l: "LoadTunnel (env_now demo_win ?s) (we_confParse demo_win) (we_pbase demo_win) (we_nameValid demo_win) ''c.conf'' = Inl LoadMissing"
    by (simp add: LoadTunnel_def env_now_def)
  have "TrimSpace ''c.conf'' = ''c.conf''" by (rule TrimSpace_plain; simp add: plain_def)
  with l obtain e s' where i: "Install demo_win ?o ?s = (Some e, s')"
    by (auto simp: Install_def RequireElevation_def IsElevated_def demo_opts_def)
  from install_failure_registers_nothing [OF this] l i show ?thesis by (simp add: demo_opts_def)
qed

section \<open>Repairing\<close>

text \<open>Setting DACLs changes no file.\<close>

lemma applyDACL_files: "applyDACL we p d s = (e, s') \<Longrightarrow> os_files s' = os_files s"
  by (auto simp: applyDACL_def wrap_def call_or_def split: option.splits)

lemma ensureDir_files: "ensureDir we p d s = (e, s') \<Longrightarrow> os_files s' = os_files s"
  by (auto simp: ensureDir_def and_then_def wrap_def MkdirAll_def call_or_def split: option.splits dest: applyDACL_files)

lemma if_there_cases: "if_there we p f s = (e, s') \<Longrightarrow> (e, s') = (None, s) \<and> Stat we p s \<noteq> None \<or> f p s = (e, s') \<and> Stat we p s = None"
  by (auto simp: if_there_def split: if_splits)

lemma each_file_touches:
  assumes "each_file f es s = (e, s')" and "\<And>n e x y. f n x = (e, y) \<Longrightarrow> touches (insert (g n) {}) x y"
  shows "touches (g ` fst ` set es) s s'"
  using assms(1)
proof (induction es arbitrary: s)
  case (Cons x es)
  obtain n d where x: "x = (n, d)" by fastforce
  have t: "each_file f es y = (e, s') \<Longrightarrow> touches (g ` fst ` set (x # es)) y s'" for y
    by (rule touches_mono [OF Cons.IH]) auto
  obtain e1 s1 where f: "f n s = (e1, s1)" by fastforce
  from assms(2) [OF f] have "touches (g ` fst ` set (x # es)) s s1" by (rule touches_mono) (simp add: x)
  with Cons.prems t f x show ?case by (cases e1) (auto simp: and_then_def split: if_splits intro: touches_trans)
qed simp

lemmas acl_defs = realACLs_def Let_def EnsureDataDir_def EnsureLogDir_def ProtectSecret_def ProtectUserReadable_def
  EnsureProgramDir_def ProtectProgram_def Protect_def

text \<open>
  a repair that reports success has closed the private key off again. When
  the settings load, the configuration they name carries the strict descriptor afterwards,
  whatever descriptor it had before.
\<close>

theorem repair_protects_key:
  assumes "repairPermissions we (realACLs we) s = (None, s')" and "\<And>p x. we_fail we (Open p) x = None"
    and "\<And>p x. we_fail we (StatOf p) x = None" and "LoadApp (env_now we s) [] = Inr app"
    and "os_files s (a_ConfigPath app) \<noteq> None" and "a_ConfigPath app \<noteq> []"
    and "a_ConfigPath app \<notin> {AppConfigPath (we_app we), ev_Join (we_app we) (RootDir (we_app we)) ''awgsocks.exe''}"
    and "\<And>x d. programDir we x = Inr d \<Longrightarrow> d \<noteq> a_ConfigPath app \<and> (\<forall>n. ev_Join (we_app we) d n \<noteq> a_ConfigPath app)"
  shows "os_dacl s' (a_ConfigPath app) = Some (secretSDDL (ServiceSID ServiceName))"
proof -
  let ?sid = "ServiceSID ServiceName" and ?conf = "a_ConfigPath app" and ?acl = "realACLs we"
  obtain s1 s2 s3 s4 s5 where 1: "ac_dataDir ?acl (RootDir (we_app we)) s = (None, s1)"
    and 2: "if_there we (LogDir (we_app we)) (ac_logDir ?acl) s1 = (None, s2)"
    and 3: "repair_secret we ?acl s2 = (None, s3)"
    and 4: "if_there we (ev_Join (we_app we) (RootDir (we_app we)) ''awgsocks.exe'') (ac_protect ?acl) s3 = (None, s4)"
    and 5: "if_there we (AppConfigPath (we_app we)) (ac_readable ?acl) s4 = (None, s5)"
    and 6: "repair_program we ?acl s5 = (None, s')"
    using assms(1) by (auto simp: repairPermissions_def Let_def and_then_None split: option.splits)
  have f: "os_files s2 = os_files s" using 1 if_there_cases [OF 2] by (auto simp: acl_defs dest!: ensureDir_files)
  then have "env_now we s2 = env_now we s" using assms(2) by (simp add: env_now_def)
  with 3 assms(3-6) f have d3: "os_dacl s3 ?conf = Some (secretSDDL ?sid)"
    by (auto simp: repair_secret_def if_there_def Stat_def acl_defs dest: applyDACL_sets)
  have "os_dacl s4 ?conf = os_dacl s3 ?conf" "os_dacl s5 ?conf = os_dacl s4 ?conf"
    using if_there_cases [OF 4] if_there_cases [OF 5] assms(7) by (auto simp: acl_defs dest!: applyDACL_touches touches_dacl)
  moreover have "os_dacl s' ?conf = os_dacl s5 ?conf"
  proof (cases "programDir we s5")
    case (Inr d)
    note n = assms(8) [OF Inr]
    show ?thesis
    proof (cases "we_ReadDir we d s5")
      case (Inr es)
      with 6 \<open>programDir we s5 = Inr d\<close> obtain x where x: "ac_programDir ?acl d s5 = (None, x)"
        "each_file (\<lambda>name. ac_program ?acl (ev_Join (we_app we) d name)) es x = (None, s')"
        by (auto simp: repair_program_def and_then_None)
      have "touches (ev_Join (we_app we) d ` fst ` set es) x s'"
        by (rule each_file_touches [OF x(2)]) (auto simp: acl_defs dest: applyDACL_touches)
      moreover have "touches {d} s5 x" using x(1) by (auto simp: acl_defs dest: ensureDir_touches)
      moreover have "?conf \<notin> ev_Join (we_app we) d ` fst ` set es" "?conf \<notin> {d}" using n by (metis imageE, metis singletonD)
      ultimately show ?thesis using touches_dacl by metis
    qed (use 6 \<open>programDir we s5 = Inr d\<close> in \<open>simp add: repair_program_def\<close>)
  qed (use 6 in \<open>simp add: repair_program_def\<close>)
  ultimately show ?thesis using d3 by simp
qed

text \<open>The same machine, with an installation on it and a configuration anyone may read.\<close>

definition open_state :: os where
  "open_state =
     \<lparr>os_files = [''c.conf'' \<mapsto> bytes_of_string demo_text, ''R'' @ CHR 0x5C # ''config.json'' \<mapsto> [123]],
      os_dirs = {''R''}, os_dacl = [''c.conf'' \<mapsto> readableSDDL], os_service = None, os_clock = 0\<rparr>"

lemma demo_repair_succeeds:
  assumes "\<And>c s. we_fail we c s = None" and "RootDir (we_app we) \<in> os_dirs s"
  shows "fst (repairPermissions we (realACLs we) s) = None"
proof -
  have a: "fst (applyDACL we p d x) = None" for p d x by (simp add: applyDACL_def wrap_def call_or_def assms(1))
  have d: "fst (ensureDir we p d x) = None" for p d x
    by (simp add: ensureDir_def wrap_def MkdirAll_def call_or_def assms(1) and_then_def a)
  have t: "fst (and_then r f) = None" if "fst r = None" "\<And>x. fst (f x) = None" for r f
    using that by (cases r) (simp add: and_then_def)
  have e: "fst (each_file f es x) = None" if "\<And>n x. fst (f n x) = None" for f es x
  proof (induction es arbitrary: x)
    case (Cons z es)
    with that show ?case by (cases z) (auto intro: t)
  qed simp
  have i: "fst (if_there we p f x) = None" if "\<And>x. fst (f p x) = None" for p f x
    using that by (simp add: if_there_def)
  show ?thesis
    using assms(2)
    by (auto simp: repairPermissions_def Stat_def assms(1) acl_defs repair_secret_def repair_program_def split: option.splits sum.splits
        intro!: t d a i e)
qed

lemma demo_settings: "\<exists>app. LoadApp (env_now demo_win open_state) [] = Inr app \<and> a_ConfigPath app = ''c.conf''"
  by (auto simp: LoadApp_def AppConfigPath_def RootDir_def env_now_def open_state_def demo_win_def demo_files_def demo_env_def demo_app_def
      Normalize_def Let_def mapErr_def demo_valid orDefault_def TrimSpace_def ascii_space_def uspace2_def uspace3_def ascii_lower_def)

theorem repair_protects_key_witness:
  "\<exists>s'. repairPermissions demo_win (realACLs demo_win) open_state = (None, s') \<and> os_dacl open_state ''c.conf'' = Some readableSDDL \<and>
     os_dacl s' ''c.conf'' = Some (secretSDDL (ServiceSID ServiceName))"
proof -
  have "fst (repairPermissions demo_win (realACLs demo_win) open_state) = None"
    by (rule demo_repair_succeeds) (simp_all add: open_state_def)
  then obtain s' where r: "repairPermissions demo_win (realACLs demo_win) open_state = (None, s')" by (metis prod.collapse)
  obtain app where a: "LoadApp (env_now demo_win open_state) [] = Inr app" "a_ConfigPath app = ''c.conf''" using demo_settings by blast
  have "os_dacl s' (a_ConfigPath app) = Some (secretSDDL (ServiceSID ServiceName))"
    by (rule repair_protects_key [OF r _ _ a(1)]) (auto simp: a(2) open_state_def demo_paths programDir_def ServiceName_def)
  with r a show ?thesis by (simp add: open_state_def)
qed

text \<open>
  When the settings do not load, a repair leaves the file with the private key as it is,
  and reports success all the same.
\<close>

lemma repair_program_touches:
  assumes "repair_program we (realACLs we) s = (e, s')"
    and "\<And>d. programDir we s = Inr d \<Longrightarrow> d \<noteq> conf \<and> (\<forall>n. ev_Join (we_app we) d n \<noteq> conf)"
  shows "touches (UNIV - {conf}) s s'"
proof (cases "programDir we s")
  case (Inr d)
  note d = this
  show ?thesis
  proof (cases "we_ReadDir we d s")
    case (Inr es)
    have "touches (UNIV - {conf}) x y"
      if "each_file (\<lambda>name. ac_program (realACLs we) (ev_Join (we_app we) d name)) es x = (e, y)" for x e y
    proof (rule touches_mono [OF each_file_touches [OF that, of "ev_Join (we_app we) d"]])
      show "ac_program (realACLs we) (ev_Join (we_app we) d n) x = (e, y) \<Longrightarrow> touches {ev_Join (we_app we) d n} x y" for n e x y
        by (auto simp: acl_defs dest: applyDACL_touches)
    qed (use assms(2) [OF d] in auto)
    moreover have "touches (UNIV - {conf}) x y" if "ac_programDir (realACLs we) d x = (e, y)" for x e y
      using that assms(2) [OF d] by (auto simp: acl_defs dest!: ensureDir_touches elim!: touches_mono)
    ultimately show ?thesis using assms(1) d Inr by (auto simp: repair_program_def elim!: and_then_touches)
  qed (use assms(1) d in \<open>simp add: repair_program_def\<close>)
qed (use assms(1) in \<open>simp add: repair_program_def\<close>)

lemma repair_leaves_key:
  assumes "repairPermissions we (realACLs we) s = (e, s')" and "\<And>x. \<exists>err. LoadApp (env_now we x) [] = Inl err"
    and "conf \<notin> {RootDir (we_app we), LogDir (we_app we), AppConfigPath (we_app we), ev_Join (we_app we) (RootDir (we_app we)) ''awgsocks.exe''}"
    and "\<And>x d. programDir we x = Inr d \<Longrightarrow> d \<noteq> conf \<and> (\<forall>n. ev_Join (we_app we) d n \<noteq> conf)"
  shows "os_dacl s' conf = os_dacl s conf"
proof -
  have t: "touches (UNIV - {conf}) x y" if "touches {p} x y" "p \<noteq> conf" for p x y using that by (auto elim: touches_mono)
  have th: "touches (UNIV - {conf}) x y" if "if_there we p f x = (e, y)" "\<And>e y. f p x = (e, y) \<Longrightarrow> touches {p} x y" "p \<noteq> conf" for p f x e y
    using that t by (auto simp: if_there_def split: if_splits)
  have sk: "repair_secret we acl x = (None, x)" for acl x using assms(2) [of x] by (auto simp: repair_secret_def)
  have "touches (UNIV - {conf}) s s'"
    using assms(1,3)
    by (auto simp: repairPermissions_def Let_def sk split: option.splits elim!: and_then_touches intro: repair_program_touches [OF _ assms(4)])
       (auto simp: acl_defs dest!: ensureDir_touches elim!: th intro: ensureDir_touches applyDACL_touches t)
  then show ?thesis by (simp add: touches_def)
qed

end
