(* ===== verification/Service_Windows.thy ===== *)
theory Service_Windows
  imports Winsys_Acl Service_Races
begin

text \<open>
  The service control protocol of Windows: \<open>internal/service/service_windows.go\<close>.

  The requests the service control manager sends are a list, each with what the other
  goroutines of the service did before it arrived; the end of the list is the closing of
  the channel. \<open>svc.Run\<close> is a parameter of \<open>RunService\<close>.
\<close>

section \<open>Requests and reports\<close>

datatype svc_Cmd = Interrogate | CmdSvcStop | Shutdown | ParamChange | PowerEvent | OtherCmd nat

datatype accept = AcceptStop | AcceptShutdown | AcceptPowerEvent | AcceptParamChange

record svc_Status =
  sv_State :: svc_State
  sv_Accepts :: "accept list"
  sv_CheckPoint :: "32 word"
  sv_WaitHint :: nat

record ChangeRequest =
  cr_Cmd :: svc_Cmd
  cr_EventType :: nat
  cr_CurrentStatus :: svc_Status

definition pbtAPMSuspend :: nat where "pbtAPMSuspend = 0x0004"
definition pbtAPMResumeSuspend :: nat where "pbtAPMResumeSuspend = 0x0007"
definition pbtAPMResumeAutomatic :: nat where "pbtAPMResumeAutomatic = 0x0012"
definition pbtAPMPowerStatusChange :: nat where "pbtAPMPowerStatusChange = 0x000A"

definition acceptedControls :: "accept list" where
  "acceptedControls = [AcceptStop, AcceptShutdown, AcceptPowerEvent, AcceptParamChange]"

definition startWaitHint :: nat where "startWaitHint = 20000"
definition stopWaitHint :: nat where "stopWaitHint = 20000"

definition startPending :: "32 word \<Rightarrow> svc_Status" where
  "startPending checkpoint =
     \<lparr>sv_State = SvcStartPending, sv_Accepts = [], sv_CheckPoint = checkpoint, sv_WaitHint = startWaitHint\<rparr>"

definition running :: svc_Status where
  "running = \<lparr>sv_State = SvcRunning, sv_Accepts = acceptedControls, sv_CheckPoint = 0, sv_WaitHint = 0\<rparr>"

definition stopPending :: svc_Status where
  "stopPending = \<lparr>sv_State = SvcStopPending, sv_Accepts = [], sv_CheckPoint = 0, sv_WaitHint = stopWaitHint\<rparr>"

section \<open>Executing the service\<close>

text \<open>The reports while the manager starts: the first, and one for each tick of the ticker.\<close>

fun waitStart :: "nat \<Rightarrow> 32 word \<Rightarrow> svc_Status list" where
  "waitStart 0 checkpoint = [startPending checkpoint]"
| "waitStart (Suc ticks) checkpoint = startPending checkpoint # waitStart ticks (checkpoint + 1)"

definition OnPowerSuspend :: "('d, 'n) mgr \<Rightarrow> ('d, 'n) mgr" where
  "OnPowerSuspend m = m"

text \<open>One request: what is reported, the state after it, and whether the loop goes on.\<close>

definition handle_request ::
  "('w, 'd, 'n, 'p) menv \<Rightarrow> ChangeRequest \<Rightarrow> ('d, 'n) mgr \<times> 'w \<Rightarrow> svc_Status list \<times> ('d, 'n) mgr \<times> 'w \<times> bool" where
  "handle_request env c mw =
     (case mw of (m, w) \<Rightarrow>
        case cr_Cmd c of
          Interrogate \<Rightarrow> ([cr_CurrentStatus c], m, w, True)
        | CmdSvcStop \<Rightarrow> ([], m, w, False)
        | Shutdown \<Rightarrow> ([], m, w, False)
        | ParamChange \<Rightarrow> (case Reload env (m, w) of (r, m', w') \<Rightarrow> ([], m', w', True))
        | PowerEvent \<Rightarrow>
            (if cr_EventType c = pbtAPMSuspend then ([], OnPowerSuspend m, w, True)
             else if cr_EventType c = pbtAPMResumeSuspend \<or> cr_EventType c = pbtAPMResumeAutomatic then ([], OnPowerResume m, w, True)
             else ([], m, w, True))
        | OtherCmd n \<Rightarrow> ([], m, w, True))"

type_synonym ('w, 'd, 'n, 'p) arrival =
  "(('d, 'n) mgr \<times> 'w \<Rightarrow> ('d, 'n) mgr \<times> 'w) \<times> ('w, 'd, 'n, 'p) menv \<times> ChangeRequest"

fun request_loop ::
  "('w, 'd, 'n, 'p) arrival list \<Rightarrow> ('d, 'n) mgr \<times> 'w \<Rightarrow> svc_Status list \<times> ('d, 'n) mgr \<times> 'w" where
  "request_loop [] mw = ([], mw)"
| "request_loop ((meanwhile, env, c) # rest) mw =
     (case handle_request env c (meanwhile mw) of
        (out, m, w, False) \<Rightarrow> (out, m, w)
      | (out, m, w, True) \<Rightarrow> (case request_loop rest (m, w) of (out', mw') \<Rightarrow> (out @ out', mw')))"

text \<open>\<open>Execute\<close>: the reports, the manager at the end, and what is returned.\<close>

definition Execute ::
  "('w, 'd, 'n, 'p) menv \<Rightarrow> nat \<Rightarrow> ('w, 'd, 'n, 'p) arrival list \<Rightarrow> ('d, 'n) mgr \<times> 'w
     \<Rightarrow> svc_Status list \<times> (('d, 'n) mgr \<times> 'w) \<times> bool \<times> nat" where
  "Execute env ticks r mw =
     (case Manager_Start env mw of
        (Some e, mw1) \<Rightarrow> (waitStart ticks 0, mw1, True, 1)
      | (None, mw1) \<Rightarrow>
          (case request_loop r mw1 of
             (out, mw2) \<Rightarrow> (waitStart ticks 0 @ running # out @ [stopPending], Manager_Stop (me_up env) mw2, False, 0)))"

definition RunService ::
  "((('d, 'n) mgr \<times> 'w \<Rightarrow> svc_Status list \<times> (('d, 'n) mgr \<times> 'w) \<times> bool \<times> nat) \<Rightarrow> ('d, 'n) mgr \<times> 'w
      \<Rightarrow> goerr option \<times> ('d, 'n) mgr \<times> 'w)
     \<Rightarrow> ('w, 'd, 'n, 'p) menv \<Rightarrow> nat \<Rightarrow> ('w, 'd, 'n, 'p) arrival list \<Rightarrow> Logger \<Rightarrow> string \<Rightarrow> 'w
     \<Rightarrow> goerr option \<times> ('d, 'n) mgr \<times> 'w" where
  "RunService svc_Run env ticks r log appCfgPath w =
     (case svc_Run (Execute env ticks r) (NewManager log appCfgPath, w) of
        (Some e, mw) \<Rightarrow> (Some (Errorf_w ''could not run the service: '' e), mw)
      | (None, mw) \<Rightarrow> (None, mw))"

definition IsWindowsService :: "goerr + bool \<Rightarrow> bool" where
  "IsWindowsService is = (case is of Inl _ \<Rightarrow> False | Inr b \<Rightarrow> b)"

section \<open>The life of the service\<close>

text \<open>What the service answers: the interrogations before the first stop or shutdown.\<close>

definition stops :: "('w, 'd, 'n, 'p) arrival \<Rightarrow> bool" where
  "stops a \<longleftrightarrow> cr_Cmd (snd (snd a)) \<in> {CmdSvcStop, Shutdown}"

definition answers :: "('w, 'd, 'n, 'p) arrival list \<Rightarrow> svc_Status list" where
  "answers r =
     map (\<lambda>a. cr_CurrentStatus (snd (snd a)))
       (filter (\<lambda>a. cr_Cmd (snd (snd a)) = Interrogate) (takeWhile (\<lambda>a. \<not> stops a) r))"

text \<open>
  The other goroutines: commands on the pipe, retries, network events. They never start or
  stop the service.
\<close>

definition goroutines :: "('w, 'd, 'n, 'p) upstream \<Rightarrow> ('w, 'd, 'n, 'p) arrival \<Rightarrow> bool" where
  "goroutines up a \<longleftrightarrow>
     me_up (fst (snd a)) = up \<and>
     (\<forall>x. (mstep up)\<^sup>*\<^sup>* x (fst a x) \<and> m_running (fst (fst a x)) = m_running (fst x))"

lemma handle_request_step:
  assumes "handle_request env c (m, w) = (out, m', w', go)" and "me_up env = up"
  shows "(mstep up)\<^sup>*\<^sup>* (m, w) (m', w')"
  using assms mstep.background [OF background.power [of up m w]]
  by (auto simp: handle_request_def OnPowerSuspend_def Reload_def split: svc_Cmd.splits prod.splits if_splits
      intro!: r_into_rtranclp mstep.background intro: background.reload)

lemma handle_request_out:
  "fst (handle_request env c mw) = (if cr_Cmd c = Interrogate then [cr_CurrentStatus c] else [])"
  "snd (snd (snd (handle_request env c mw))) \<longleftrightarrow> cr_Cmd c \<notin> {CmdSvcStop, Shutdown}"
  by (auto simp: handle_request_def split: svc_Cmd.splits prod.splits)

lemma request_loop_out: "fst (request_loop r mw) = answers r"
proof (induction r mw rule: request_loop.induct)
  case (2 meanwhile env c rest mw)
  obtain out m w go where h: "handle_request env c (meanwhile mw) = (out, m, w, go)" using prod_cases4 by blast
  from handle_request_out [of env c "meanwhile mw"] h
  have o: "out = (if cr_Cmd c = Interrogate then [cr_CurrentStatus c] else [])" "go \<longleftrightarrow> cr_Cmd c \<notin> {CmdSvcStop, Shutdown}"
    by simp_all
  show ?case using 2 [OF h [symmetric] refl refl] h o
    by (cases go) (auto simp: answers_def stops_def split: prod.splits)
qed (simp add: answers_def)

lemma request_loop_steps:
  "request_loop r mw = (out, mw') \<Longrightarrow> \<forall>a\<in>set r. goroutines up a \<Longrightarrow> (mstep up)\<^sup>*\<^sup>* mw mw'"
proof (induction r mw arbitrary: out rule: request_loop.induct)
  case (2 meanwhile env c rest mw)
  obtain o1 m w go where h: "handle_request env c (meanwhile mw) = (o1, m, w, go)" using prod_cases4 by blast
  from 2(3) have up: "me_up env = up" "(mstep up)\<^sup>*\<^sup>* mw (meanwhile mw)"
    by (simp_all add: goroutines_def del: split_paired_All)
  obtain m0 w0 where mw: "meanwhile mw = (m0, w0)" by fastforce
  have s: "(mstep up)\<^sup>*\<^sup>* mw (m, w)" using handle_request_step [OF h [unfolded mw] up(1)] up(2) mw by simp
  show ?case
  proof (cases go)
    case True
    obtain o2 y where l: "request_loop rest (m, w) = (o2, y)" by (cases "request_loop rest (m, w)")
    with h 2(2) True have "y = mw'" by simp
    with 2(1) [OF h [symmetric] refl refl, of o2] True 2(3) l s show ?thesis by auto
  qed (use h 2(2) s in simp)
qed simp

lemma Reload_running: "Reload env (m, w) = (x, m', w') \<Longrightarrow> m_running m' = m_running m"
proof -
  have l: "m_running m3 = m_running m2" if "reload_listener os a s b m2 = (e, why, m3)" for os a s b m2 e why m3
    using that by (auto simp: reload_listener_def swap_listener_def Let_def split: option.splits if_splits prod.splits sum.splits)
  have "m_running m' = m_running m" if "reload_apply env newApp newTun t (m, w) = (y, m', w')" for newApp newTun t y
    using that by (cases rule: reload_apply_cases) (auto dest!: l checkConflict_ctx(2) split: option.splits)
  then show "Reload env (m, w) = (x, m', w') \<Longrightarrow> m_running m' = m_running m"
    by (auto simp: Reload_def Manager_Reload_def split: option.splits sum.splits prod.splits)
qed

lemma handle_request_running: "handle_request env c (m, w) = (out, m', w', go) \<Longrightarrow> m_running m' = m_running m"
  by (auto simp: handle_request_def OnPowerSuspend_def OnPowerResume_def request_reconnect_def
      split: svc_Cmd.splits prod.splits if_splits option.splits dest: Reload_running)

lemma request_loop_running:
  "request_loop r mw = (out, mw') \<Longrightarrow> \<forall>a\<in>set r. goroutines up a \<Longrightarrow> m_running (fst mw') = m_running (fst mw)"
proof (induction r mw arbitrary: out rule: request_loop.induct)
  case (2 meanwhile env c rest mw)
  obtain o1 m w go where h: "handle_request env c (meanwhile mw) = (o1, m, w, go)" using prod_cases4 by blast
  from 2(3) have g: "m_running (fst (meanwhile mw)) = m_running (fst mw)" by (simp add: goroutines_def del: split_paired_All)
  obtain m0 w0 where mw: "meanwhile mw = (m0, w0)" by fastforce
  from handle_request_running [OF h [unfolded mw]] g mw have s: "m_running m = m_running (fst mw)" by simp
  show ?case
  proof (cases go)
    case True
    obtain o2 y where l: "request_loop rest (m, w) = (o2, y)" by (cases "request_loop rest (m, w)")
    with h 2(2) True have "y = mw'" by simp
    with 2(1) [OF h [symmetric] refl refl, of o2] True 2(3) l s show ?thesis by auto
  qed (use h 2(2) s in auto)
qed simp

lemma tunnel_running_frame_run [simp]:
  "tunnel_running (m\<lparr>m_running := b\<rparr>) = tunnel_running m" "tunnel_running (m\<lparr>m_log := l\<rparr>) = tunnel_running m"
  by (simp_all add: tunnel_running_def)

lemma New_down [simp]: "\<not> tunnel_running (NewManager l p)" "\<not> m_running (NewManager l p)"
  by (simp_all add: NewManager_def tunnel_running_def)

lemma Start_failed_stopped:
  assumes "Manager_Start env (NewManager l p, w) = (Some e, m', w')"
  shows "\<not> m_running m' \<and> \<not> tunnel_running m'"
  using assms
  by (auto simp: Manager_Start_def open_listener_def set_level_def Let_def
      split: sum.splits option.splits prod.splits if_splits dest!: stop_tunnel_down)

lemma Start_running: "Manager_Start env (NewManager l p, w) = (None, m', w') \<Longrightarrow> m_running m'"
  by (auto simp: Manager_Start_def open_listener_def adopt_def Let_def
      split: sum.splits option.splits prod.splits if_splits dest!: auto_start_frame(2))

lemma Stop_stopped: "Manager_Stop up (m, w) = (m', w') \<Longrightarrow> m_running m \<Longrightarrow> \<not> m_running m' \<and> \<not> tunnel_running m'"
  by (auto simp: Manager_Stop_def Let_def wait_retries_def cancel_service_def dest: stop_tunnel_down)
     (auto simp: stop_tunnel_def split: option.splits prod.splits)

lemma waitStart_checkpoints: "map sv_CheckPoint (waitStart n c) = map (\<lambda>i. c + of_nat i) [0..<Suc n]"
proof (induction n arbitrary: c)
  case (Suc n)
  have "map (\<lambda>i. c + of_nat i) [0..<Suc (Suc n)] = c # map (\<lambda>i. c + 1 + of_nat i) [0..<Suc n]"
    by (simp only: upt_conv_Cons [of 0 "Suc (Suc n)", OF zero_less_Suc] list.map map_Suc_upt [symmetric] map_map)
       (simp add: comp_def algebra_simps)
  with Suc show ?case by (simp add: startPending_def del: upt_Suc)
qed (simp add: startPending_def)

text \<open>
  C21: the life of the service under the service control manager. While it starts it
  reports \<open>StartPending\<close> with the checkpoints 0, 1, 2 and so on. If the start fails it never
  reports \<open>Running\<close> and returns a service specific error, which makes Windows restart it. If
  the start succeeds it reports \<open>Running\<close> once, answers every interrogation up to the first
  stop or shutdown, reports \<open>StopPending\<close> last and returns success. Either way, whatever
  requests arrive and whatever the other goroutines do in between, the manager ends
  stopped, with the tunnel down and its invariant intact.
\<close>

theorem service_lifecycle:
  assumes "Execute env ticks r (NewManager log path, w) = (out, (m', w'), ssec, code)"
    and "\<forall>a\<in>set r. goroutines (me_up env) a"
  shows "\<not> m_running m' \<and> \<not> tunnel_running m' \<and> mgr_inv m' \<and>
    (\<exists>pre. map sv_State pre = replicate (Suc ticks) SvcStartPending \<and> map sv_CheckPoint pre = map of_nat [0..<Suc ticks] \<and>
      (case Manager_Start env (NewManager log path, w) of
         (Some e, _) \<Rightarrow> out = pre \<and> ssec \<and> code = 1
       | (None, _) \<Rightarrow> out = pre @ running # answers r @ [stopPending] \<and> \<not> ssec \<and> code = 0))"
proof -
  obtain e m1 w1 where s: "Manager_Start env (NewManager log path, w) = (e, m1, w1)" using prod_cases3 by blast
  have i1: "mgr_inv m1" using Manager_Start_inv [OF mgr_inv_New s] .
  have st: "map sv_State (waitStart n c) = replicate (Suc n) SvcStartPending" for n c
    by (induction n arbitrary: c) (simp_all add: startPending_def)
  have cp: "map sv_CheckPoint (waitStart ticks 0) = map of_nat [0..<Suc ticks]" by (simp only: waitStart_checkpoints add_0)
  show ?thesis
  proof (cases e)
    case (Some err)
    with assms(1) s have x: "out = waitStart ticks 0" "m' = m1" "ssec" "code = 1" by (auto simp: Execute_def)
    from Start_failed_stopped [OF s [unfolded Some]] i1 x s Some show ?thesis
      by (auto intro!: exI [of _ "waitStart ticks 0"] simp: st cp simp del: upt_Suc)
  next
    case None
    obtain ans m2 w2 where l: "request_loop r (m1, w1) = (ans, m2, w2)" using prod_cases3 by blast
    with assms(1) s None have x: "out = waitStart ticks 0 @ running # ans @ [stopPending]" "\<not> ssec" "code = 0"
      "Manager_Stop (me_up env) (m2, w2) = (m', w')" by (auto simp: Execute_def)
    have run: "m_running m2" using request_loop_running [OF l assms(2)] Start_running [OF s [unfolded None]] by simp
    have "mgr_inv (fst y)" if "(mstep (me_up env))\<^sup>*\<^sup>* z y" "mgr_inv (fst z)" for z y
      using that by (induction rule: rtranclp_induct) (auto dest: mstep_inv)
    from this [OF request_loop_steps [OF l assms(2)]] i1 have "mgr_inv m2" by simp
    from Manager_Stop_inv [OF this x(4)] Stop_stopped [OF x(4) run] x s None request_loop_out [of r "(m1, w1)"] l show ?thesis
      by (auto intro!: exI [of _ "waitStart ticks 0"] simp: st cp simp del: upt_Suc)
  qed
qed

theorem service_lifecycle_witness:
  "\<exists>m' w'. Execute (demo_menv ''std'' []) 2
       [(id, demo_menv ''std'' [], \<lparr>cr_Cmd = Interrogate, cr_EventType = 0, cr_CurrentStatus = running\<rparr>),
        (id, demo_menv ''std'' [], \<lparr>cr_Cmd = CmdSvcStop, cr_EventType = 0, cr_CurrentStatus = running\<rparr>)]
       (NewManager demo_log ''j'', 0) =
     ([startPending 0, startPending 1, startPending 2, running, running, stopPending], (m', w'), False, 0) \<and>
     \<not> m_running m' \<and> \<not> tunnel_running m'"
proof -
  let ?env = "demo_menv ''std'' []"
  let ?r = "[(id, ?env, \<lparr>cr_Cmd = Interrogate, cr_EventType = 0, cr_CurrentStatus = running\<rparr>),
        (id, ?env, \<lparr>cr_Cmd = CmdSvcStop, cr_EventType = 0, cr_CurrentStatus = running\<rparr>)]"
  obtain m w where s: "Manager_Start ?env (NewManager demo_log ''j'', 0) = (None, m, w)" using demo_service by blast
  have l: "request_loop ?r (m, w) = ([running], m, w)" by (simp add: handle_request_def)
  obtain m' w' where p: "Manager_Stop (me_up ?env) (m, w) = (m', w')" by fastforce
  have x: "Execute ?env 2 ?r (NewManager demo_log ''j'', 0) =
      ([startPending 0, startPending 1, startPending 2, running, running, stopPending], (m', w'), False, 0)"
    by (simp only: Execute_def s l p prod.case option.case) (simp add: numeral_2_eq_2)
  have "\<forall>a\<in>set ?r. goroutines (me_up ?env) a" by (simp add: goroutines_def)
  from service_lifecycle [OF x this] x show ?thesis by blast
qed

end
