(* ===== verification/Cmd_Main.thy ===== *)
theory Cmd_Main
  imports Cmd_Status Service_Install Service_Windows
begin

text \<open>
  The command line: \<open>cmd/awgsocks/main.go\<close>, over the operations on the machine
  (\<open>Service_Control\<close>), the management pipe (\<open>Ipc_Pipe\<close>) and the manager. Exit codes are
  numbers; what is printed is modelled where a command reports something; the help
  text is in \<open>Cmd_Console\<close>.
\<close>

section \<open>Flags\<close>

text \<open>
  Go's \<open>flag\<close> package with \<open>ContinueOnError\<close>: the values given, and the arguments that are
  left; \<open>None\<close> is a usage error. A boolean flag has the value \<open>true\<close> or \<open>false\<close>.
\<close>

datatype flag_kind = StringFlag | BoolFlag

definition ParseBool :: "string \<Rightarrow> bool option" where
  "ParseBool s =
     (if s \<in> set [''1'', ''t'', ''T'', ''TRUE'', ''true'', ''True''] then Some True
      else if s \<in> set [''0'', ''f'', ''F'', ''FALSE'', ''false'', ''False''] then Some False
      else None)"

definition bool_text :: "bool \<Rightarrow> string" where "bool_text b = (if b then ''true'' else ''false'')"

function parse_flags ::
  "(string \<rightharpoonup> flag_kind) \<Rightarrow> string list \<Rightarrow> (string \<rightharpoonup> string) \<Rightarrow> ((string \<rightharpoonup> string) \<times> string list) option" where
  "parse_flags spec [] vals = Some (vals, [])"
| "parse_flags spec (s # args) vals =
     (if length s < 2 \<or> hd s \<noteq> CHR ''-'' then Some (vals, s # args)
      else if s = ''--'' then Some (vals, args)
      else
        (let body = (if s ! 1 = CHR ''-'' then drop 2 s else drop 1 s) in
         if body = [] \<or> hd body = CHR ''-'' \<or> hd body = CHR ''='' then None
         else
           (let (name, given) = (case Cut (CHR ''='') body of None \<Rightarrow> (body, None) | Some (n, v) \<Rightarrow> (n, Some v)) in
            case spec name of
              None \<Rightarrow> None
            | Some BoolFlag \<Rightarrow>
                (case given of
                   None \<Rightarrow> parse_flags spec args (vals(name \<mapsto> ''true''))
                 | Some v \<Rightarrow>
                     (case ParseBool v of None \<Rightarrow> None | Some b \<Rightarrow> parse_flags spec args (vals(name \<mapsto> bool_text b))))
            | Some StringFlag \<Rightarrow>
                (case given of
                   Some v \<Rightarrow> parse_flags spec args (vals(name \<mapsto> v))
                 | None \<Rightarrow> (case args of [] \<Rightarrow> None | v # rest \<Rightarrow> parse_flags spec rest (vals(name \<mapsto> v)))))))"
  by pat_completeness auto
termination
  by (relation "measure (\<lambda>(spec, args, vals). length args)") auto

definition str_flag :: "(string \<rightharpoonup> string) \<Rightarrow> string \<Rightarrow> string" where
  "str_flag vals name = (case vals name of None \<Rightarrow> [] | Some v \<Rightarrow> v)"

definition bool_flag :: "(string \<rightharpoonup> string) \<Rightarrow> string \<Rightarrow> bool" where
  "bool_flag vals name \<longleftrightarrow> vals name = Some ''true''"

section \<open>Reports\<close>

definition report :: "goerr option \<Rightarrow> nat" where
  "report err = (if err \<noteq> None then 1 else 0)"

fun call_err_Error :: "call_err \<Rightarrow> string" where
  "call_err_Error (ErrNotRunning None) = ''the AWGSocks management pipe was not found, the service may not be running''"
| "call_err_Error (ErrNotRunning (Some e)) = ''the AWGSocks management pipe was not found, the service may not be running: '' @ e"
| "call_err_Error (MarshalErr e) = e"
| "call_err_Error (SendErr e) = ''could not send the management request: '' @ e"
| "call_err_Error RecvErr = ''could not read the management response: EOF''"
| "call_err_Error (ParseErr e) = ''could not parse the management response: '' @ e"

text \<open>A command on the pipe: the exit code, and what is printed on the two streams.\<close>

definition cmdPipe :: "(string \<Rightarrow> call_err + Response) \<Rightarrow> string \<Rightarrow> nat \<times> string list \<times> string list" where
  "cmdPipe call cmd =
     (case call cmd of
        Inl (ErrNotRunning e) \<Rightarrow> (1, [], [''Error: the AWGSocks service is not running.''])
      | Inl e \<Rightarrow> (1, [], [''Error: '' @ call_err_Error e])
      | Inr resp \<Rightarrow>
          if \<not> rp_OK resp then (1, [], [''Error: '' @ rp_Error resp])
          else (0, if rp_Message resp \<noteq> [] then [rp_Message resp] else [], []))"

definition errString :: "call_err + Response \<Rightarrow> string" where
  "errString r =
     (case r of
        Inl e \<Rightarrow> call_err_Error e
      | Inr resp \<Rightarrow> if rp_Error resp \<noteq> [] then rp_Error resp else ''unknown error'')"

datatype status_out =
    StatusUsage | FailedJSON string string | FailedText "string list" | ReportJSON Status | ReportText "string list option"

definition cmdStatus ::
  "fmt_env \<Rightarrow> (string \<Rightarrow> call_err + Response) \<Rightarrow> winenv \<Rightarrow> string list \<Rightarrow> os \<Rightarrow> nat \<times> status_out" where
  "cmdStatus fm call we args s =
     (case parse_flags [''json'' \<mapsto> BoolFlag] args Map.empty of
        None \<Rightarrow> (2, StatusUsage)
      | Some (vals, _) \<Rightarrow>
          (let asJSON = bool_flag vals ''json'';
               q = QueryState we s;
               scmState = (case q of Inl _ \<Rightarrow> ''SCM unreadable'' | Inr st \<Rightarrow> if TrimSpace st = [] then ''SCM unreadable'' else st);
               r = call CmdStatus;
               good = (case r of Inl _ \<Rightarrow> None | Inr resp \<Rightarrow> if rp_OK resp then rp_Status resp else None)
           in case good of
                None \<Rightarrow>
                  if asJSON then (1, FailedJSON scmState (errString r))
                  else (1, FailedText
                    ([''Service state  : '' @ scmState] @
                     (case q of Inl e \<Rightarrow> [''SCM error      : '' @ e_msg e] | Inr _ \<Rightarrow> []) @
                     [''Tunnel state   : unknown (the management pipe could not be reached)''] @
                     (case r of Inl e \<Rightarrow> [''Detail         : '' @ call_err_Error e] | Inr _ \<Rightarrow> []) @
                     [''Note           : the status command requires Administrator privileges.'']))
              | Some st \<Rightarrow>
                  (let st' = st\<lparr>st_Service := scmState\<rparr> in
                   (0, if asJSON then ReportJSON st' else ReportText (printStatus fm st')))))"

section \<open>Checking a configuration\<close>

definition joinPrefixes :: "Tunnel \<Rightarrow> string" where
  "joinPrefixes t = joinComma (map Prefix_String (t_Prefixes t))"

definition joinAddrs :: "Tunnel \<Rightarrow> string" where
  "joinAddrs t =
     (let (addrs, suffix) =
            (if t_LocalDNS t \<noteq> [] then (t_LocalDNS t, '' (this PC, outside the tunnel)'') else (t_DNS t, []))
      in if addrs = [] then ''none'' else joinComma (map Addr_String addrs) @ suffix)"

text \<open>Which file is checked: the flag, else an argument, else the one the settings name.\<close>

definition check_path :: "app_env \<Rightarrow> (string \<rightharpoonup> string) \<Rightarrow> string list \<Rightarrow> string" where
  "check_path ev vals rest =
     (let path = (if str_flag vals ''config'' = [] \<and> rest \<noteq> [] then hd rest else str_flag vals ''config'') in
      if path \<noteq> [] then path
      else (case LoadApp ev [] of Inr app \<Rightarrow> a_ConfigPath app | Inl _ \<Rightarrow> TunnelConfigPath ev))"

text \<open>What is printed of a valid configuration; \<open>peers\<close> renders what
  the upstream parser found of the peers.\<close>

definition check_lines :: "fmt_env \<Rightarrow> (Tunnel \<Rightarrow> string list) \<Rightarrow> Tunnel \<Rightarrow> string list" where
  "check_lines fm peers t =
     [''File           : '' @ t_Path t, ''AWG generation : '' @ generation_String (t_Generation t),
      ''Tunnel address : '' @ joinPrefixes t, ''DNS            : '' @ joinAddrs t, ''MTU            : '' @ dec_int (t_MTU t),
      ''Endpoint       : '' @ Tunnel_Endpoint t,
      (if t_AWGParams t \<noteq> [] then ''AWG parameters : '' @ joinComma (t_AWGParams t)
       else ''AWG parameters : none (plain WireGuard)'')] @
     peers t @ map (\<lambda>w. ''WARNING        : '' @ fm_warning fm w) (t_Warnings t)"

definition cmdCheck ::
  "fmt_env \<Rightarrow> (Tunnel \<Rightarrow> string list) \<Rightarrow> winenv \<Rightarrow> (Tunnel \<Rightarrow> goerr option) \<Rightarrow> string list \<Rightarrow> os \<Rightarrow> nat \<times> string list" where
  "cmdCheck fm peers we dryRun args s =
     (case parse_flags [''config'' \<mapsto> StringFlag] args Map.empty of
        None \<Rightarrow> (2, [])
      | Some (vals, rest) \<Rightarrow>
          (case LoadTunnel (env_now we s) (we_confParse we) (we_pbase we) (we_nameValid we) (check_path (env_now we s) vals rest) of
             Inl _ \<Rightarrow> (1, [])
           | Inr tun \<Rightarrow>
               (case dryRun tun of
                  Some e \<Rightarrow> (1, check_lines fm peers tun)
                | None \<Rightarrow>
                    (0, check_lines fm peers tun @
                       [[], ''Result         : valid. Accepted by '' @ AmneziaWGGoVersion @ ''.'',
                        ''AllowedIPs note: 0.0.0.0/0 and ::/0 are accepted but are NEVER installed as Windows routes.'']))))"

section \<open>Installing and removing\<close>

definition helperScripts :: "string list" where
  "helperScripts =
     [''service-install.bat'', ''service-start.bat'', ''service-stop.bat'', ''service-status.bat'', ''service-config.bat'',
      ''service-uninstall.bat'']"

definition install_flags :: "string \<rightharpoonup> flag_kind" where
  "install_flags =
     [''config'' \<mapsto> StringFlag, ''in-place'' \<mapsto> BoolFlag, ''socks'' \<mapsto> StringFlag, ''log-level'' \<mapsto> StringFlag,
      ''no-autostart'' \<mapsto> BoolFlag, ''start'' \<mapsto> BoolFlag]"

definition cmdInstall :: "winenv \<Rightarrow> string list \<Rightarrow> os \<Rightarrow> nat \<times> os" where
  "cmdInstall we args s =
     (case parse_flags install_flags args Map.empty of
        None \<Rightarrow> (2, s)
      | Some (vals, rest) \<Rightarrow>
          (let path = (if str_flag vals ''config'' = [] \<and> rest \<noteq> [] then hd rest else str_flag vals ''config'');
               socksAddr = str_flag vals ''socks''
           in if socksAddr \<noteq> [] \<and> ValidateLoopbackListen socksAddr \<noteq> Inr () then (1, s)
              else (case Install we
                  \<lparr>io_ConfigPath = path, io_InPlace = bool_flag vals ''in-place'', io_Socks5Listen = socksAddr,
                   io_LogLevel = str_flag vals ''log-level'', io_AutoStartTunnel = (\<not> bool_flag vals ''no-autostart''),
                   io_StartService = bool_flag vals ''start'', io_Scripts = helperScripts\<rparr> s of
                  (e, s') \<Rightarrow> (report e, s'))))"

definition cmdUninstall :: "winenv \<Rightarrow> string list \<Rightarrow> os \<Rightarrow> nat \<times> os" where
  "cmdUninstall we args s =
     (case parse_flags [''purge'' \<mapsto> BoolFlag, ''keep-settings'' \<mapsto> BoolFlag] args Map.empty of
        None \<Rightarrow> (2, s)
      | Some (vals, _) \<Rightarrow>
          (case Uninstall we (bool_flag vals ''purge'') (bool_flag vals ''keep-settings'') s of (e, s') \<Rightarrow> (report e, s')))"

section \<open>Running the service\<close>

definition service_level :: "app_env \<Rightarrow> Level" where
  "service_level ev =
     (case LoadApp ev [] of
        Inl _ \<Rightarrow> LevelInfo
      | Inr app \<Rightarrow> (case ParseLevel (a_LogLevel app) of Some l \<Rightarrow> l | None \<Rightarrow> LevelInfo))"

definition service_log :: "Level \<Rightarrow> bool \<Rightarrow> log_options" where
  "service_log level console =
     \<lparr>op_Dir = True, op_FileName = [], op_Level = level, op_MaxSizeBytes = 0, op_MaxFiles = 0, op_Console = console\<rparr>"

definition runService ::
  "((('d, 'n) mgr \<times> 'w \<Rightarrow> svc_Status list \<times> (('d, 'n) mgr \<times> 'w) \<times> bool \<times> nat) \<Rightarrow> ('d, 'n) mgr \<times> 'w
      \<Rightarrow> goerr option \<times> ('d, 'n) mgr \<times> 'w)
     \<Rightarrow> ('w, 'd, 'n, 'p) menv \<Rightarrow> nat \<Rightarrow> ('w, 'd, 'n, 'p) arrival list \<Rightarrow> log_io \<Rightarrow> log_world \<Rightarrow> 'w \<Rightarrow> nat \<times> ('d, 'n) mgr \<times> 'w" where
  "runService svc_Run env ticks r io lw w =
     (case Logger_New io (service_log (service_level (me_app env)) False) lw of
        (_, log, _) \<Rightarrow>
          (case RunService svc_Run env ticks r log [] w of
             (Some e, mw) \<Rightarrow> (1, mw)
           | (None, mw) \<Rightarrow> (0, mw)))"

text \<open>
  The throwaway settings of \<open>run --config\<close>: the path \<open>os.CreateTemp\<close> gives, and the files
  after it.
\<close>

definition writeTempAppConfig ::
  "app_env \<Rightarrow> fs_env \<Rightarrow> goerr + string \<Rightarrow> string \<Rightarrow> string \<Rightarrow> files \<Rightarrow> (goerr + string) \<times> files" where
  "writeTempAppConfig ev fe createTemp confPath level fs =
     (let app = (DefaultApp ev)\<lparr>a_ConfigPath := confPath\<rparr>;
          app1 = (if level \<noteq> [] then app\<lparr>a_LogLevel := level\<rparr> else app)
      in case Normalize ev app1 of
           Inl _ \<Rightarrow> (Inl (errors_New ''the settings are invalid''), fs)
         | Inr app2 \<Rightarrow>
             (case createTemp of
                Inl e \<Rightarrow> (Inl e, fs)
              | Inr path \<Rightarrow>
                  (case Save ev fe path app2 (fs(path \<mapsto> [])) of
                     (True, _, fs') \<Rightarrow> (Inr path, fs')
                   | (False, _, fs') \<Rightarrow> (Inl (errors_New ''could not save the settings''), fs'(path := None)))))"

definition reading :: "files \<Rightarrow> ('w, 'd, 'n, 'p) menv \<Rightarrow> ('w, 'd, 'n, 'p) menv" where
  "reading fs env =
     env\<lparr>me_app := (me_app env)\<lparr>ev_ReadFile := (\<lambda>p. case fs p of None \<Rightarrow> Missing | Some c \<Rightarrow> Content c)\<rparr>\<rparr>"

text \<open>
  The manager in the foreground until an interrupt, \<open>meanwhile\<close> being what its goroutines
  do; the result is the exit code, the manager if one was made, and the files.
\<close>

definition run_manager ::
  "('w, 'd, 'n, 'p) menv \<Rightarrow> (('d, 'n) mgr \<times> 'w \<Rightarrow> ('d, 'n) mgr \<times> 'w) \<Rightarrow> Logger \<Rightarrow> string \<Rightarrow> 'w \<Rightarrow> nat \<times> ('d, 'n) mgr \<times> 'w" where
  "run_manager env meanwhile log appCfgPath w =
     (case Manager_Start env (NewManager log appCfgPath, w) of
        (Some e, mw) \<Rightarrow> (1, mw)
      | (None, mw) \<Rightarrow> (0, Manager_Stop (me_up env) (meanwhile mw)))"

definition cmdRun ::
  "('w, 'd, 'n, 'p) menv \<Rightarrow> (('d, 'n) mgr \<times> 'w \<Rightarrow> ('d, 'n) mgr \<times> 'w) \<Rightarrow> log_io \<Rightarrow> log_world \<Rightarrow> fs_env \<Rightarrow> goerr + string
     \<Rightarrow> string list \<Rightarrow> files \<Rightarrow> 'w \<Rightarrow> nat \<times> (('d, 'n) mgr \<times> 'w) option \<times> files" where
  "cmdRun env meanwhile io lw fe createTemp args fs w =
     (case parse_flags [''config'' \<mapsto> StringFlag, ''app-config'' \<mapsto> StringFlag, ''log-level'' \<mapsto> StringFlag] args Map.empty of
        None \<Rightarrow> (2, None, fs)
      | Some (vals, _) \<Rightarrow>
          (let levelName = str_flag vals ''log-level'' in
           case (if levelName = [] then Some LevelInfo else ParseLevel levelName) of
             None \<Rightarrow> (1, None, fs)
           | Some level \<Rightarrow>
               (case Logger_New io (service_log level True) lw of
                  (_, log, _) \<Rightarrow>
                    if str_flag vals ''config'' = [] then
                      (case run_manager (reading fs env) meanwhile log (str_flag vals ''app-config'') w of
                         (code, mw) \<Rightarrow> (code, Some mw, fs))
                    else
                      (case writeTempAppConfig (me_app env) fe createTemp (str_flag vals ''config'') levelName fs of
                         (Inl e, fs1) \<Rightarrow> (report (Some e), None, fs1)
                       | (Inr tmp, fs1) \<Rightarrow>
                           (case run_manager (reading fs1 env) meanwhile log tmp w of
                              (code, mw) \<Rightarrow> (code, Some mw, fs1(tmp := None)))))))"

section \<open>The commands\<close>

record ('w, 'd, 'n, 'p) cmd_env =
  cm_win :: winenv
  cm_isService :: "goerr + bool"
  cm_call :: "string \<Rightarrow> call_err + Response"
  cm_fmt :: fmt_env
  cm_peers :: "Tunnel \<Rightarrow> string list"
  cm_env :: "('w, 'd, 'n, 'p) menv"
  cm_svcRun :: "(('d, 'n) mgr \<times> 'w \<Rightarrow> svc_Status list \<times> (('d, 'n) mgr \<times> 'w) \<times> bool \<times> nat) \<Rightarrow> ('d, 'n) mgr \<times> 'w
      \<Rightarrow> goerr option \<times> ('d, 'n) mgr \<times> 'w"
  cm_ticks :: nat
  cm_requests :: "('w, 'd, 'n, 'p) arrival list"
  cm_meanwhile :: "('d, 'n) mgr \<times> 'w \<Rightarrow> ('d, 'n) mgr \<times> 'w"
  cm_io :: log_io
  cm_log :: log_world
  cm_fs :: fs_env
  cm_createTemp :: "goerr + string"
  cm_world :: 'w

text \<open>
  The exit code, and the machine after it. The log files, which the two commands that run
  the service write, are the logger's own world (\<open>Logging_Log\<close>).
\<close>

definition run_foreground :: "('w, 'd, 'n, 'p) cmd_env \<Rightarrow> string list \<Rightarrow> os \<Rightarrow> nat \<times> os" where
  "run_foreground ce rest s =
     (case cmdRun (cm_env ce) (cm_meanwhile ce) (cm_io ce) (cm_log ce) (cm_fs ce) (cm_createTemp ce) rest (os_files s) (cm_world ce) of
        (code, _, fs) \<Rightarrow> (code, s\<lparr>os_files := fs\<rparr>))"

definition run_service :: "('w, 'd, 'n, 'p) cmd_env \<Rightarrow> os \<Rightarrow> nat" where
  "run_service ce s =
     fst (runService (cm_svcRun ce) (reading (os_files s) (cm_env ce)) (cm_ticks ce) (cm_requests ce) (cm_io ce) (cm_log ce) (cm_world ce))"

definition run :: "('w, 'd, 'n, 'p) cmd_env \<Rightarrow> string list \<Rightarrow> os \<Rightarrow> nat \<times> os" where
  "run ce args s =
     (let we = cm_win ce; of_outcome = (\<lambda>r. (report (fst r), snd r)) in
      if IsWindowsService (cm_isService ce) then (run_service ce s, s)
      else (case args of
          [] \<Rightarrow> (0, s)
        | cmd # rest \<Rightarrow>
            if cmd \<in> set [''-h'', ''--help'', ''help''] then (0, s)
            else if cmd \<in> set [''version'', ''--version'', ''-v''] then (0, s)
            else if cmd = ''service'' then (run_service ce s, s)
            else if cmd = ''run'' then run_foreground ce rest s
            else if cmd = ''check'' then
              (fst (cmdCheck (cm_fmt ce) (cm_peers ce) we (\<lambda>tun. fst (DryRun (me_up (cm_env ce)) (Some tun) (cm_world ce))) rest s), s)
            else if cmd = ''install'' then cmdInstall we rest s
            else if cmd = ''uninstall'' then cmdUninstall we rest s
            else if cmd = ''repair'' then of_outcome (RepairPermissions we s)
            else if cmd = ''start'' then of_outcome (StartService we s)
            else if cmd = ''stop'' then of_outcome (StopService we s)
            else if cmd = ''restart'' then of_outcome (RestartService we s)
            else if cmd = ''status'' then (fst (cmdStatus (cm_fmt ce) (cm_call ce) we rest s), s)
            else if cmd = ''reload'' then (fst (cmdPipe (cm_call ce) CmdReload), s)
            else if cmd = ''reconnect'' then (fst (cmdPipe (cm_call ce) CmdReconnect), s)
            else (2, s)))"

section \<open>What a command may change\<close>

lemma withService_cases:
  assumes "withService we action fn s = (e, s')"
  obtains (refused) "s' = s" "e \<noteq> None" | (opened) "IsElevated we s" "fn s = (e, s')"
  using assms by (auto simp: withService_def RequireElevation_def split: option.splits if_splits)

text \<open>Nothing but time has passed.\<close>

definition later :: "os \<Rightarrow> os \<Rightarrow> bool" where
  "later s s' \<longleftrightarrow> s'\<lparr>os_clock := os_clock s\<rparr> = s"

lemma later_refl [simp]: "later s s"
  by (simp add: later_def)

lemma later_trans: "later s s1 \<Longrightarrow> later s1 s2 \<Longrightarrow> later s s2"
  by (cases s; cases s1; cases s2) (simp add: later_def)

lemma waiting_later: "waitForState we st s = (e, s') \<Longrightarrow> later s s'"
  using waitForState_frame [of we st s] by (auto simp: later_def)

lemma starting_later: "start_and_wait we s = (e, s') \<Longrightarrow> later s s'"
  using start_and_wait_frame [of we s] by (auto simp: later_def)

lemma StartService_later: "StartService we s = (e, s') \<Longrightarrow> later s s' \<and> (\<not> IsElevated we s \<longrightarrow> s' = s)"
  by (auto simp: StartService_def elim!: withService_cases split: if_splits dest: starting_later)

lemma StopService_later: "StopService we s = (e, s') \<Longrightarrow> later s s' \<and> (\<not> IsElevated we s \<longrightarrow> s' = s \<and> e \<noteq> None)"
  by (auto simp: StopService_def and_then_def wrap_def call_or_def elim!: withService_cases split: if_splits option.splits
      dest: waiting_later)

lemma RestartService_later:
  assumes "RestartService we s = (e, s')"
  shows "later s s' \<and> (\<not> IsElevated we s \<longrightarrow> s' = s)"
proof -
  obtain e1 s1 where 1: "StopService we s = (e1, s1)" by fastforce
  from StopService_later [OF 1] assms 1 show ?thesis
    by (cases e1) (auto simp: RestartService_def and_then_def dest!: StartService_later intro: later_trans)
qed

lemma report_le: "report e \<noteq> 2" by (simp add: report_def)

lemma writeTemp_files:
  assumes "writeTempAppConfig ev fe createTemp confPath level fs = (r, fs')" and "createTemp \<noteq> Inr []"
    and "\<And>tmp. createTemp = Inr tmp \<Longrightarrow> p \<noteq> tmp \<and> p \<noteq> tmp @ ''.tmp''"
  shows "fs' p = fs p \<and> (\<forall>tmp. r = Inr tmp \<longrightarrow> createTemp = Inr tmp)"
  using assms(1,2,3)
  by (auto simp: writeTempAppConfig_def Let_def Save_def split: sum.splits prod.splits bool.splits if_splits option.splits)

lemma run_manager_code: "run_manager env meanwhile log p w \<noteq> (2, mw)"
  by (simp add: run_manager_def split: prod.split option.split)

lemma cmdRun_usage:
  assumes "cmdRun env meanwhile io lw fe createTemp args fs w = (2, mw, fs')"
  shows "fs' = fs"
  using assms
  by (simp add: cmdRun_def Let_def report_def run_manager_code split: option.split_asm prod.split_asm if_split_asm sum.split_asm)

lemma cmdRun_files:
  assumes "cmdRun env meanwhile io lw fe createTemp args fs w = (code, mw, fs')" and "createTemp \<noteq> Inr []"
    and "\<And>tmp. createTemp = Inr tmp \<Longrightarrow> p \<noteq> tmp \<and> p \<noteq> tmp @ ''.tmp''"
  shows "fs' p = fs p"
proof -
  note temp = writeTemp_files [where p = p, OF _ assms(2) assms(3)]
  show ?thesis
    using assms(1,3)
    by (simp add: cmdRun_def Let_def split: option.split_asm prod.split_asm if_split_asm sum.split_asm)
      (use temp in fastforce)+
qed

text \<open>What a command without administrator rights, or a usage error, leaves alone.\<close>

definition refused_or_done :: "winenv \<Rightarrow> os \<Rightarrow> nat \<times> os \<Rightarrow> bool" where
  "refused_or_done we s r \<longleftrightarrow> (\<not> IsElevated we s \<longrightarrow> snd r = s) \<and> (fst r = 2 \<longrightarrow> snd r = s)"

lemma cmdInstall_refused: "refused_or_done we s (cmdInstall we args s)"
proof (cases "cmdInstall we args s")
  case (Pair code s')
  then show ?thesis
    by (auto simp: refused_or_done_def cmdInstall_def Install_def RequireElevation_def report_def Let_def split: option.splits if_splits prod.splits)
qed

lemma cmdUninstall_refused: "refused_or_done we s (cmdUninstall we args s)"
proof (cases "cmdUninstall we args s")
  case (Pair code s')
  then show ?thesis
    by (auto simp: refused_or_done_def cmdUninstall_def Uninstall_def RequireElevation_def report_def Let_def split: option.splits if_splits prod.splits)
qed

lemma Repair_refused: "refused_or_done we s (report (fst (RepairPermissions we s)), snd (RepairPermissions we s))"
  by (auto simp: refused_or_done_def RepairPermissions_def RequireElevation_def report_le split: option.splits)

lemma control_refused:
  "refused_or_done we s (report (fst (StartService we s)), snd (StartService we s))"
  "refused_or_done we s (report (fst (StopService we s)), snd (StopService we s))"
  "refused_or_done we s (report (fst (RestartService we s)), snd (RestartService we s))"
  using StartService_later [OF surjective_pairing] StopService_later [OF surjective_pairing] RestartService_later [OF surjective_pairing]
  by (simp_all add: refused_or_done_def report_le)

lemma control_later:
  "later s (snd (StartService we s))" "later s (snd (StopService we s))" "later s (snd (RestartService we s))"
  using StartService_later [OF surjective_pairing] StopService_later [OF surjective_pairing] RestartService_later [OF surjective_pairing]
  by blast+

lemma run_foreground_confined:
  assumes "run_foreground ce rest s = (code, s')" and "cm_createTemp ce \<noteq> Inr []"
  shows "(code = 2 \<longrightarrow> s' = s) \<and> s'\<lparr>os_files := os_files s\<rparr> = s \<and>
    (\<forall>p. (\<forall>tmp. cm_createTemp ce = Inr tmp \<longrightarrow> p \<noteq> tmp \<and> p \<noteq> tmp @ ''.tmp'') \<longrightarrow> os_files s' p = os_files s p)"
proof -
  obtain mw fs where c: "cmdRun (cm_env ce) (cm_meanwhile ce) (cm_io ce) (cm_log ce) (cm_fs ce) (cm_createTemp ce) rest (os_files s) (cm_world ce) =
      (code, mw, fs)" and s': "s' = s\<lparr>os_files := fs\<rparr>"
    using assms(1) by (auto simp: run_foreground_def split: prod.splits)
  have "code = 2 \<longrightarrow> fs = os_files s" using c cmdRun_usage by metis
  with cmdRun_files [OF c assms(2)] s' show ?thesis by simp
qed


text \<open>A command line without administrator rights.\<close>

definition demo_cmd :: "(nat, nat, nat, nat) cmd_env" where
  "demo_cmd =
     \<lparr>cm_win = demo_win\<lparr>we_elevated := False\<rparr>, cm_isService = Inr False, cm_call = (\<lambda>c. Inl RecvErr),
      cm_fmt = \<lparr>fm_fixed1 = (\<lambda>n d. []), fm_percent = (\<lambda>a b. []), fm_local = (\<lambda>t. []), fm_warning = (\<lambda>w. []), fm_now = 0\<rparr>,
      cm_peers = (\<lambda>t. []), cm_env = demo_menv ''std'' [], cm_svcRun = (\<lambda>f mw. (None, mw)), cm_ticks = 0, cm_requests = [],
      cm_meanwhile = id, cm_io = demo_io, cm_log = \<lparr>lw_files = fmempty, lw_console = []\<rparr>,
      cm_fs = \<lparr>fe_mkdir = True, fe_write = None, fe_rename = True\<rparr>, cm_createTemp = Inr ''t.json'', cm_world = 0\<rparr>"


section \<open>Running in the foreground\<close>

lemma run_manager_stopped:
  assumes "run_manager env meanwhile log p w = (code, m, w')" and "\<And>x. m_running (fst (meanwhile x)) = m_running (fst x)"
  shows "\<not> m_running m \<and> \<not> tunnel_running m"
proof (cases "Manager_Start env (NewManager log p, w)")
  case (fields e m1 w1)
  show ?thesis
  proof (cases e)
    case None
    obtain m2 w2 where m2: "meanwhile (m1, w1) = (m2, w2)" by fastforce
    have "m_running m2" using assms(2) [of "(m1, w1)"] m2 Start_running fields None by fastforce
    with Stop_stopped assms(1) fields None m2 show ?thesis by (fastforce simp: run_manager_def)
  next
    case (Some err)
    with Start_failed_stopped assms(1) fields show ?thesis by (fastforce simp: run_manager_def)
  qed
qed

text \<open>
  running in the foreground leaves nothing behind. However the start ends and whatever
  the goroutines of the service do until the interrupt, the manager is stopped and
  the tunnel down when the command returns; the throwaway settings are deleted again, and
  no other file has changed.
\<close>

theorem foreground_run_cleans_up:
  assumes "cmdRun env meanwhile io lw fe createTemp args fs w = (code, Some (m, w'), fs')"
    and "\<And>x. m_running (fst (meanwhile x)) = m_running (fst x)" and "createTemp \<noteq> Inr []"
  shows "\<not> m_running m \<and> \<not> tunnel_running m \<and>
    (case createTemp of
       Inl _ \<Rightarrow> fs' = fs
     | Inr tmp \<Rightarrow> fs' = fs \<or> fs' = (fs(tmp := None))(tmp @ ''.tmp'' := None))"
proof -
  obtain vals rest level log err lw' where p: "parse_flags [''config'' \<mapsto> StringFlag, ''app-config'' \<mapsto> StringFlag, ''log-level'' \<mapsto> StringFlag]
      args Map.empty = Some (vals, rest)"
    and l: "(if str_flag vals ''log-level'' = [] then Some LevelInfo else ParseLevel (str_flag vals ''log-level'')) = Some level"
    and n: "Logger_New io (service_log level True) lw = (err, log, lw')"
    using assms(1) by (cases "parse_flags [''config'' \<mapsto> StringFlag, ''app-config'' \<mapsto> StringFlag, ''log-level'' \<mapsto> StringFlag] args Map.empty")
      (auto simp: cmdRun_def Let_def split: option.splits prod.splits)
  show ?thesis
  proof (cases "str_flag vals ''config'' = []")
    case True
    with assms(1) p l n have r: "run_manager (reading fs env) meanwhile log (str_flag vals ''app-config'') w = (code, m, w')" and "fs' = fs"
      by (auto simp: cmdRun_def Let_def split: prod.splits)
    with run_manager_stopped [OF r assms(2)] show ?thesis by (simp split: sum.split)
  next
    case False
    with assms(1) p l n obtain tmp fs1 where
        t: "writeTempAppConfig (me_app env) fe createTemp (str_flag vals ''config'') (str_flag vals ''log-level'') fs = (Inr tmp, fs1)"
      and r: "run_manager (reading fs1 env) meanwhile log tmp w = (code, m, w')" and f: "fs' = fs1(tmp := None)"
      by (auto simp: cmdRun_def Let_def split: prod.splits sum.splits)
    from t have "createTemp = Inr tmp" "tmp \<noteq> [] \<Longrightarrow> fs1(tmp := None) = (fs(tmp := None))(tmp @ ''.tmp'' := None)"
      by (auto simp: writeTempAppConfig_def Let_def Save_def split: sum.splits prod.splits bool.splits if_splits option.splits)
    with run_manager_stopped [OF r assms(2)] f assms(3) show ?thesis by auto
  qed
qed

theorem foreground_run_cleans_up_witness:
  "\<exists>code m w'. cmdRun (demo_menv ''std'' []) id demo_io \<lparr>lw_files = fmempty, lw_console = []\<rparr> \<lparr>fe_mkdir = True, fe_write = None, fe_rename = True\<rparr>
      (Inr ''t.json'') [''--app-config'', ''j''] [''j'' \<mapsto> [], ''c.conf'' \<mapsto> bytes_of_string demo_text] 0 =
      (code, Some (m, w'), [''j'' \<mapsto> [], ''c.conf'' \<mapsto> bytes_of_string demo_text]) \<and> \<not> tunnel_running m"
proof -
  let ?fs = "[''j'' \<mapsto> [], ''c.conf'' \<mapsto> bytes_of_string demo_text]"
  let ?run = "cmdRun (demo_menv ''std'' []) id demo_io \<lparr>lw_files = fmempty, lw_console = []\<rparr> \<lparr>fe_mkdir = True, fe_write = None, fe_rename = True\<rparr>
      (Inr ''t.json'') [''--app-config'', ''j''] ?fs 0"
  have "parse_flags [''config'' \<mapsto> StringFlag, ''app-config'' \<mapsto> StringFlag, ''log-level'' \<mapsto> StringFlag] [''--app-config'', ''j''] Map.empty =
      Some ([''app-config'' \<mapsto> ''j''], [])" by simp
  moreover obtain x log y where "Logger_New demo_io (service_log LevelInfo True) \<lparr>lw_files = fmempty, lw_console = []\<rparr> = (x, log, y)"
    using prod_cases3 by blast
  moreover obtain code m w' where "run_manager (reading ?fs (demo_menv ''std'' [])) id log ''j'' 0 = (code, m, w')" using prod_cases3 by blast
  ultimately have r: "?run = (code, Some (m, w'), ?fs)" by (simp add: cmdRun_def str_flag_def)
  from foreground_run_cleans_up [OF r] r show ?thesis by auto
qed

section \<open>From the command line to the manager\<close>

text \<open>
  C30: the exit code of a reload tells the truth, from the command line through the
  pipe to the manager. With a codec that carries the messages, \<open>awgsocks reload\<close>
  exits with 0 exactly when the manager applied the new configuration and answered within
  the minute the pipe allows, and prints the manager's account of it.
\<close>

theorem reload_exit_code:
  assumes "carries (jc_MarshalRequest cd) (jc_UnmarshalRequest cd) \<lparr>rq_Command = CmdReload\<rparr>"
    and "carries (jc_MarshalResponse cd) (jc_UnmarshalResponse cd)
      (fst (dispatch quote (managerHandler env Error q gv) \<lparr>rq_Command = CmdReload\<rparr> (m, w)))"
    and "cmdPipe (Call cd Dialed None (\<lambda>sent. fst (serve cd quote (managerHandler env Error q gv) took sent (m, w)))) CmdReload =
      (code, out, errs)"
  shows "case fst (Reload env (m, w)) of
      Inl e \<Rightarrow> code = 1 \<and> out = []
    | Inr msg \<Rightarrow>
        if took \<lparr>rq_Command = CmdReload\<rparr> < requestTimeout then code = 0 \<and> out = [if msg = [] then ''configuration reloaded'' else msg]
        else code = 1 \<and> out = []"
proof -
  let ?h = "managerHandler env Error q gv"
  obtain resp mw' where d: "dispatch quote ?h \<lparr>rq_Command = CmdReload\<rparr> (m, w) = (resp, mw')" by (cases "dispatch quote ?h \<lparr>rq_Command = CmdReload\<rparr> (m, w)")
  obtain r mw1 where r: "Reload env (m, w) = (r, mw1)" by (cases "Reload env (m, w)")
  have "Call cd Dialed None (\<lambda>sent. fst (serve cd quote ?h took sent (m, w))) CmdReload =
      (if took \<lparr>rq_Command = CmdReload\<rparr> < requestTimeout then Inr resp else Inl RecvErr)"
    using call_response [OF assms(1) d] assms(2) d by simp
  with assms(3) have c: "(code, out, errs) = (if took \<lparr>rq_Command = CmdReload\<rparr> < requestTimeout then
        (if \<not> rp_OK resp then (1, [], [''Error: '' @ rp_Error resp]) else (0, if rp_Message resp \<noteq> [] then [rp_Message resp] else [], []))
      else (1, [], [''Error: '' @ call_err_Error RecvErr]))"
    by (simp add: cmdPipe_def split: if_splits)
  from d r have "resp = (case r of Inl e \<Rightarrow> failed (Error e) | Inr msg \<Rightarrow> okMessage (if msg = [] then ''configuration reloaded'' else msg))"
    by (cases r) (auto simp: dispatch_def managerHandler_def cmd_defs Let_def)
  with c r show ?thesis by (cases r) (auto simp: failed_def okMessage_def split: if_splits)
qed

theorem reload_exit_code_witness:
  "fst (cmdPipe (Call demo_codec Dialed None
     (\<lambda>sent. fst (serve demo_codec id demo_handler (\<lambda>_. 1000) sent (NewManager demo_log ''j'', 0)))) CmdReload) = 1"
proof -
  let ?m = "(NewManager demo_log ''j'', 0) :: (nat, nat) mgr \<times> nat" and ?env = "demo_menv ''std'' []"
  have r: "Reload ?env ?m = (Inl ServiceNotRunning, ?m)" by (simp add: Reload_def Manager_Reload_def NewManager_def)
  have d: "dispatch id demo_handler \<lparr>rq_Command = CmdReload\<rparr> ?m = (failed ''no'', ?m)"
    by (simp add: dispatch_def demo_handler_def managerHandler_def r cmd_defs)
  have c: "carries (jc_MarshalRequest demo_codec) (jc_UnmarshalRequest demo_codec) \<lparr>rq_Command = CmdReload\<rparr>"
    "carries (jc_MarshalResponse demo_codec) (jc_UnmarshalResponse demo_codec) (failed ''no'')"
    by (simp_all add: carries_def demo_codec_def cmd_defs failed_def)
  obtain code out errs where p: "cmdPipe (Call demo_codec Dialed None
      (\<lambda>sent. fst (serve demo_codec id demo_handler (\<lambda>_. 1000) sent ?m))) CmdReload = (code, out, errs)" using prod_cases3 by blast
  from reload_exit_code [OF c(1) _ p [unfolded demo_handler_def]] c(2) d r p show ?thesis by (simp add: demo_handler_def)
qed

end
