(* ===== verification/Cmd_Console.thy ===== *)
theory Cmd_Console
  imports Cmd_Main
begin

text \<open>
  What the program says when it is started without a command (\<open>usage\<close>, \<open>doubleClickHelp\<close> and
  \<open>waitForEnter\<close> of \<open>cmd/awgsocks/main.go\<close>, \<open>OwnsConsole\<close> of \<open>winsys/console_windows.go\<close>), and
  that what it says of its commands is true.
\<close>

section \<open>Texts\<close>

definition usage_lines :: "string list" where
  "usage_lines =
     [''AWGSocks '' @ Version @ '' - an AmneziaWG userspace tunnel exposed as a local SOCKS5 proxy'',
      [],
      ''Usage:'',
      ''  awgsocks <command> [options]'',
      [],
      ''Commands:'',
      ''  version                      Print the version and the pinned upstream identities'',
      ''  check --config <file>        Validate a configuration (dry run, sends no packets)'',
      ''  install --config <file>      Install the Windows service'',
      ''  uninstall [--purge | --keep-settings]'',
      ''                               Remove the Windows service'',
      ''  start | stop | restart       Control the service'',
      ''  status [--json]              Show service, tunnel and SOCKS5 state'',
      ''  reload                       Reload the configuration without dropping a healthy tunnel'',
      ''  reconnect                    Force a fresh AmneziaWG handshake'',
      ''  repair                       Put the file permissions back as installed'',
      ''  run [--config <file>]        Run in the foreground, for debugging'',
      [],
      ''install options:'',
      ''  --config <file>              AmneziaWG .conf file (required)'',
      ''  --in-place                   Use the file where it is instead of copying it to ProgramData'',
      ''  --socks <address>            SOCKS5 listen address (default '' @ DefaultSocksListen @ '')'',
      ''  --log-level <level>          debug|info|warn|error (default '' @ DefaultLogLevel @ '')'',
      ''  --no-autostart               Do not bring the tunnel up when the service starts'',
      ''  --start                      Start the service once it is installed'',
      [],
      ''Notes:'',
      ''  - SOCKS5 binds a loopback address only and uses no authentication.'',
      ''  - The Windows default route, gateway, system DNS and system proxy settings are'',
      ''    never modified. This is not a system wide VPN.'',
      ''  - install, uninstall, start, stop, restart, status, reload, reconnect and'',
      ''    repair all require Administrator privileges.'',
      ''  - install keeps the settings in an existing config.json and only points it at'',
      ''    the new .conf, so uninstall --keep-settings followed by install is a reinstall.'',
      ''  - install copies awgsocks.exe and these scripts to C:'' @ [CHR 0x5C] @ ''Program Files'' @ [CHR 0x5C] @ ''AWGSocks,'',
      ''    and the service runs from there as NT SERVICE'' @ [CHR 0x5C] @ ''AWGSocks, not LocalSystem.'',
      ''  - Use repair if Explorer was allowed to '' @ [CHR 0x22] @ ''grant permanent access'' @ [CHR 0x22] @ '' to'',
      ''    C:'' @ [CHR 0x5C] @ ''ProgramData'' @ [CHR 0x5C] @ ''AWGSocks. That hands the interactive user Full control of'',
      ''    the directory holding your private key, which repair undoes.'',
      []]"

definition usage :: string where
  "usage = concat (map (\<lambda>l. l @ ''\<newline>'') usage_lines)"

definition selfInvocation :: string where
  "selfInvocation = ''.'' @ [CHR 0x5C] @ ''awgsocks.exe''"

definition doubleClickHelp :: string where
  "doubleClickHelp =
     ''awgsocks.exe: This is a command line program, so double clicking it does nothing on its own.\<newline>\<newline>''
     @ ''To drive it by hand, open an Administrator prompt in this folder\<newline>and run:\<newline>\<newline>  '' @ selfInvocation @ '' --help\<newline>\<newline>''"

section \<open>The console\<close>

text \<open>The argument is what \<open>GetConsoleProcessList\<close> answers: the number of attached processes, zero for a failure.\<close>

definition OwnsConsole :: "nat \<Rightarrow> bool" where
  "OwnsConsole n \<longleftrightarrow> n = 1"

text \<open>Standard input, read one byte at a time: a byte, nothing, or an error.\<close>

datatype read1 = Got byte | GotNothing | ReadFailed

text \<open>\<open>waitForEnter\<close> returns what it has left unread.\<close>

fun waitForEnter :: "read1 list \<Rightarrow> read1 list" where
  "waitForEnter [] = []"
| "waitForEnter (r # rs) =
     (case r of
        ReadFailed \<Rightarrow> rs
      | GotNothing \<Rightarrow> rs
      | Got b \<Rightarrow> if b = 10 then rs else waitForEnter rs)"

text \<open>The branch of \<open>run\<close> without arguments: the exit code, what is printed, and what is left of the input.\<close>

definition run_bare :: "nat \<Rightarrow> read1 list \<Rightarrow> nat \<times> string \<times> read1 list" where
  "run_bare attached stdin =
     (if OwnsConsole attached then (0, doubleClickHelp, waitForEnter stdin) else (0, usage, stdin))"

text \<open>It waits for exactly one line, and not at all when there is nothing to read.\<close>

lemma waitForEnter_line:
  assumes "10 \<notin> set bs"
  shows "waitForEnter (map Got bs @ Got 10 # rs) = rs" and "waitForEnter (map Got bs @ ReadFailed # rs) = rs"
  using assms by (induction bs) auto

section \<open>What the help says is true\<close>

definition commands :: "string list" where
  "commands = [''version'', ''check'', ''install'', ''uninstall'', ''start'', ''stop'', ''restart'', ''status'',
     ''reload'', ''reconnect'', ''repair'', ''run'']"

lemma commands_in_usage:
  "list_all (\<lambda>c. list_ex (\<lambda>l. HasPrefix l (''  '' @ c @ '' '')) usage_lines)
     [''version'', ''check'', ''install'', ''uninstall'', ''start | stop | restart'', ''status'', ''reload'', ''reconnect'', ''repair'', ''run'']"
  by code_simp

text \<open>
  Anything that is not a command of the help (but for the aliases of help and version, and
  \<open>service\<close>, which the service control manager uses) is refused without doing anything.
\<close>

lemma unknown_command:
  assumes "\<not> IsWindowsService (cm_isService ce)"
    and "cmd \<notin> set (commands @ [''-h'', ''--help'', ''help'', ''--version'', ''-v'', ''service''])"
  shows "run ce (cmd # rest) s = (2, s)"
  using assms by (simp add: run_def commands_def Let_def)

lemma not_elevated:
  assumes "\<not> IsElevated we s"
  shows "\<exists>e. StartService we s = (Some e, s)" and "\<exists>e. StopService we s = (Some e, s)"
    and "\<exists>e. RestartService we s = (Some e, s)" and "\<exists>e. RepairPermissions we s = (Some e, s)"
  using assms
  by (auto simp: StartService_def StopService_def RestartService_def RepairPermissions_def withService_def RequireElevation_def
      and_then_def)

text \<open>The commands of the help that act on the machine fail without administrator rights.\<close>

lemma admin_commands:
  assumes "\<not> IsWindowsService (cm_isService ce)" and "\<not> IsElevated (cm_win ce) s"
  shows "run ce (''start'' # rest) s = (1, s)" and "run ce (''stop'' # rest) s = (1, s)"
    and "run ce (''restart'' # rest) s = (1, s)" and "run ce (''repair'' # rest) s = (1, s)"
  using assms(1) not_elevated [OF assms(2)] by (auto simp: run_def Let_def report_def)

end
