(* ===== verification/Service_Watch.thy ===== *)
theory Service_Watch
  imports Service_Races
begin

text \<open>
  Network changes: the watcher of Windows address notifications
  (\<open>internal/winsys/netchange_windows.go\<close>) and the loop of the manager that answers them
  (\<open>startNetworkWatcher\<close> in \<open>internal/service/manager.go\<close>).

  Registering with the IP Helper library is a parameter: finding the procedure and the
  code its call returns. Times are nanoseconds.
\<close>

section \<open>The watcher\<close>

text \<open>
  The channel holds at most one token. The callback reaches it through the package variable
  \<open>watcherCh\<close>, which is this watcher's channel or nil.
\<close>

record NetworkWatcher =
  nw_handle :: nat
  nw_started :: bool
  nw_token :: bool
  nw_watcherCh :: bool

definition NewNetworkWatcher :: NetworkWatcher where
  "NewNetworkWatcher = \<lparr>nw_handle = 0, nw_started = False, nw_token = False, nw_watcherCh = False\<rparr>"

definition Watcher_Start :: "goerr option \<Rightarrow> (goerr + nat) \<Rightarrow> NetworkWatcher \<Rightarrow> goerr option \<times> NetworkWatcher" where
  "Watcher_Start found notify w =
     (if nw_started w then (None, w)
      else (case found of
          Some e \<Rightarrow> (Some e, w)
        | None \<Rightarrow>
            (let w1 = w\<lparr>nw_watcherCh := True\<rparr> in
             case notify of
               Inl e \<Rightarrow> (Some e, w1)
             | Inr hnd \<Rightarrow> (None, w1\<lparr>nw_handle := hnd, nw_started := True\<rparr>))))"

definition watch_callback :: "NetworkWatcher \<Rightarrow> NetworkWatcher" where
  "watch_callback w = (if nw_watcherCh w then w\<lparr>nw_token := True\<rparr> else w)"

definition Watcher_Stop :: "NetworkWatcher \<Rightarrow> NetworkWatcher" where
  "Watcher_Stop w =
     (if \<not> nw_started w then w else w\<lparr>nw_started := False, nw_handle := 0, nw_watcherCh := False\<rparr>)"

section \<open>The loop\<close>

definition networkChangeDebounce :: int where "networkChangeDebounce = 2000000000"

text \<open>The goroutine: when the timer behind \<open>timerC\<close> fires, if it is set, and whether it returned.\<close>

record loop =
  lp_timerC :: "int option"
  lp_done :: bool

definition startNetworkWatcher ::
  "goerr option \<Rightarrow> (goerr + nat) \<Rightarrow> ('d, 'n) mgr \<Rightarrow> ('d, 'n) mgr \<times> (NetworkWatcher \<times> loop) option" where
  "startNetworkWatcher found notify m =
     (case Watcher_Start found notify NewNetworkWatcher of
        (Some e, _) \<Rightarrow> (m, None)
      | (None, w) \<Rightarrow> (m\<lparr>m_watcher := True\<rparr>, Some (w, \<lparr>lp_timerC = None, lp_done = False\<rparr>)))"

text \<open>The three cases of its \<open>select\<close>.\<close>

definition loop_quit :: "loop \<Rightarrow> loop" where
  "loop_quit lp = lp\<lparr>lp_timerC := None, lp_done := True\<rparr>"

definition loop_event ::
  "('w, 'd, 'n, 'p) menv \<Rightarrow> int \<Rightarrow> NetworkWatcher \<times> loop \<times> ('d, 'n) mgr \<times> 'w \<Rightarrow> NetworkWatcher \<times> loop \<times> ('d, 'n) mgr \<times> 'w" where
  "loop_event env now x =
     (case x of (w, lp, mw) \<Rightarrow>
        (w\<lparr>nw_token := False\<rparr>, lp\<lparr>lp_timerC := Some (now + networkChangeDebounce)\<rparr>, networkChanged env mw))"

definition loop_settled ::
  "('w, 'd, 'n, 'p) menv \<Rightarrow> NetworkWatcher \<times> loop \<times> ('d, 'n) mgr \<times> 'w \<Rightarrow> NetworkWatcher \<times> loop \<times> ('d, 'n) mgr \<times> 'w" where
  "loop_settled env x = (case x of (w, lp, mw) \<Rightarrow> (w, lp\<lparr>lp_timerC := None\<rparr>, networkSettled env mw))"

section \<open>Runs\<close>

text \<open>
  What happened, latest first: a notification, the conflict check that answers one, the
  end of a burst.
\<close>

datatype happening = Notified int | Checked int | Settled int

type_synonym ('w, 'd, 'n) watching = "int \<times> happening list \<times> NetworkWatcher \<times> loop \<times> ('d, 'n) mgr \<times> 'w"

text \<open>
  One thing at a time, at a time that never goes back: Windows calls back, a case of the
  \<open>select\<close> is taken, or the service does something else.
\<close>

inductive watch_step ::
  "('w, 'd, 'n, 'p) upstream \<Rightarrow> ('w, 'd, 'n) watching \<Rightarrow> ('w, 'd, 'n) watching \<Rightarrow> bool"
  for up :: "('w, 'd, 'n, 'p) upstream" where
  notify: "now \<le> t \<Longrightarrow> watch_step up (now, tr, w, lp, mw) (t, Notified t # tr, watch_callback w, lp, mw)"
| event: "now \<le> t \<Longrightarrow> me_up env = up \<Longrightarrow> \<not> lp_done lp \<Longrightarrow> nw_token w \<Longrightarrow>
     loop_event env t (w, lp, mw) = (w', lp', mw') \<Longrightarrow>
     watch_step up (now, tr, w, lp, mw) (t, Checked t # tr, w', lp', mw')"
| settled: "now \<le> t \<Longrightarrow> me_up env = up \<Longrightarrow> \<not> lp_done lp \<Longrightarrow> lp_timerC lp = Some due \<Longrightarrow> due \<le> t \<Longrightarrow>
     loop_settled env (w, lp, mw) = (w', lp', mw') \<Longrightarrow>
     watch_step up (now, tr, w, lp, mw) (t, Settled t # tr, w', lp', mw')"
| elsewhere: "now \<le> t \<Longrightarrow> mstep up mw mw' \<Longrightarrow> watch_step up (now, tr, w, lp, mw) (t, tr, w, lp, mw')"

definition watch_init :: "('w, 'd, 'n) watching \<Rightarrow> bool" where
  "watch_init x \<longleftrightarrow>
     (case x of (now, tr, w, lp, m, st) \<Rightarrow>
        tr = [] \<and> (\<exists>h m0. startNetworkWatcher None (Inr h) m0 = (m, Some (w, lp))) \<and> mgr_inv m)"

text \<open>A notification no check has answered yet, and a check no end of a burst has followed.\<close>

fun unanswered :: "happening list \<Rightarrow> bool" where
  "unanswered [] = False"
| "unanswered (Notified t # tr) = True"
| "unanswered (Checked t # tr) = False"
| "unanswered (Settled t # tr) = unanswered tr"

fun last_check :: "happening list \<Rightarrow> int option" where
  "last_check [] = None"
| "last_check (Checked t # tr) = Some t"
| "last_check (Settled t # tr) = None"
| "last_check (Notified t # tr) = last_check tr"

text \<open>Every end of a burst follows a check, two seconds or more after the last one.\<close>

fun spaced :: "happening list \<Rightarrow> bool" where
  "spaced [] = True"
| "spaced (Settled t # tr) \<longleftrightarrow> (case last_check tr of None \<Rightarrow> False | Some c \<Rightarrow> c + networkChangeDebounce \<le> t) \<and> spaced tr"
| "spaced (_ # tr) \<longleftrightarrow> spaced tr"

definition watch_inv :: "('w, 'd, 'n) watching \<Rightarrow> bool" where
  "watch_inv x \<longleftrightarrow>
     (case x of (now, tr, w, lp, m, st) \<Rightarrow>
        nw_watcherCh w \<and> \<not> lp_done lp \<and> (nw_token w \<longleftrightarrow> unanswered tr) \<and>
        lp_timerC lp = map_option (\<lambda>c. c + networkChangeDebounce) (last_check tr) \<and> spaced tr \<and> mgr_inv m)"

lemma watch_inv_init: "watch_init x \<Longrightarrow> watch_inv x"
  by (auto simp: watch_init_def watch_inv_def startNetworkWatcher_def Watcher_Start_def NewNetworkWatcher_def split: prod.splits)

lemma watch_inv_step: "watch_step up x y \<Longrightarrow> watch_inv x \<Longrightarrow> watch_inv y"
proof (induction rule: watch_step.induct)
  case (notify now t tr w lp mw)
  then show ?case by (auto simp: watch_inv_def watch_callback_def split: prod.splits)
next
  case (event now t env lp w mw w' lp' mw' tr)
  then have "background up mw mw'" by (cases mw; cases mw') (auto simp: loop_event_def intro: background.changed)
  from background_inv [OF this] event show ?case by (auto simp: watch_inv_def loop_event_def split: prod.splits)
next
  case (settled now t env lp due w mw w' lp' mw' tr)
  then have "background up mw mw'" by (cases mw; cases mw') (auto simp: loop_settled_def intro: background.settled)
  from background_inv [OF this] settled show ?case
    by (cases "last_check tr") (auto simp: watch_inv_def loop_settled_def split: prod.splits)
next
  case (elsewhere now t mw mw' tr w lp)
  from mstep_inv [OF elsewhere(2)] elsewhere show ?case by (auto simp: watch_inv_def split: prod.splits)
qed

interpretation nwt: invariant watch_init "watch_step up" watch_inv for up :: "('w, 'd, 'n, 'p) upstream"
  by unfold_locales (auto intro: watch_inv_init watch_inv_step)

text \<open>
  C25: no address notification is lost and no burst is answered early. In every reachable
  state of the watcher and the manager, a notification that no conflict check has answered
  has its token waiting; a check that no end of a burst has followed has the timer set, two
  seconds after the latest one; and the end of a burst, which may reconnect the tunnel,
  only ever came two seconds or more after the latest check. The manager's invariant holds
  throughout.
\<close>

theorem notifications_are_answered:
  assumes "reachable watch_init (watch_step up) (now, tr, w, lp, m, st)"
  shows "(unanswered tr \<longleftrightarrow> nw_token w) \<and>
    (case last_check tr of None \<Rightarrow> lp_timerC lp = None | Some c \<Rightarrow> lp_timerC lp = Some (c + networkChangeDebounce)) \<and>
    spaced tr \<and> mgr_inv m"
  using nwt.reachable_inv [OF assms] by (auto simp: watch_inv_def split: option.split)

theorem notifications_are_answered_witness:
  "\<exists>w lp m st. reachable watch_init (watch_step demo_up) (2000000005, [Settled 2000000005, Checked 5, Notified 3], w, lp, m, st) \<and>
     \<not> nw_token w \<and> lp_timerC lp = None \<and> mgr_inv m"
proof -
  let ?m = "(NewManager demo_log ''j'')\<lparr>m_watcher := True\<rparr> :: (nat, nat) mgr"
  let ?w = "\<lparr>nw_handle = 7, nw_started = True, nw_token = False, nw_watcherCh = True\<rparr>"
  let ?lp = "\<lparr>lp_timerC = None, lp_done = False\<rparr>"
  let ?env = "demo_menv ''std'' []"
  have "mgr_inv ?m" using mgr_inv_New by (simp add: mgr_inv_def tun_part_def retry_part_def NewManager_def)
  then have "watch_init (0, [], ?w, ?lp, ?m, 0)"
    by (auto simp: watch_init_def startNetworkWatcher_def Watcher_Start_def NewNetworkWatcher_def
        intro!: exI [of _ 7] exI [of _ "NewManager demo_log ''j''"])
  then have "reachable watch_init (watch_step demo_up) (0, [], ?w, ?lp, ?m, 0)" by (rule reachable.base)
  from reachable.more [where step = "watch_step demo_up", OF this watch_step.notify [of 0 3]]
  have r3: "reachable watch_init (watch_step demo_up) (3, [Notified 3], ?w\<lparr>nw_token := True\<rparr>, ?lp, ?m, 0)"
    by (simp add: watch_callback_def)
  have "watch_step demo_up (3, [Notified 3], ?w\<lparr>nw_token := True\<rparr>, ?lp, ?m, 0)
      (5, [Checked 5, Notified 3], ?w, ?lp\<lparr>lp_timerC := Some 2000000005\<rparr>, networkChanged ?env (?m, 0))"
    by (rule watch_step.event [where env = ?env]) (simp_all add: loop_event_def networkChangeDebounce_def demo_menv_def)
  note r5 = reachable.more [where step = "watch_step demo_up", OF r3 this]
  have "watch_step demo_up (5, [Checked 5, Notified 3], ?w, ?lp\<lparr>lp_timerC := Some 2000000005\<rparr>, networkChanged ?env (?m, 0))
      (2000000005, [Settled 2000000005, Checked 5, Notified 3], ?w, ?lp, networkSettled ?env (networkChanged ?env (?m, 0)))"
    by (rule watch_step.settled [where env = ?env and due = 2000000005]) (simp_all add: loop_settled_def demo_menv_def)
  note r = reachable.more [where step = "watch_step demo_up", OF r5 this]
  obtain m st where e: "networkSettled ?env (networkChanged ?env (?m, 0)) = (m, st)" by fastforce
  from notifications_are_answered [OF r [unfolded e]] r [unfolded e] show ?thesis
    by (intro exI [of _ ?w] exI [of _ ?lp] exI [of _ m] exI [of _ st]) auto
qed

end
