(* ===== verification/Netstack_Batch.thy ===== *)
theory Netstack_Batch
  imports Awg_Errors Go_Strings "HOL-Library.Multiset"
begin

text \<open>
  The batching adapter between the network stack and the device
  (\<open>internal/awg/netstack.go\<close>): a goroutine reads packets ahead into a fixed set of
  buffers, and \<open>Read\<close> serves the device from a bounded queue.

  A buffer is a number, and the queue holds each filled buffer with the packet in it.
  The wrapped device is outside: what its \<open>Read\<close> returns is an input of the steps.
\<close>

section \<open>The adapter\<close>

type_synonym packet = "byte list"

datatype NetstackMode = NetstackUpstream | NetstackBuffered | NetstackBatched | NetstackBatchedBuffered | UnknownMode string

text \<open>
  The goroutine of \<open>readLoop\<close>: waiting for a free buffer, inside the wrapped device, with a
  packet to queue and the error that came with it, or returned (with the buffer and the
  packet it dropped when it gave up on a send).
\<close>

datatype reader = Waiting | Reading nat | Sending nat packet "goerr option" | Returned "(nat \<times> packet) option"

record batchTun =
  bt_batch :: nat
  bt_depth :: nat
  bt_queue :: "(nat \<times> packet) list"
  bt_free :: "nat list"
  bt_readErr :: "goerr option"
  bt_done :: bool
  bt_reader :: reader

definition netstackBatchSize :: int where "netstackBatchSize = 128"

definition newBatchTun :: "int \<Rightarrow> int \<Rightarrow> batchTun" where
  "newBatchTun batch0 depth0 =
     (let batch = (if batch0 < 1 then 1 else batch0);
          depth = (if depth0 < batch then batch else depth0)
      in \<lparr>bt_batch = nat batch, bt_depth = nat depth, bt_queue = [], bt_free = [0..<nat depth], bt_readErr = None,
          bt_done = False, bt_reader = Waiting\<rparr>)"

text \<open>No adapter at all for the upstream mode and for any mode it does not know.\<close>

definition wrapNetstackTUN :: "NetstackMode \<Rightarrow> batchTun option" where
  "wrapNetstackTUN mode =
     (case mode of
        NetstackBuffered \<Rightarrow> Some (newBatchTun 1 256)
      | NetstackBatched \<Rightarrow> Some (newBatchTun netstackBatchSize netstackBatchSize)
      | NetstackBatchedBuffered \<Rightarrow> Some (newBatchTun netstackBatchSize 512)
      | _ \<Rightarrow> None)"

definition readError :: "batchTun \<Rightarrow> goerr" where
  "readError t = (case bt_readErr t of Some e \<Rightarrow> e | None \<Rightarrow> errors_New ''file already closed'')"

definition queue_closed :: "batchTun \<Rightarrow> bool" where
  "queue_closed t = (case bt_reader t of Returned _ \<Rightarrow> True | _ \<Rightarrow> False)"

section \<open>The reader goroutine\<close>

text \<open>Taking a buffer, or leaving because the adapter is closed.\<close>

definition reader_take :: "batchTun \<Rightarrow> batchTun option" where
  "reader_take t =
     (case (bt_reader t, bt_free t) of
        (Waiting, b # bs) \<Rightarrow> Some (t\<lparr>bt_reader := Reading b, bt_free := bs\<rparr>)
      | _ \<Rightarrow> None)"

definition reader_quit :: "batchTun \<Rightarrow> batchTun option" where
  "reader_quit t =
     (if \<not> bt_done t then None
      else (case bt_reader t of
          Waiting \<Rightarrow> Some (t\<lparr>bt_reader := Returned None\<rparr>)
        | Sending b p e \<Rightarrow> Some (t\<lparr>bt_reader := Returned (Some (b, p))\<rparr>)
        | _ \<Rightarrow> None))"

text \<open>After an iteration: an error ends the loop.\<close>

definition reader_next :: "goerr option \<Rightarrow> batchTun \<Rightarrow> batchTun" where
  "reader_next e t =
     (case e of
        None \<Rightarrow> t\<lparr>bt_reader := Waiting\<rparr>
      | Some err \<Rightarrow> t\<lparr>bt_readErr := Some err, bt_reader := Returned None\<rparr>)"

text \<open>The wrapped device returned \<open>count\<close>, a packet (empty for size zero) and an error.\<close>

definition reader_got :: "nat \<Rightarrow> packet \<Rightarrow> goerr option \<Rightarrow> batchTun \<Rightarrow> batchTun option" where
  "reader_got cnt p e t =
     (case bt_reader t of
        Reading b \<Rightarrow>
          Some (if cnt > 0 \<and> p \<noteq> [] then t\<lparr>bt_reader := Sending b p e\<rparr>
                else reader_next e (t\<lparr>bt_free := bt_free t @ [b]\<rparr>))
      | _ \<Rightarrow> None)"

definition reader_send :: "batchTun \<Rightarrow> batchTun option" where
  "reader_send t =
     (case bt_reader t of
        Sending b p e \<Rightarrow>
          if length (bt_queue t) < bt_depth t then Some (reader_next e (t\<lparr>bt_queue := bt_queue t @ [(b, p)]\<rparr>)) else None
      | _ \<Rightarrow> None)"

section \<open>Reading\<close>

text \<open>
  Copying a packet into the device's buffer. \<open>None\<close> is the panic of slicing a buffer
  past its end.
\<close>

definition deliver ::
  "packet list \<Rightarrow> nat list \<Rightarrow> nat \<Rightarrow> nat \<Rightarrow> packet \<Rightarrow> (goerr option \<times> packet list \<times> nat list) option" where
  "deliver bufs sizes offset i p =
     (if offset > length (bufs ! i) then None
      else if length (bufs ! i) - offset < length p
      then Some (Some (errors_New (''a '' @ dec (length p) @ '' byte packet from the network stack does not fit the '' @
             dec (length (bufs ! i) - offset) @ '' byte device buffer'')), bufs, sizes)
      else Some (None, bufs[i := take offset (bufs ! i) @ p @ drop (offset + length p) (bufs ! i)], sizes[i := length p]))"

text \<open>The packets that are there already, from index \<open>n\<close> on; the queue is not waited for.\<close>

fun read_more ::
  "nat \<Rightarrow> nat \<Rightarrow> nat \<Rightarrow> packet list \<Rightarrow> nat list \<Rightarrow> batchTun \<Rightarrow> (nat \<times> goerr option \<times> packet list \<times> nat list \<times> batchTun) option" where
  "read_more 0 n offset bufs sizes t = Some (n, None, bufs, sizes, t)"
| "read_more (Suc k) n offset bufs sizes t =
     (case bt_queue t of
        [] \<Rightarrow> Some (n, None, bufs, sizes, t)
      | (b, p) # q \<Rightarrow>
          (let t1 = t\<lparr>bt_queue := q, bt_free := bt_free t @ [b]\<rparr> in
           case deliver bufs sizes offset n p of
             None \<Rightarrow> None
           | Some (Some e, bufs1, sizes1) \<Rightarrow> Some (n, Some e, bufs1, sizes1, t1)
           | Some (None, bufs1, sizes1) \<Rightarrow> read_more k (n + 1) offset bufs1 sizes1 t1))"

datatype read_result = Blocked | Panic | Done nat "goerr option" "packet list" "nat list" batchTun

definition Read :: "packet list \<Rightarrow> nat list \<Rightarrow> nat \<Rightarrow> batchTun \<Rightarrow> read_result" where
  "Read bufs sizes offset t =
     (let limit = min (length bufs) (min (length sizes) (bt_batch t)) in
      if limit < 1 then Done 0 None bufs sizes t
      else if bt_queue t = [] then (if queue_closed t then Done 0 (Some (readError t)) bufs sizes t else Blocked)
      else (case read_more limit 0 offset bufs sizes t of
          None \<Rightarrow> Panic
        | Some (n, e, bufs1, sizes1, t1) \<Rightarrow> Done n e bufs1 sizes1 t1))"

definition BatchSize :: "batchTun \<Rightarrow> nat" where
  "BatchSize t = bt_batch t"

definition Close_begin :: "batchTun \<Rightarrow> batchTun" where
  "Close_begin t = t\<lparr>bt_done := True\<rparr>"

section \<open>Order and buffers\<close>

text \<open>The adapter with the packets that came in and those that reads have taken off the queue.\<close>

type_synonym bsys = "batchTun \<times> packet list \<times> packet list"

inductive bstep :: "bsys \<Rightarrow> bsys \<Rightarrow> bool" where
  take: "reader_take t = Some t' \<Longrightarrow> bstep (t, i, d) (t', i, d)"
| quit: "reader_quit t = Some t' \<Longrightarrow> bstep (t, i, d) (t', i, d)"
| got: "reader_got cnt p e t = Some t' \<Longrightarrow> bstep (t, i, d) (t', if cnt > 0 \<and> p \<noteq> [] then i @ [p] else i, d)"
| send: "reader_send t = Some t' \<Longrightarrow> bstep (t, i, d) (t', i, d)"
| read: "Read bufs sizes offset t = Done n e bufs' sizes' t' \<Longrightarrow>
     bstep (t, i, d) (t', i, d @ map snd (take (length (bt_queue t) - length (bt_queue t')) (bt_queue t)))"
| close: "bstep (t, i, d) (Close_begin t, i, d)"

fun held :: "reader \<Rightarrow> nat list" where
  "held Waiting = []"
| "held (Reading b) = [b]"
| "held (Sending b p e) = [b]"
| "held (Returned None) = []"
| "held (Returned (Some (b, p))) = [b]"

fun in_flight :: "reader \<Rightarrow> packet list" where
  "in_flight (Sending b p e) = [p]"
| "in_flight (Returned (Some (b, p))) = [p]"
| "in_flight _ = []"

definition binit :: "bsys \<Rightarrow> bool" where
  "binit x \<longleftrightarrow> (\<exists>batch depth. x = (newBatchTun batch depth, [], []))"

definition buffers_ok :: "batchTun \<Rightarrow> bool" where
  "buffers_ok t \<longleftrightarrow> mset (bt_free t) + mset (map fst (bt_queue t)) + mset (held (bt_reader t)) = mset [0..<bt_depth t]"

definition binv :: "bsys \<Rightarrow> bool" where
  "binv x =
     (case x of (t, i, d) \<Rightarrow>
        buffers_ok t \<and> i = d @ map snd (bt_queue t) @ in_flight (bt_reader t) \<and>
        (\<forall>y. bt_reader t = Returned (Some y) \<longrightarrow> bt_done t))"

text \<open>What any call takes from the queue goes back to the free list, in order.\<close>

lemma read_more_queue:
  "read_more k n offset bufs sizes t = Some (n', e, bufs', sizes', t') \<Longrightarrow>
     \<exists>j. j \<le> length (bt_queue t) \<and> t' = t\<lparr>bt_queue := drop j (bt_queue t), bt_free := bt_free t @ map fst (take j (bt_queue t))\<rparr>"
proof (induction k arbitrary: n bufs sizes t)
  case 0
  then show ?case by (auto intro!: exI [of _ 0])
next
  case (Suc k)
  show ?case
  proof (cases "bt_queue t")
    case Nil
    with Suc show ?thesis by (auto intro!: exI [of _ 0])
  next
    case (Cons x q)
    obtain b p where x: "x = (b, p)" by (cases x)
    let ?t1 = "t\<lparr>bt_queue := q, bt_free := bt_free t @ [b]\<rparr>"
    have "(\<exists>b1 s1. read_more k (n + 1) offset b1 s1 ?t1 = Some (n', e, bufs', sizes', t')) \<or> t' = ?t1"
      using Suc.prems Cons x by (auto simp: Let_def split: option.splits prod.splits)
    then show ?thesis
    proof (elim disjE exE)
      fix b1 s1
      assume "read_more k (n + 1) offset b1 s1 ?t1 = Some (n', e, bufs', sizes', t')"
      from Suc.IH [OF this] obtain j where
        "j \<le> length q" "t' = ?t1\<lparr>bt_queue := drop j q, bt_free := bt_free ?t1 @ map fst (take j q)\<rparr>" by auto
      with Cons x show ?thesis by (intro exI [of _ "Suc j"]) simp
    next
      assume "t' = ?t1"
      with Cons x show ?thesis by (intro exI [of _ 1]) simp
    qed
  qed
qed

lemma Read_queue:
  assumes "Read bufs sizes offset t = Done n e bufs' sizes' t'"
  obtains j where "j \<le> length (bt_queue t)"
    "t' = t\<lparr>bt_queue := drop j (bt_queue t), bt_free := bt_free t @ map fst (take j (bt_queue t))\<rparr>"
proof (cases "t' = t")
  case True
  then show ?thesis using that [of 0] by simp
next
  case False
  with assms obtain k where "read_more k 0 offset bufs sizes t = Some (n, e, bufs', sizes', t')"
    by (auto simp: Read_def Let_def split: if_splits option.splits)
  from read_more_queue [OF this] show ?thesis using that by blast
qed

lemma buffers_next: "buffers_ok (reader_next e t) = (mset (bt_free t) + mset (map fst (bt_queue t)) = mset [0..<bt_depth t])"
  by (simp add: buffers_ok_def reader_next_def split: option.split)

lemma next_fields [simp]:
  "bt_queue (reader_next e t) = bt_queue t" "bt_depth (reader_next e t) = bt_depth t" "bt_done (reader_next e t) = bt_done t"
  "in_flight (bt_reader (reader_next e t)) = []" "bt_reader (reader_next e t) \<noteq> Returned (Some y)"
  by (simp_all add: reader_next_def split: option.split)

lemma mset_take_drop: "mset (map f (take j xs)) + mset (map f (drop j xs)) = mset (map f xs)"
  by (metis append_take_drop_id map_append mset_append)

lemma buffers_rotate:
  assumes "buffers_ok t"
  shows "buffers_ok (t\<lparr>bt_queue := drop j (bt_queue t), bt_free := bt_free t @ map fst (take j (bt_queue t))\<rparr>)"
proof -
  have "mset (bt_free t @ map fst (take j (bt_queue t))) + mset (map fst (drop j (bt_queue t))) =
      mset (bt_free t) + mset (map fst (bt_queue t))"
    using mset_take_drop [of fst j "bt_queue t"] by (metis add.assoc mset_append)
  with assms show ?thesis by (simp add: buffers_ok_def del: mset_append mset_map)
qed

lemma binv_step: "bstep x y \<Longrightarrow> binv x \<Longrightarrow> binv y"
proof (induction rule: bstep.induct)
  case (read bufs sizes offset t n e bufs' sizes' t' i d)
  obtain j where j: "j \<le> length (bt_queue t)"
    "t' = t\<lparr>bt_queue := drop j (bt_queue t), bt_free := bt_free t @ map fst (take j (bt_queue t))\<rparr>"
    using Read_queue [OF read(1)] .
  have "map snd (take j (bt_queue t)) @ map snd (drop j (bt_queue t)) = map snd (bt_queue t)"
    by (metis append_take_drop_id map_append)
  with read j buffers_rotate [of t j] show ?case by (auto simp: binv_def)
next
  case (got cnt p e t t' i d)
  then show ?case
    by (auto simp: binv_def reader_got_def buffers_next split: reader.splits if_splits) (auto simp: buffers_ok_def)
next
  case (send t t' i d)
  then show ?case
    by (auto simp: binv_def reader_send_def buffers_next split: reader.splits if_splits) (auto simp: buffers_ok_def)
qed (auto simp: binv_def buffers_ok_def reader_take_def reader_quit_def Close_begin_def split: reader.splits list.splits if_splits)

lemma binv_init: "binit x \<Longrightarrow> binv x"
  by (auto simp: binit_def binv_def buffers_ok_def newBatchTun_def Let_def)

interpretation bat: invariant binit bstep binv
  by unfold_locales (auto intro: binv_init binv_step)

section \<open>Refinement of a queue\<close>

text \<open>The specification: packets come in one by one and the oldest ones not yet given are given.\<close>

inductive fifo :: "packet list \<times> packet list \<Rightarrow> packet list \<times> packet list \<Rightarrow> bool" where
  come: "fifo (i, d) (i @ [p], d)"
| give: "fifo (i, d) (i, d @ take j (drop (length d) i))"

lemma fifo_stay: "fifo x x"
  using fifo.give [of "fst x" "snd x" 0] by simp

lemma bstep_fifo: "bstep x y \<Longrightarrow> binv x \<Longrightarrow> fifo (snd x) (snd y)"
proof (induction rule: bstep.induct)
  case (read bufs sizes offset t n e bufs' sizes' t' i d)
  let ?j = "length (bt_queue t) - length (bt_queue t')"
  have i: "i = d @ map snd (bt_queue t) @ in_flight (bt_reader t)" using read(2) by (simp add: binv_def)
  have "map snd (take ?j (bt_queue t)) = take ?j (drop (length d) i)" by (simp add: i take_map)
  then show ?case using fifo.give [of i d ?j] by simp
qed (auto intro: fifo_stay fifo.come)

interpretation bsim: simulation binit bstep binv "\<lambda>x. x = ([], [])" fifo snd
  by unfold_locales (auto simp: binit_def intro: bstep_fifo)

lemma fifo_prefix: "reachable (\<lambda>x. x = ([], [])) fifo (i, d) \<Longrightarrow> d = take (length d) i"
proof (induction "(i, d)" arbitrary: i d rule: reachable.induct)
  case (more s)
  obtain i0 d0 where s: "s = (i0, d0)" by (cases s)
  have p: "d0 = take (length d0) i0" using more s by blast
  from more(3) show ?case unfolding s
  proof cases
    case (come p)
    with p show ?thesis by (metis append_take_drop_id length_take min.absorb_iff2 nle_le take_all take_append append_Nil2 diff_is_0_eq take0)
  next
    case (give j)
    then show ?thesis by (metis append_eq_conv_conj append_take_drop_id p take_add length_append length_take)
  qed
qed simp

text \<open>
  C22: the adapter refines a queue. Whatever the reader goroutine, the device and Close do
  and in whatever order, the packets taken for the device are the first packets of those
  that came in, in their order (one that does not fit its buffer is taken too, and
  reported as an error of that read); what is missing is in the queue or in the reader's
  hands, and the reader drops a packet only after Close. Every buffer is owned by exactly
  one of the free list, the queue and the reader, so a send never finds its channel full.
\<close>

theorem batch_refines_queue:
  assumes "reachable binit bstep (t, i, d)"
  shows "reachable (\<lambda>x. x = ([], [])) fifo (i, d) \<and> d = take (length d) i \<and>
    i = d @ map snd (bt_queue t) @ in_flight (bt_reader t) \<and>
    mset (bt_free t @ map fst (bt_queue t) @ held (bt_reader t)) = mset [0..<bt_depth t] \<and>
    (\<forall>b p e. bt_reader t = Sending b p e \<longrightarrow> length (bt_queue t) < bt_depth t) \<and>
    (\<forall>y. bt_reader t = Returned (Some y) \<longrightarrow> bt_done t)"
proof -
  have f: "reachable (\<lambda>x. x = ([], [])) fifo (i, d)" using bsim.reachable_sim [OF assms] by simp
  from bat.reachable_inv [OF assms] have i: "buffers_ok t" "i = d @ map snd (bt_queue t) @ in_flight (bt_reader t)"
    "\<forall>y. bt_reader t = Returned (Some y) \<longrightarrow> bt_done t" by (simp_all add: binv_def)
  then have m: "mset (bt_free t @ map fst (bt_queue t) @ held (bt_reader t)) = mset [0..<bt_depth t]"
    unfolding buffers_ok_def mset_append by (simp only: add.assoc)
  have "length (bt_free t @ map fst (bt_queue t) @ held (bt_reader t)) = bt_depth t"
    using arg_cong [OF m, of size] by simp
  then have "length (bt_queue t) < bt_depth t" if "bt_reader t = Sending b p e" for b p e using that by simp
  with f m i fifo_prefix [OF f] show ?thesis by blast
qed

definition demo_batch :: batchTun where
  "demo_batch = (newBatchTun 1 1)\<lparr>bt_reader := Waiting, bt_queue := [(0, [7])], bt_free := []\<rparr>"

theorem batch_refines_queue_witness:
  "reachable binit bstep (demo_batch, [[7]], []) \<and> reachable (\<lambda>x. x = ([], [])) fifo ([[7]], []) \<and>
     [[7]] = [] @ map snd (bt_queue demo_batch) @ in_flight (bt_reader demo_batch)"
proof -
  have "reachable binit bstep (newBatchTun 1 1, [], [])" by (intro reachable.base) (auto simp: binit_def)
  from reachable.more [OF this bstep.take [of _ "(newBatchTun 1 1)\<lparr>bt_reader := Reading 0, bt_free := []\<rparr>"]]
  have "reachable binit bstep ((newBatchTun 1 1)\<lparr>bt_reader := Reading 0, bt_free := []\<rparr>, [], [])"
    by (simp add: reader_take_def newBatchTun_def)
  from reachable.more [OF this bstep.got [of 1 "[7]" None _ "(newBatchTun 1 1)\<lparr>bt_reader := Sending 0 [7] None, bt_free := []\<rparr>"]]
  have "reachable binit bstep ((newBatchTun 1 1)\<lparr>bt_reader := Sending 0 [7] None, bt_free := []\<rparr>, [[7]], [])"
    by (simp add: reader_got_def newBatchTun_def)
  from reachable.more [OF this bstep.send [of _ demo_batch]] have r: "reachable binit bstep (demo_batch, [[7]], [])"
    by (simp add: reader_send_def newBatchTun_def demo_batch_def reader_next_def)
  from batch_refines_queue [OF r] r show ?thesis by blast
qed

section \<open>What a read delivers\<close>

lemma deliver_fits:
  assumes "offset + length p \<le> length (bufs ! i)"
  shows "deliver bufs sizes offset i p =
    Some (None, bufs[i := take offset (bufs ! i) @ p @ drop (offset + length p) (bufs ! i)], sizes[i := length p])"
  using assms by (auto simp: deliver_def)

text \<open>A packet at its place in the device's buffer, the room in front of it untouched.\<close>

definition placed :: "packet list \<Rightarrow> packet list \<Rightarrow> nat list \<Rightarrow> nat \<Rightarrow> nat \<Rightarrow> packet \<Rightarrow> bool" where
  "placed bufs bufs' sizes' offset i p \<longleftrightarrow>
     sizes' ! i = length p \<and> take (length p) (drop offset (bufs' ! i)) = p \<and> take offset (bufs' ! i) = take offset (bufs ! i) \<and>
     length (bufs' ! i) = length (bufs ! i)"

lemma read_more_delivers:
  assumes "n + k \<le> length bufs" and "n + k \<le> length sizes"
    and "\<And>j. j < min k (length (bt_queue t)) \<Longrightarrow> offset + length (snd (bt_queue t ! j)) \<le> length (bufs ! (n + j))"
  shows "\<exists>bufs' sizes'. read_more k n offset bufs sizes t =
      Some (n + min k (length (bt_queue t)), None, bufs', sizes',
        t\<lparr>bt_queue := drop k (bt_queue t), bt_free := bt_free t @ map fst (take k (bt_queue t))\<rparr>) \<and>
    length bufs' = length bufs \<and> length sizes' = length sizes \<and>
    (\<forall>i. i < n \<or> n + min k (length (bt_queue t)) \<le> i \<longrightarrow> bufs' ! i = bufs ! i \<and> sizes' ! i = sizes ! i) \<and>
    (\<forall>j < min k (length (bt_queue t)). placed bufs bufs' sizes' offset (n + j) (snd (bt_queue t ! j)))"
  using assms
proof (induction k arbitrary: n bufs sizes t)
  case (Suc k)
  show ?case
  proof (cases "bt_queue t")
    case Nil
    then show ?thesis by simp
  next
    case (Cons x q)
    obtain b p where x: "x = (b, p)" by (cases x)
    let ?t1 = "t\<lparr>bt_queue := q, bt_free := bt_free t @ [b]\<rparr>"
    let ?b1 = "bufs[n := take offset (bufs ! n) @ p @ drop (offset + length p) (bufs ! n)]" and ?s1 = "sizes[n := length p]"
    have fit: "offset + length p \<le> length (bufs ! n)" using Suc.prems(3) [of 0] Cons x by simp
    have "offset + length (snd (bt_queue ?t1 ! j)) \<le> length (?b1 ! (n + 1 + j))" if "j < min k (length (bt_queue ?t1))" for j
      using Suc.prems(3) [of "Suc j"] that Cons by simp
    from Suc.IH [of "n + 1" ?b1 ?s1 ?t1, OF _ _ this] Suc.prems(1,2) obtain bufs' sizes' where
      r: "read_more k (n + 1) offset ?b1 ?s1 ?t1 = Some (n + 1 + min k (length q), None, bufs', sizes',
          t\<lparr>bt_queue := drop k q, bt_free := bt_free t @ b # map fst (take k q)\<rparr>)"
      and l: "length bufs' = length bufs" "length sizes' = length sizes"
      and oth: "\<forall>i. i < n + 1 \<or> n + 1 + min k (length q) \<le> i \<longrightarrow> bufs' ! i = ?b1 ! i \<and> sizes' ! i = ?s1 ! i"
      and p: "\<forall>j < min k (length q). placed ?b1 bufs' sizes' offset (n + 1 + j) (snd (q ! j))" by auto
    have "placed bufs bufs' sizes' offset n p"
      using oth fit Suc.prems(1,2) by (auto simp: placed_def)
    moreover have "placed bufs bufs' sizes' offset (n + Suc j) (snd (q ! j))" if "j < min k (length q)" for j
      using p that by (auto simp: placed_def)
    ultimately have pl: "placed bufs bufs' sizes' offset (n + j) (snd (bt_queue t ! j))" if "j < min (Suc k) (length (bt_queue t))" for j
      using that Cons x by (cases j) auto
    have "read_more (Suc k) n offset bufs sizes t = read_more k (n + 1) offset ?b1 ?s1 ?t1"
      using Cons x deliver_fits [OF fit, of sizes] by (simp add: Let_def)
    with r l oth pl Cons x show ?thesis by (intro exI [of _ bufs'] exI [of _ sizes']) auto
  qed
qed simp

text \<open>
  a read with a packet queued and room for it does not wait for more: it hands out
  the packets that are there, at most a batch, each at the requested offset of its own
  buffer with its size, leaves every byte before the offset and every other buffer
  alone, and returns the emptied queue buffers to the free list.
\<close>

theorem Read_delivers:
  assumes "limit = min (length bufs) (min (length sizes) (bt_batch t))" and "0 < limit" and "bt_queue t \<noteq> []"
    and "n = min limit (length (bt_queue t))"
    and "\<forall>j<n. offset + length (snd (bt_queue t ! j)) \<le> length (bufs ! j)"
  shows "\<exists>bufs' sizes'. Read bufs sizes offset t = Done n None bufs' sizes'
      (t\<lparr>bt_queue := drop n (bt_queue t), bt_free := bt_free t @ map fst (take n (bt_queue t))\<rparr>) \<and> 1 \<le> n \<and>
    (\<forall>i<n. placed bufs bufs' sizes' offset i (snd (bt_queue t ! i))) \<and>
    (\<forall>i\<ge>n. bufs' ! i = bufs ! i \<and> sizes' ! i = sizes ! i)"
proof -
  have q: "drop limit (bt_queue t) = drop n (bt_queue t)" "take limit (bt_queue t) = take n (bt_queue t)"
    using assms(4) by (simp_all add: min_def)
  have le: "0 + limit \<le> length bufs" "0 + limit \<le> length sizes" using assms(1) by simp_all
  have fit: "offset + length (snd (bt_queue t ! j)) \<le> length (bufs ! (0 + j))" if "j < min limit (length (bt_queue t))" for j
    using assms(4,5) that by simp
  from read_more_delivers [OF le fit] obtain bufs' sizes' where r: "read_more limit 0 offset bufs sizes t = Some (n, None, bufs', sizes',
        t\<lparr>bt_queue := drop limit (bt_queue t), bt_free := bt_free t @ map fst (take limit (bt_queue t))\<rparr>)"
    "\<forall>i. i < 0 \<or> n \<le> i \<longrightarrow> bufs' ! i = bufs ! i \<and> sizes' ! i = sizes ! i"
    "\<forall>j<n. placed bufs bufs' sizes' offset j (snd (bt_queue t ! j))"
    unfolding assms(4) [symmetric] by auto
  have "1 \<le> n" using assms(2,3,4) by (simp add: Suc_le_eq)
  with r q assms(1,2,3) show ?thesis by (auto simp: Read_def Let_def)
qed

theorem Read_delivers_witness:
  "\<exists>bufs' sizes' t'. Read [[1, 2, 3]] [0] 1 demo_batch = Done 1 None bufs' sizes' t' \<and> placed [[1, 2, 3]] bufs' sizes' 1 0 [7]"
  using Read_delivers [of 1 "[[1, 2, 3]]" "[0]" demo_batch 1 1] by (fastforce simp: demo_batch_def newBatchTun_def)

end
