(* ===== verification/Logging_Device.thy ===== *)
theory Logging_Device
  imports Logging_Log
begin

text \<open>
  The rest of the logger's interface (\<open>internal/logging/logging.go\<close>) and the adapter through
  which the embedded AmneziaWG device logs (\<open>internal/logging/device.go\<close>). A message is the
  formatted text; the prefixes of the adapter contain no formatting verb.
\<close>

definition Rotation :: "Logger \<Rightarrow> int \<times> int" where "Rotation l = (lg_maxSize l, lg_maxFiles l)"

definition Logger_Level :: "Logger \<Rightarrow> Level" where "Logger_Level l = op_Level (lg_opts l)"

definition Debugf :: "log_io \<Rightarrow> string \<Rightarrow> string \<Rightarrow> string \<Rightarrow> Logger \<times> log_world \<Rightarrow> Logger \<times> log_world" where
  "Debugf io time stamp msg = logf io time stamp LevelDebug msg"

definition Infof :: "log_io \<Rightarrow> string \<Rightarrow> string \<Rightarrow> string \<Rightarrow> Logger \<times> log_world \<Rightarrow> Logger \<times> log_world" where
  "Infof io time stamp msg = logf io time stamp LevelInfo msg"

definition Warnf :: "log_io \<Rightarrow> string \<Rightarrow> string \<Rightarrow> string \<Rightarrow> Logger \<times> log_world \<Rightarrow> Logger \<times> log_world" where
  "Warnf io time stamp msg = logf io time stamp LevelWarn msg"

definition Logger_Errorf :: "log_io \<Rightarrow> string \<Rightarrow> string \<Rightarrow> string \<Rightarrow> Logger \<times> log_world \<Rightarrow> Logger \<times> log_world" where
  "Logger_Errorf io time stamp msg = logf io time stamp LevelError msg"

text \<open>The two callbacks of \<open>device.Logger\<close>.\<close>

record device_Logger =
  dl_Verbosef :: "log_io \<Rightarrow> string \<Rightarrow> string \<Rightarrow> string \<Rightarrow> Logger \<times> log_world \<Rightarrow> Logger \<times> log_world"
  dl_Errorf :: "log_io \<Rightarrow> string \<Rightarrow> string \<Rightarrow> string \<Rightarrow> Logger \<times> log_world \<Rightarrow> Logger \<times> log_world"

definition DeviceLogger :: "string \<Rightarrow> device_Logger" where
  "DeviceLogger pre =
     \<lparr>dl_Verbosef = \<lambda>io time stamp msg. Debugf io time stamp (pre @ msg),
      dl_Errorf = \<lambda>io time stamp msg. Logger_Errorf io time stamp (pre @ msg)\<rparr>"

text \<open>
  What the device logs reaches the console only through the redaction, and nothing of its
  verbose output does above the debug level.
\<close>

lemma device_log_redacted:
  assumes "dl_Errorf (DeviceLogger pre) io time stamp msg (l, w) = (l', w')" and "lg_closed l \<or> \<not> lg_file l"
  shows "lw_console w' = lw_console w \<or>
    lw_console w' = lw_console w @ [time @ '' [ERROR] '' @ Redact (TrimRight_crlf (pre @ msg)) @ [CHR 0x0A]]"
  using assms by (auto simp: DeviceLogger_def Logger_Errorf_def logf_def log_line_def Let_def split: if_splits)

lemma device_verbose_quiet:
  assumes "Logger_Level l \<noteq> LevelDebug"
  shows "dl_Verbosef (DeviceLogger pre) io time stamp msg (l, w) = (l, w)"
  using assms by (cases "op_Level (lg_opts l)") (auto simp: DeviceLogger_def Debugf_def logf_def Logger_Level_def)

end
