(* ===== verification/Socks5_Calls.thy ===== *)
theory Socks5_Calls
  imports Socks5_Server
begin

text \<open>
  A session and the world behind its egress: \<open>socks5/server.go\<close> and \<open>udp.go\<close> touch the tunnel
  through the \<open>Dialer\<close> interface only, so whatever one call may do to the world, closed
  under repetition, is all a session may do to it. The owner of the world states the
  relation, the session guarantees it.
\<close>

locale dialer_calls =
  fixes d :: "('w, 'p) Dialer" and R :: "'w \<Rightarrow> 'w \<Rightarrow> bool"
  assumes idle: "R w w"
    and again: "R w w1 \<Longrightarrow> R w1 w2 \<Longrightarrow> R w w2"
    and dial: "DialTCP d a w = (x, w') \<Longrightarrow> R w w'"
    and lookup: "LookupHost d h w = (y, w') \<Longrightarrow> R w w'"
    and listen: "ListenUDP d v6 w = (z, w') \<Longrightarrow> R w w'"
    and send: "pc_WriteTo d c b t w = (n, w') \<Longrightarrow> R w w'"
    and closing: "R w (pc_Close d c w)"
begin

lemma dial_loop_calls: "dial_loop d port as e w = (x, w') \<Longrightarrow> R w w'"
proof (induction as arbitrary: e w)
  case (Cons a as)
  obtain y w1 where y: "DialTCP d (AddrPortFrom (Unmap a) port) w = (y, w1)" by fastforce
  with Cons dial [OF y] show ?case by (cases y) (auto simp: Let_def intro: again)
qed (simp add: idle)

lemma dial_candidates_calls: "dial_candidates d port as w = (x, w') \<Longrightarrow> R w w'"
  by (auto simp: dial_candidates_def split: prod.splits sum.splits dest: dial_loop_calls)

lemma connect_calls:
  assumes "connect d dest (s, w) = (x, s', w')"
  shows "R w w'"
proof (cases "d_host dest = []")
  case True
  with assms show ?thesis by (auto simp: connect_def idle split: if_splits prod.splits dest: dial_candidates_calls)
next
  case False
  obtain y w1 where y: "LookupHost d (d_host dest) w = (y, w1)" by fastforce
  note 1 = lookup [OF y]
  from False assms y 1 show ?thesis
    by (auto simp: connect_def Let_def idle split: if_splits prod.splits sum.splits dest!: dial_candidates_calls intro: again)
qed

lemma relay_Close_calls: "R w (snd (relay_Close d (r, w)))"
  by (auto simp: relay_Close_def close_family_def idle split: option.splits intro: again closing)

lemma register_calls: "tunnelConn_register d v6 c (r, w) = (x, r', w') \<Longrightarrow> R w w'"
  by (auto simp: tunnelConn_register_def idle closing split: option.splits)

lemma meanwhile_calls: "R w (snd (meanwhile_run d mw v6 (r, w)))"
proof (cases mw)
  case OtherOpens
  obtain x w1 where x: "ListenUDP d v6 w = (x, w1)" by fastforce
  show ?thesis
  proof (cases x)
    case (Inr c)
    obtain y r' w' where t: "tunnelConn_register d v6 c (r, w1) = (y, r', w')" using prod_cases3 by blast
    from OtherOpens x Inr t again [OF listen [OF x] register_calls [OF t]] show ?thesis by simp
  qed (use OtherOpens x listen [OF x] in simp)
qed (auto simp: idle relay_Close_calls)

lemma tunnelConn_calls:
  assumes "tunnelConn d mw v6 (r, w) = (x, r', w')"
  shows "R w w'"
proof -
  obtain y w1 where y: "ListenUDP d v6 w = (y, w1)" by fastforce
  obtain r2 w2 where m: "meanwhile_run d mw v6 (r, w1) = (r2, w2)" by fastforce
  have "R w w2" using again [OF listen [OF y] meanwhile_calls [of w1 mw v6 r]] m by simp
  with assms y m show ?thesis
    by (auto simp: tunnelConn_def idle split: option.splits sum.splits dest!: register_calls intro: again)
qed

lemma warmUp_loop_calls: "warmUp_loop d mw e fs (r, w) = (x, r', w') \<Longrightarrow> R w w'"
proof (induction fs arbitrary: e r w)
  case (Cons v6 fs)
  obtain y r1 w1 where y: "tunnelConn d mw v6 (r, w) = (y, r1, w1)" using prod_cases3 by blast
  with Cons tunnelConn_calls [OF y] show ?case by (cases y) (auto intro: again)
qed (simp add: idle)

lemma resolve_calls: "resolve d dst w = (x, w') \<Longrightarrow> R w w'"
  by (auto simp: resolve_def Let_def idle split: if_splits prod.splits sum.splits list.splits dest: lookup)

lemma forward_calls: "R (us_w st) (us_w (forward d mw dst p st))"
proof -
  obtain t w1 where t: "resolve d dst (us_w st) = (t, w1)" by fastforce
  note 1 = resolve_calls [OF t]
  show ?thesis
  proof (cases t)
    case (Some a)
    obtain x r w2 where x: "tunnelConn d mw (Is6 (ap_addr a)) (us_relay st, w1) = (x, r, w2)" using prod_cases3 by blast
    note 2 = again [OF 1 tunnelConn_calls [OF x]]
    show ?thesis
    proof (cases x)
      case (Inr c)
      obtain n w3 where n: "pc_WriteTo d c p a w2 = (n, w3)" by fastforce
      from t Some x Inr n again [OF 2 send [OF n]] show ?thesis by (cases n) (simp_all add: forward_def)
    qed (use t Some x 2 in \<open>simp add: forward_def\<close>)
  qed (use t 1 in \<open>simp add: forward_def\<close>)
qed

lemma st_Close_calls: "R (us_w st) (us_w (st_Close d st))"
  using relay_Close_calls [of "us_w st" "us_relay st"]
  by (cases "relay_Close d (us_relay st, us_w st)") (simp add: st_Close_def)

lemma udp_step_calls: "R (us_w st) (us_w (udp_step d os ev st))"
proof (cases ev)
  case (FromClient now a data mw)
  have "R (us_w st) (us_w (pumpFromClient d now a data mw st))"
    using forward_calls [of "st\<lparr>us_relay := r\<rparr>" for r]
    by (auto simp: pumpFromClient_def idle split: prod.split bool.split sum.split)
  with FromClient show ?thesis by (simp add: idle)
next
  case (FromTunnel now a data)
  have "us_w (pumpFromTunnel os now a data st) = us_w st" by (simp add: pumpFromTunnel_def Let_def split: option.split)
  with FromTunnel show ?thesis by (simp add: idle)
qed (simp add: watchIdle_def idle st_Close_calls)

lemma udp_run_calls: "R (us_w st) (us_w (udp_run d os evs st))"
  by (induction evs arbitrary: st) (auto simp: udp_run_def idle intro: again udp_step_calls)

lemma associate_calls:
  assumes "handleUDPAssociate d os now mw evs client declared (s, w) = (c', (s', w'), out)"
  shows "R w w'"
proof (cases "s_udpEnabled s")
  case True
  show ?thesis
  proof (cases "newUDPRelay os now (declared_expect declared) :: goerr + 'p relay")
    case (Inr r)
    obtain x r1 w1 where x: "warmUp d mw (r, w) = (x, r1, w1)" using prod_cases3 by blast
    have 1: "R w w1" using x unfolding warmUp_def by (rule warmUp_loop_calls)
    have 2: "R w (us_w (st_Close d ((udp_run d os evs st)\<lparr>us_srv := sv\<rparr>)))" if "us_w st = w1" for st sv
      using again [OF 1] again [OF udp_run_calls [of st os evs] st_Close_calls [of "(udp_run d os evs st)\<lparr>us_srv := sv\<rparr>", simplified]] that
      by simp
    from True Inr x assms again [OF 1 relay_Close_calls [of w1 r1]] 2 show ?thesis
      by (auto simp: handleUDPAssociate_def Let_def split: option.splits prod.splits bool.splits)
  qed (use True assms in \<open>simp add: handleUDPAssociate_def idle\<close>)
qed (use assms in \<open>simp add: handleUDPAssociate_def idle\<close>)

text \<open>What the session guarantees.\<close>

lemma session_calls: "R w (o_w (handle d os now mw evs client (s, w)))"
proof -
  have 1: "R w (o_w (handleConnect d dest c (s, w)))" for dest c
    by (auto simp: handleConnect_def ended_def split: prod.split option.split bool.split dest: connect_calls)
  have 2: "R w w'" if "handleUDPAssociate d os now mw evs c dest (s, w) = (c', sw, out)" "w' = snd sw" for c dest c' sw out w'
    using that associate_calls by (cases sw) auto
  show ?thesis
    by (auto simp: handle_def ended_def idle 1 split: prod.split sum.split intro: 2)
qed

end

text \<open>
  An egress that is down, once more: whatever a client sends and whatever races with the
  opening of a socket, its session opens nothing and leaves the egress down.
\<close>

context fail_closed
begin

definition idle_relay :: "'p relay \<Rightarrow> bool" where
  "idle_relay r \<longleftrightarrow> r_tunnel r = None \<or> r_tunnel r = Some Map.empty"

lemma dial_loop_refused: "down w \<Longrightarrow> \<exists>e w'. dial_loop d port as le w = (Inl e, w') \<and> down w'"
proof (induction as arbitrary: le w)
  case (Cons a as)
  from dial_down [OF Cons.prems] obtain e w1 where "DialTCP d (AddrPortFrom (Unmap a) port) w = (Inl e, w1)" "down w1" by blast
  with Cons.IH [of w1 "Some e"] show ?case by (auto simp: Let_def)
qed simp

lemma dial_candidates_refused: "down w \<Longrightarrow> \<exists>e w'. dial_candidates d port as w = ((None, AddrPort0, replyForError (Some e) repHostUnreachable), w') \<and> down w'"
  using dial_loop_refused [of w port as None] by (auto simp: dial_candidates_def Let_def)

lemma connect_refused:
  assumes "down w"
  shows "\<exists>t rep s' w'. connect d dest (s, w) = ((None, t, rep), s', w') \<and> rep \<noteq> repSuccess \<and> down w'"
proof (cases "d_host dest = []")
  case True
  then show ?thesis
    using dial_candidates_refused [OF assms, of "d_port dest" "[d_addr dest]"] assms
    by (auto simp: connect_def replyForError_Some_not_success)
next
  case False
  from lookup_down [OF assms, of "d_host dest"] obtain e w1 where "LookupHost d (d_host dest) w = (Inl e, w1)" "down w1" by blast
  with False assms show ?thesis by (auto simp: connect_def Let_def replyForError_Some_not_success)
qed

lemma Close_idle: "idle_relay r \<Longrightarrow> relay_Close d (r, w) = (r', w') \<Longrightarrow> w' = w \<and> idle_relay r'"
  by (auto simp: idle_relay_def relay_Close_def close_family_def split: if_splits)

lemma meanwhile_idle:
  assumes "down w" and "idle_relay r" and "meanwhile_run d mw v6 (r, w) = (r', w')"
  shows "down w' \<and> idle_relay r'"
proof (cases mw)
  case OtherOpens
  from listen_down [OF assms(1), of v6] OtherOpens assms show ?thesis by auto
next
  case OtherCloses
  with assms Close_idle show ?thesis by auto
qed (use assms in auto)

lemma tunnelConn_refused:
  assumes "down w" and "idle_relay r"
  shows "\<exists>e r' w'. tunnelConn d mw v6 (r, w) = (Inl e, r', w') \<and> down w' \<and> idle_relay r'"
proof -
  from listen_down [OF assms(1), of v6] obtain e w1 where l: "ListenUDP d v6 w = (Inl e, w1)" "down w1" by blast
  obtain r2 w2 where m: "meanwhile_run d mw v6 (r, w1) = (r2, w2)" by fastforce
  from meanwhile_idle [OF l(2) assms(2) m] l m assms show ?thesis by (auto simp: tunnelConn_def idle_relay_def)
qed

lemma warmUp_refused:
  assumes "down w" and "idle_relay r"
  shows "\<exists>e r' w'. warmUp d mw (r, w) = (Some e, r', w') \<and> down w' \<and> idle_relay r'"
proof -
  obtain e r1 w1 where 1: "tunnelConn d mw False (r, w) = (Inl e, r1, w1)" "down w1" "idle_relay r1"
    using tunnelConn_refused [OF assms] by blast
  obtain e2 r2 w2 where 2: "tunnelConn d mw True (r1, w1) = (Inl e2, r2, w2)" "down w2" "idle_relay r2"
    using tunnelConn_refused [OF 1(2,3)] by blast
  show ?thesis using 1 2 by (simp add: warmUp_def)
qed

lemma associate_refused:
  assumes "down w"
  shows "\<exists>c' s' w'. handleUDPAssociate d os now mw evs client dest (s, w) = (c', (s', w'), []) \<and> down w'"
proof (cases "s_udpEnabled s \<and> (\<exists>r. newUDPRelay os now (declared_expect dest) = Inr (r :: 'p relay))")
  case True
  then obtain r :: "'p relay" where r: "newUDPRelay os now (declared_expect dest) = Inr r" by blast
  then have "idle_relay r" by (auto simp: newUDPRelay_def idle_relay_def split: sum.splits)
  from warmUp_refused [OF assms this, of mw] obtain e r1 w1 where
    w: "warmUp d mw (r, w) = (Some e, r1, w1)" "down w1" "idle_relay r1" by blast
  have "down (snd (relay_Close d (r1, w1)))" using Close_idle [OF w(3)] w(2) by (cases "relay_Close d (r1, w1)") auto
  with True r w show ?thesis by (simp add: handleUDPAssociate_def)
next
  case False
  with assms show ?thesis
    by (cases "newUDPRelay os now (declared_expect dest) :: goerr + 'p relay") (auto simp: handleUDPAssociate_def)
qed

lemma session_refused:
  assumes "down w" and "r = handle d os now mw evs client (s, w)"
  shows "down (o_w r) \<and> o_remote r = None \<and> o_udp r = []"
proof -
  have e: "down (o_w (ended c (s', w')))" "o_remote (ended c (s', w')) = None" "o_udp (ended c (s', w')) = []" if "down w'" for c s' w'
    using that by (simp_all add: ended_def)
  have 1: "down (o_w (handleConnect d dest c (s, w))) \<and> o_remote (handleConnect d dest c (s, w)) = None \<and> o_udp (handleConnect d dest c (s, w)) = []" for dest c
    using connect_refused [OF assms(1), of dest s] by (auto simp: handleConnect_def e)
  have 2: "down (o_w (case handleUDPAssociate d os now mw evs c dest (s, w) of (c3, sw', out) \<Rightarrow> (ended c3 sw')\<lparr>o_udp := out\<rparr>)) \<and>
      o_remote (case handleUDPAssociate d os now mw evs c dest (s, w) of (c3, sw', out) \<Rightarrow> (ended c3 sw')\<lparr>o_udp := out\<rparr>) = None \<and>
      o_udp (case handleUDPAssociate d os now mw evs c dest (s, w) of (c3, sw', out) \<Rightarrow> (ended c3 sw')\<lparr>o_udp := out\<rparr>) = []" for dest c
    using associate_refused [OF assms(1), of os now mw evs c dest s] by (auto simp: e)
  show ?thesis
    unfolding assms(2) handle_def using 1 2 e [OF assms(1)] by (auto split: prod.split sum.split)
qed

end

end
