(* ===== verification/Service_System.thy ===== *)
theory Service_System
  imports Service_Races Socks5_Calls
begin

text \<open>
  The service as a whole: the manager with its tunnel, and the proxy's sessions calling
  the tunnel in between. The sessions' side is one call of the \<open>Dialer\<close> interface at a
  time, by any session and with any context, so that every interleaving of sessions,
  commands, events, retries and the supervisor is a run.
\<close>

section \<open>Calls on the tunnel\<close>

inductive tunnel_call :: "('w, 'd, 'n, 'p) upstream \<Rightarrow> ('d, 'n) tun \<times> 'w \<Rightarrow> ('d, 'n) tun \<times> 'w \<Rightarrow> bool"
  for up :: "('w, 'd, 'n, 'p) upstream" where
  dial: "DialTCP (tunnel_dialer up ce) a x = (c, y) \<Longrightarrow> tunnel_call up x y"
| lookup: "LookupHost (tunnel_dialer up ce) h x = (as, y) \<Longrightarrow> tunnel_call up x y"
| listen: "ListenUDP (tunnel_dialer up ce) v6 x = (p, y) \<Longrightarrow> tunnel_call up x y"
| send: "pc_WriteTo (tunnel_dialer up ce) p b a x = (n, y) \<Longrightarrow> tunnel_call up x y"
| closing: "tunnel_call up x (pc_Close (tunnel_dialer up ce) p x)"

interpretation tcl: dialer_calls "tunnel_dialer up ce" "(tunnel_call up)\<^sup>*\<^sup>*"
  for up :: "('w, 'd, 'n, 'p) upstream" and ce :: "('w, 'd, 'n) call_env"
  by unfold_locales (auto intro: tunnel_call.intros)

text \<open>A call changes nothing of the tunnel but what its resolver remembers.\<close>

lemma tunnel_call_frame:
  assumes "tunnel_call up x y"
  shows "\<exists>r. fst y = (fst x)\<lparr>tn_resolver := r\<rparr>"
proof -
  obtain t w where x: "x = (t, w)" by (cases x)
  have t: "t = t\<lparr>tn_resolver := tn_resolver t\<rparr>" by simp
  from assms x t show ?thesis
    by cases (auto simp: tunnel_dialer_def Tunnel_LookupHost_def split: prod.splits if_splits intro: exI [of _ "tn_resolver t"])
qed

lemma tunnel_calls_frame: "(tunnel_call up)\<^sup>*\<^sup>* x y \<Longrightarrow> \<exists>r. fst y = (fst x)\<lparr>tn_resolver := r\<rparr>"
proof (induction rule: rtranclp_induct)
  case base
  show ?case by (rule exI [of _ "tn_resolver (fst x)"]) simp
next
  case (step y z)
  from step.IH tunnel_call_frame [OF step(2)] show ?case by auto
qed

section \<open>The service\<close>

text \<open>What the accept loop and the sessions leave alone of their server.\<close>

definition same_listener :: "Server \<Rightarrow> Server \<Rightarrow> bool" where
  "same_listener s t \<longleftrightarrow>
     s_listen t = s_listen s \<and> s_maxConns t = s_maxConns s \<and> s_udpEnabled t = s_udpEnabled s \<and> s_ln t = s_ln s"

inductive service_step :: "('w, 'd, 'n, 'p) upstream \<Rightarrow> ('d, 'n) mgr \<times> 'w \<Rightarrow> ('d, 'n) mgr \<times> 'w \<Rightarrow> bool"
  for up :: "('w, 'd, 'n, 'p) upstream" where
  manager: "mstep up x y \<Longrightarrow> service_step up x y"
| call: "m_tunnel m = Some t \<Longrightarrow> tunnel_call up (t, w) (t', w') \<Longrightarrow> service_step up (m, w) (m\<lparr>m_tunnel := Some t'\<rparr>, w')"
| serve: "m_socks m = Some s \<Longrightarrow> same_listener s s' \<Longrightarrow> service_step up (m, w) (m\<lparr>m_socks := Some s'\<rparr>, w)"

lemma calls_run:
  assumes "(tunnel_call up)\<^sup>*\<^sup>* (t, w) (t', w')" and "m_tunnel m = Some t"
  shows "(service_step up)\<^sup>*\<^sup>* (m, w) (m\<lparr>m_tunnel := Some t'\<rparr>, w')"
  using assms(1)
proof (induction "(t', w')" arbitrary: t' w' rule: rtranclp_induct)
  case base
  have "m\<lparr>m_tunnel := Some t\<rparr> = m" using assms(2) by simp
  then show ?case by simp
next
  case (step y)
  obtain t1 w1 where y: "y = (t1, w1)" by (cases y)
  have "service_step up (m\<lparr>m_tunnel := Some t1\<rparr>, w1) (m\<lparr>m_tunnel := Some t1, m_tunnel := Some t'\<rparr>, w')"
    using step(2) y by (intro service_step.call [of _ t1]) auto
  with step.hyps(3) [OF y] show ?case by (simp add: rtranclp.rtrancl_into_rtrancl)
qed

section \<open>The listener is the configured one\<close>

definition listen_ok_for :: "App \<Rightarrow> Server \<Rightarrow> bool" where
  "listen_ok_for a s \<longleftrightarrow>
     s_listen s = a_Socks5Listen a \<and>
     (s_ln s \<noteq> None \<longrightarrow> s_maxConns s = ResolveMaxConns (a_MaxConnections a) \<and> s_udpEnabled s = UDPEnabled a \<and>
        (\<exists>ap. ParseAddrPort (s_listen s) = Some ap \<and> IsLoopback (ap_addr ap)))"

definition listen_inv :: "('d, 'n) mgr \<Rightarrow> bool" where
  "listen_inv m \<longleftrightarrow> (case m_socks m of None \<Rightarrow> True | Some s \<Rightarrow> (\<exists>a. m_app m = Some a \<and> listen_ok_for a s))"

definition keeps_listener :: "('d, 'n) mgr \<Rightarrow> ('d, 'n) mgr \<Rightarrow> bool" where
  "keeps_listener m m' \<longleftrightarrow> m_socks m' = m_socks m \<and> m_app m' = m_app m"

lemma listen_inv_keeps: "keeps_listener m m' \<Longrightarrow> listen_inv m \<Longrightarrow> listen_inv m'"
  by (cases "m_socks m") (simp_all add: keeps_listener_def listen_inv_def)

lemma keeps_trans: "keeps_listener m m1 \<Longrightarrow> keeps_listener m1 m2 \<Longrightarrow> keeps_listener m m2"
  by (simp add: keeps_listener_def)

lemma keeps_frame [simp]:
  "keeps_listener m (m\<lparr>m_tunnel := t\<rparr>)" "keeps_listener m m" "keeps_listener m (request_reconnect m)" "keeps_listener m (wakeRetry m)"
  "keeps_listener m (OnPowerResume m)" "keeps_listener m (retry_exit g m)"
  by (simp_all add: keeps_listener_def request_reconnect_def wakeRetry_def OnPowerResume_def retry_exit_def clearRetry_def Let_def)

lemma keeps_conflict: "checkConflict up ls (m, w) = (b, m', w') \<Longrightarrow> keeps_listener m m'"
  using checkConflict_ctx(3,4) by (auto simp: keeps_listener_def)

lemma keeps_startOnce: "startTunnelOnce up now (m, w) = (e, m', w') \<Longrightarrow> keeps_listener m m'"
  using startTunnelOnce_ctx(3,4) by (auto simp: keeps_listener_def)

lemma keeps_StartTunnel: "StartTunnel up now (m, w) = (e, m', w') \<Longrightarrow> keeps_listener m m'"
  by (auto simp: StartTunnel_def Let_def keeps_listener_def split: option.splits if_splits dest: startTunnelOnce_ctx(3,4))

lemma keeps_retry:
  assumes "retry_iter up now ev g (m, w) = (m', w')"
  shows "keeps_listener m m'"
proof -
  let ?m1 = "if ev = Woken then m\<lparr>m_retryWake := False\<rparr> else m"
  have 1: "keeps_listener m ?m1" by (simp add: keeps_listener_def)
  obtain e m2 w2 where s: "startTunnelOnce up now (?m1, w) = (e, m2, w2)" using prod_cases3 by blast
  from keeps_trans [OF 1 keeps_startOnce [OF s]] have 2: "keeps_listener m m2" .
  have 3: "keeps_listener m (retry_exit g n)" if "keeps_listener m n" for n using that keeps_trans keeps_frame(6) by blast
  have 4: "keeps_listener m (m2\<lparr>m_retries := rs\<rparr>)" for rs using 2 by (simp add: keeps_listener_def)
  have "m' \<in> {retry_exit g m, retry_exit g ?m1, m2, retry_exit g m2} \<or> (\<exists>rs. m' = m2\<lparr>m_retries := rs\<rparr>)"
    using assms s unfolding retry_iter_def Let_def
    by (simp split: if_split_asm option.split_asm mgr_err.split_asm) blast+
  with 1 2 3 4 show ?thesis by auto
qed

lemma NewWithOptions_listens: "listen_ok_for a (NewWithOptions (a_Socks5Listen a) (a_MaxConnections a) (UDPEnabled a))"
  by (simp add: listen_ok_for_def NewWithOptions_def)

lemma Start_listens:
  assumes "Start os (NewWithOptions (a_Socks5Listen a) (a_MaxConnections a) (UDPEnabled a)) = (x, s)"
  shows "listen_ok_for a s"
  using assms NewWithOptions_listens [of a] by (auto simp: Start_def listen_ok_for_def NewWithOptions_def split: option.splits if_splits sum.splits)


lemma keeps_stop_tunnel: "stop_tunnel up (m, w) = (m', w') \<Longrightarrow> keeps_listener m m'"
  using stop_tunnel_frame(5,6) by (auto simp: keeps_listener_def)

lemma keeps_StopTunnel: "StopTunnel up (m, w) = (e, m', w') \<Longrightarrow> keeps_listener m m'"
  by (auto simp: StopTunnel_def keeps_listener_def split: option.splits dest: stop_tunnel_frame(5,6))

lemma keeps_Reconnect: "Manager_Reconnect up now (m, w) = (e, m', w') \<Longrightarrow> keeps_listener m m'"
  by (auto simp: Manager_Reconnect_def split: option.splits if_splits dest: keeps_StartTunnel)

lemma keeps_settled:
  assumes "networkSettled env (m, w) = (m', w')"
  shows "keeps_listener m m'"
proof -
  obtain b m1 w1 where c: "checkConflict (me_up env) (me_list env) (m, w) = (b, m1, w1)" using prod_cases3 by blast
  with assms keeps_conflict [OF c] show ?thesis
    by (auto simp: networkSettled_def split: bool.splits if_splits intro: keeps_trans)
qed

lemma keeps_changed: "networkChanged env (m, w) = (m', w') \<Longrightarrow> keeps_listener m m'"
  using keeps_conflict [of "me_up env" "me_list env" m w] by (cases "checkConflict (me_up env) (me_list env) (m, w)") (auto simp: networkChanged_def)

lemma Manager_Stop_listens:
  assumes "listen_inv m" and "Manager_Stop up (m, w) = (m', w')"
  shows "listen_inv m'"
proof (cases "m_running m")
  case True
  let ?m1 = "m\<lparr>m_running := False, m_pipe := False, m_socks := map_option Server_Stop (m_socks m), m_watcher := False\<rparr>"
  have "listen_inv (wait_retries (cancel_service ?m1))"
    using assms(1)
    by (auto simp: listen_inv_def wait_retries_def cancel_service_def Server_Stop_def listen_ok_for_def split: option.splits)
  moreover have st: "stop_tunnel up (wait_retries (cancel_service ?m1), w) = (m', w')" using True assms(2) by (simp add: Manager_Stop_def Let_def)
  ultimately show ?thesis using listen_inv_keeps [OF keeps_stop_tunnel [OF st]] by simp
qed (use assms in \<open>simp add: Manager_Stop_def\<close>)

lemma open_listener_listens:
  assumes "open_listener env (NewWithOptions (a_Socks5Listen a) (a_MaxConnections a) (UDPEnabled a)) (m, w) = (e, m', w')"
    and "listen_inv m" and "m_app m = Some a"
  shows "listen_inv m'"
proof -
  let ?new = "NewWithOptions (a_Socks5Listen a) (a_MaxConnections a) (UDPEnabled a)"
  obtain x s' where st: "Start (me_os env) ?new = (x, s')" by fastforce
  show ?thesis
  proof (cases x)
    case (Inl err)
    obtain m1 w1 where m1: "stop_tunnel (me_up env) (cancel_service m, w) = (m1, w1)" by fastforce
    have "keeps_listener m (cancel_service m)" by (simp add: keeps_listener_def cancel_service_def)
    from keeps_trans [OF this keeps_stop_tunnel [OF m1]] have "keeps_listener m (m1\<lparr>m_running := False\<rparr>)" by (simp add: keeps_listener_def)
    with assms st Inl m1 show ?thesis by (auto simp: open_listener_def intro: listen_inv_keeps)
  next
    case (Inr u)
    from st have "listen_ok_for a s'" by (rule Start_listens)
    with assms st Inr show ?thesis by (auto simp: open_listener_def Let_def listen_inv_def split: prod.splits)
  qed
qed

lemma Manager_Start_listens:
  assumes "listen_inv m" and "Manager_Start env (m, w) = (e, m', w')"
  shows "listen_inv m'"
proof (cases "m_running m")
  case False
  have level: "keeps_listener m (set_level a m)" for a by (simp add: keeps_listener_def set_level_def split: option.split)
  show ?thesis
  proof (cases "LoadApp (me_app env) (m_appCfgPath m)")
    case (Inr app)
    show ?thesis
    proof (cases "(\<exists>c. LoadTunnel (me_app env) (me_confParse env) (me_pbase env) (me_nameValid env) (a_ConfigPath app) = Inr c) \<and>
        ParseBindMode (a_UDPBind app) \<noteq> None")
      case True
      then obtain c mode where cm: "LoadTunnel (me_app env) (me_confParse env) (me_pbase env) (me_nameValid env) (a_ConfigPath app) = Inr c"
        "ParseBindMode (a_UDPBind app) = Some mode" by auto
      let ?m2 = "adopt env app c mode (set_level app m)"
      obtain m3 w3 where m3: "(if a_AutoStart app then auto_start env (?m2, w) else (?m2, w)) = (m3, w3)" by fastforce
      have a2: "m_app ?m2 = Some app" "listen_inv ?m2" by (simp_all add: adopt_def listen_inv_def NewWithOptions_listens)
      have "keeps_listener ?m2 m3" using m3 by (auto simp: keeps_listener_def split: if_splits dest: auto_start_frame(3,4))
      with a2 listen_inv_keeps have a3: "listen_inv m3" "m_app m3 = Some app" by (blast, simp add: keeps_listener_def)
      from assms(2) False Inr cm m3
      have "open_listener env (NewWithOptions (a_Socks5Listen app) (a_MaxConnections app) (UDPEnabled app)) (m3, w3) = (e, m', w')"
        by (simp add: Manager_Start_def Let_def)
      from open_listener_listens [OF this a3] show ?thesis .
    next
      case fails: False
      with assms(2) False Inr have "m' = set_level app m" by (auto simp: Manager_Start_def Let_def split: sum.splits option.splits)
      with level assms(1) listen_inv_keeps show ?thesis by blast
    qed
  qed (use assms False in \<open>simp add: Manager_Start_def\<close>)
qed (use assms in \<open>simp add: Manager_Start_def\<close>)

lemma reload_listener_listens:
  assumes "reload_listener os (Some a) (Some s) newApp m = (e, why, m')" and "listen_ok_for a s" and "m_socks m = Some s" "m_app m = Some a"
  shows "case e of None \<Rightarrow> listen_inv (m'\<lparr>m_app := Some newApp\<rparr>) | Some _ \<Rightarrow> listen_inv m'"
proof (cases "listener_why a newApp s = []")
  case True
  with assms(2) have "listen_ok_for newApp s" by (auto simp: listener_why_Nil listen_ok_for_def)
  with True assms show ?thesis by (auto simp: reload_listener_def listen_inv_def)
next
  case False
  let ?new = "NewWithOptions (a_Socks5Listen newApp) (a_MaxConnections newApp) (UDPEnabled newApp)"
  obtain x s' where st: "Start os ?new = (x, s')" by fastforce
  have ok: "listen_ok_for newApp s'" by (rule Start_listens [OF st])
  have down: "s_ln s' = None" if "x = Inl err" for err
    using st that by (auto simp: Start_def NewWithOptions_def split: option.splits if_splits sum.splits)
  from assms False st ok down show ?thesis
    by (cases x) (auto simp: reload_listener_def swap_listener_def Let_def listen_inv_def listen_ok_for_def split: if_splits)
qed

lemma Manager_Reload_listens:
  assumes l: "listen_inv m" and r: "Manager_Reload env (m, w) = (x, m', w')"
  shows "listen_inv m'"
proof -
  have apply_ok: "listen_inv m'" if "reload_apply env newApp newTun t (m, w) = (x, m', w')" for newApp newTun t
    using that
  proof (cases rule: reload_apply_cases)
    case (tunnel lg e t1)
    then have "keeps_listener m m'" by (simp add: keeps_listener_def)
    with l listen_inv_keeps show ?thesis by blast
  next
    case (applied rot lg t1 w1 b m2 e why m3)
    have k: "keeps_listener m m2" using keeps_conflict [OF applied(3)] by (simp add: keeps_listener_def)
    show ?thesis
    proof (cases "m_socks m")
      case None
      with k applied(4,5) show ?thesis
        by (cases "m_app m") (auto simp: reload_listener_def keeps_listener_def listen_inv_def)
    next
      case (Some s)
      then obtain a where a: "m_app m = Some a" "listen_ok_for a s" using l by (auto simp: listen_inv_def)
      from reload_listener_listens [OF applied(4) [unfolded Some a(1)] a(2)] k Some a(1) applied(5) show ?thesis
        by (cases e) (simp_all add: keeps_listener_def)
    qed
  qed
  show ?thesis
    using l r apply_ok by (auto simp: Manager_Reload_def split: option.splits sum.splits)
qed

lemma mstep_listens: "mstep up x y \<Longrightarrow> listen_inv (fst x) \<Longrightarrow> listen_inv (fst y)"
proof (induction rule: mstep.induct)
  case (background x y)
  then show ?case
  proof (induction rule: background.induct)
    case (changed env m w m' w')
    then show ?case using keeps_changed listen_inv_keeps by (metis fst_conv)
  next
    case (settled env m w m' w')
    then show ?case using keeps_settled listen_inv_keeps by (metis fst_conv)
  next
    case (reload env m w x m' w')
    then show ?case using Manager_Reload_listens by (metis fst_conv)
  next
    case (cancelled m g r now w m' w')
    then show ?case using keeps_retry listen_inv_keeps by (metis fst_conv)
  qed (auto intro: listen_inv_keeps [rotated])
next
  case (start env m w e m' w')
  then show ?case using Manager_Start_listens by (metis fst_conv)
next
  case (stop m w m' w')
  then show ?case using Manager_Stop_listens by (metis fst_conv)
next
  case (start_tunnel now m w e m' w')
  then show ?case using keeps_StartTunnel listen_inv_keeps by (metis fst_conv)
next
  case (stop_tunnel m w e m' w')
  then show ?case using keeps_StopTunnel listen_inv_keeps by (metis fst_conv)
next
  case (reconnect now m w e m' w')
  then show ?case using keeps_Reconnect listen_inv_keeps by (metis fst_conv)
next
  case (retry m g r ev now w m' w')
  then show ?case using keeps_retry listen_inv_keeps by (metis fst_conv)
qed

section \<open>The invariant of the service\<close>

definition service_inv :: "('d, 'n) mgr \<Rightarrow> bool" where
  "service_inv m \<longleftrightarrow> mgr_inv m \<and> listen_inv m"

lemma call_inv:
  assumes "mgr_inv m" and "m_tunnel m = Some t" and "tunnel_call up (t, w) (t', w')"
  shows "mgr_inv (m\<lparr>m_tunnel := Some t'\<rparr>)"
proof -
  obtain r where "t' = t\<lparr>tn_resolver := r\<rparr>" using tunnel_call_frame [OF assms(3)] by auto
  with assms(1,2) show ?thesis by (intro supervised_inv [OF assms(1,2)]) (auto dest: mgr_inv_tunnel)
qed

lemma service_step_inv: "service_step up x y \<Longrightarrow> service_inv (fst x) \<Longrightarrow> service_inv (fst y)"
proof (induction rule: service_step.induct)
  case (manager x y)
  then show ?case using mstep_inv [of up x y] mstep_listens [of up x y] by (simp add: service_inv_def)
next
  case (call m t w t' w')
  then show ?case using call_inv [OF _ call(1,2)] listen_inv_keeps [OF keeps_frame(1), of m "Some t'"] by (simp add: service_inv_def)
next
  case (serve m s s' w)
  then show ?case
    by (auto simp: service_inv_def listen_inv_def listen_ok_for_def same_listener_def mgr_inv_def tun_part_def split: option.splits)
qed

interpretation srv: invariant minit "service_step up" "\<lambda>x. service_inv (fst x)" for up :: "('w, 'd, 'n, 'p) upstream"
proof (unfold_locales, goal_cases)
  case (1 x)
  then show ?case by (auto simp: minit_def service_inv_def mgr_inv_New) (simp add: listen_inv_def NewManager_def)
qed (rule service_step_inv)

section \<open>The proxy over the tunnel\<close>

text \<open>
  A stopped tunnel is an egress that is down: every operation of the server's
  interface answers with the error for it and changes nothing.
\<close>

interpretation tdl: fail_closed "tunnel_dialer up ce" "\<lambda>x. x = (t0, w0) \<and> \<not> tn_running t0"
  for up :: "('w, 'd, 'n, 'p) upstream" and ce :: "('w, 'd, 'n) call_env" and t0 :: "('d, 'n) tun" and w0 :: 'w
proof (unfold_locales, goal_cases)
  case (1 tw t)
  then show ?case by (auto simp: tunnel_dialer_def Tunnel_DialTCP_def down_err_def split: option.splits)
next
  case (2 tw h)
  then show ?case by (auto simp: tunnel_dialer_def Tunnel_LookupHost_def down_err_def)
next
  case (3 tw v6)
  then show ?case by (auto simp: tunnel_dialer_def Tunnel_ListenUDP_def down_err_def split: option.splits)
qed

lemma halted_down: "mgr_inv m \<Longrightarrow> m_tunnel m = Some t \<Longrightarrow> m_pausedBy m \<noteq> None \<or> \<not> tunnel_running m \<Longrightarrow> \<not> tn_running t"
  by (auto simp: mgr_inv_def tun_part_def tunnel_running_def)

lemma same_config_listener: "same_config s t \<Longrightarrow> same_listener s t"
  by (simp add: same_config_def same_listener_def)


text \<open>
  C8: the proxy listens where the settings say, and nowhere else than on this machine. In
  every state the service can reach, reloads that failed half way included, a listener that
  is bound has the address, the cap and the UDP setting of the settings in force, and
  the address is a loopback one.
\<close>

theorem listens_as_configured:
  assumes "reachable minit (service_step up) (m, w)" and "m_socks m = Some s" and "s_ln s \<noteq> None"
  shows "\<exists>a ap. m_app m = Some a \<and> s_listen s = a_Socks5Listen a \<and> s_maxConns s = ResolveMaxConns (a_MaxConnections a) \<and>
    s_udpEnabled s = UDPEnabled a \<and> ParseAddrPort (s_listen s) = Some ap \<and> IsLoopback (ap_addr ap)"
  using srv.reachable_inv [OF assms(1)] assms(2,3) by (auto simp: service_inv_def listen_inv_def listen_ok_for_def)

section \<open>A service that runs, and one that is paused\<close>

lemma service_of_manager: "reachable minit (mstep up) x \<Longrightarrow> reachable minit (service_step up) x"
  by (induction rule: reachable.induct) (auto intro: reachable.intros service_step.manager)

lemma Manager_Start_bound:
  assumes "Manager_Start env (m, w) = (None, m', w')"
  shows "\<exists>s. m_socks m' = Some s \<and> s_ln s \<noteq> None"
proof -
  have "\<exists>s. m_socks m' = Some s \<and> s_ln s \<noteq> None" if "open_listener env s0 mw = (None, m', w')" for s0 mw
    using that by (cases mw) (auto simp: open_listener_def Start_def Let_def split: prod.splits option.splits if_splits sum.splits)
  with assms show ?thesis by (auto simp: Manager_Start_def Let_def split: if_splits sum.splits option.splits)
qed

lemma demo_serving: "\<exists>m w s t. reachable minit (service_step demo_up) (m, w) \<and> m_socks m = Some s \<and> s_ln s \<noteq> None \<and> m_tunnel m = Some t"
proof -
  obtain m w where s: "Manager_Start (demo_menv ''std'' []) (NewManager demo_log ''j'', 0) = (None, m, w)" "tunnel_running m"
    using demo_service by blast
  have "reachable minit (mstep demo_up) (NewManager demo_log ''j'', 0)" by (intro reachable.base) (auto simp: minit_def)
  from reachable.more [OF this mstep.start [OF _ s(1)]] have "reachable minit (mstep demo_up) (m, w)" by (simp add: demo_menv_def)
  with service_of_manager Manager_Start_bound [OF s(1)] s(2) show ?thesis
    by (fastforce simp: tunnel_running_def split: option.splits)
qed

theorem listens_as_configured_witness:
  "\<exists>m w s ap. reachable minit (service_step demo_up) (m, w) \<and> m_socks m = Some s \<and> s_ln s \<noteq> None \<and>
     ParseAddrPort (s_listen s) = Some ap \<and> IsLoopback (ap_addr ap)"
proof -
  obtain m w s where m: "reachable minit (service_step demo_up) (m, w)" "m_socks m = Some s" "s_ln s \<noteq> None" using demo_serving by blast
  from listens_as_configured [OF this] m show ?thesis by blast
qed

lemma demo_halted:
  "\<exists>m w s t. reachable minit (service_step demo_up) (m, w) \<and> \<not> tunnel_running m \<and> m_socks m = Some s \<and> m_tunnel m = Some t"
proof -
  obtain m w s t where m: "reachable minit (service_step demo_up) (m, w)" "m_socks m = Some s" "m_tunnel m = Some t"
    using demo_serving by blast
  obtain m1 w1 where st: "stop_tunnel demo_up (cancelRetry (m\<lparr>m_tunnelWanted := False\<rparr>), w) = (m1, w1)" by fastforce
  then have stop: "StopTunnel demo_up (m, w) = (None, m1, w1)" using m(3) by (simp add: StopTunnel_def)
  have "reachable minit (service_step demo_up) (m1, w1)"
    by (rule reachable.more [OF m(1) service_step.manager [OF mstep.stop_tunnel [OF stop]]])
  moreover have "m_socks m1 = Some s" using keeps_StopTunnel [OF stop] m(2) by (simp add: keeps_listener_def)
  moreover have "\<exists>t1. m_tunnel m1 = Some t1" using st m(3) by (auto simp: stop_tunnel_def split: prod.splits)
  ultimately show ?thesis using stop_tunnel_down [OF st] by blast
qed

definition demo_call :: "(nat, nat, nat) call_env" where
  "demo_call = \<lparr>ce_res = (\<lambda>a n h w. (Inr [], w)), ce_ctxDone = (\<lambda>_ _. False), ce_wait = (\<lambda>t w. demo_wait),
     ce_lookup = (\<lambda>t w. demo_lookup)\<rparr>"


end
