(* ===== verification/Socks5_Deadline.thy ===== *)
theory Socks5_Deadline
  imports Socks5_Server
begin

text \<open>
  The deadlines of a session's client socket (\<open>handle\<close>, \<open>reply\<close> and \<open>handleUDPAssociate\<close> in
  \<open>internal/socks5\<close>): the session of \<open>Socks5_Server\<close> once more, over a connection with a clock.
  The lines above \<open>handshakeTimeout\<close> in \<open>server.go\<close> say why an egress attempt may outlive
  the negotiation deadline without harm; that is what is shown here.
\<close>

section \<open>A connection with a clock\<close>

text \<open>
  \<open>t_arrive\<close> says when each byte of \<open>c_in\<close> arrives, \<open>t_eof\<close> when the client stops sending
  (as late as one likes), \<open>t_stall\<close> how long the client leaves something written at a given
  time waiting. Times are nanoseconds. The deadlines are those of \<open>SetDeadline\<close>,
  \<open>None\<close> being the zero time.
\<close>

record tconn =
  t_conn :: conn
  t_now :: int
  t_arrive :: "int list"
  t_eof :: int
  t_stall :: "int \<Rightarrow> nat"
  t_rd :: "int option"
  t_wd :: "int option"

definition handshakeTimeout :: int where "handshakeTimeout = 10 * 1000000000"

definition replyTimeout :: int where "replyTimeout = 10 * 1000000000"

definition SetDeadline :: "int option \<Rightarrow> tconn \<Rightarrow> tconn" where
  "SetDeadline dl c = c\<lparr>t_rd := dl, t_wd := dl\<rparr>"

definition SetWriteDeadline :: "int option \<Rightarrow> tconn \<Rightarrow> tconn" where
  "SetWriteDeadline dl c = c\<lparr>t_wd := dl\<rparr>"

definition wait :: "nat \<Rightarrow> tconn \<Rightarrow> tconn" where
  "wait n c = c\<lparr>t_now := t_now c + int n\<rparr>"

text \<open>Whether a deadline has passed at a time, and when a call that waits until then returns.\<close>

fun past :: "int option \<Rightarrow> int \<Rightarrow> bool" where
  "past None t = False"
| "past (Some dl) t = (dl \<le> t)"

fun give_up :: "int option \<Rightarrow> int \<Rightarrow> int \<Rightarrow> int" where
  "give_up None t now = max t now"
| "give_up (Some dl) t now = max (min dl t) now"

definition tReadFull :: "nat \<Rightarrow> tconn \<Rightarrow> byte list option \<times> tconn" where
  "tReadFull n c =
     (let i = c_in (t_conn c); t = foldl max (t_now c) (take n (t_arrive c)) in
      if length i < n then
        (None, c\<lparr>t_conn := (t_conn c)\<lparr>c_in := []\<rparr>, t_arrive := [], t_now := give_up (t_rd c) (t_eof c) (t_now c)\<rparr>)
      else if past (t_rd c) t then
        (let k = length (takeWhile (\<lambda>a. \<not> past (t_rd c) a) (t_arrive c)) in
         (None, c\<lparr>t_conn := (t_conn c)\<lparr>c_in := drop k i\<rparr>, t_arrive := drop k (t_arrive c), t_now := give_up (t_rd c) t (t_now c)\<rparr>))
      else
        (Some (take n i), c\<lparr>t_conn := (t_conn c)\<lparr>c_in := drop n i\<rparr>, t_arrive := drop n (t_arrive c), t_now := t\<rparr>))"

definition tWrite :: "byte list \<Rightarrow> tconn \<Rightarrow> bool \<times> tconn" where
  "tWrite bs c =
     (let t = t_now c + int (t_stall c (t_now c)) in
      if \<not> c_wok (t_conn c) then (False, c)
      else if past (t_wd c) t then (False, c\<lparr>t_now := give_up (t_wd c) t (t_now c)\<rparr>)
      else (True, c\<lparr>t_conn := (t_conn c)\<lparr>c_out := c_out (t_conn c) @ bs\<rparr>, t_now := t\<rparr>))"

section \<open>The session\<close>

definition tnegotiate :: "tconn \<Rightarrow> (neg_err + unit) \<times> tconn" where
  "tnegotiate c =
     (case tReadFull 2 c of
        (Some [ver, nm], c1) \<Rightarrow>
          if ver \<noteq> socksVersion then (Inl (NegVersion ver), c1)
          else if nm = 0 then (Inl NegNoMethods, c1)
          else (case tReadFull (unat nm) c1 of
              (None, c2) \<Rightarrow> (Inl NegMethodList, c2)
            | (Some methods, c2) \<Rightarrow>
                if methodNoAuth \<in> set methods then
                  (case tWrite [socksVersion, methodNoAuth] c2 of
                     (True, c3) \<Rightarrow> (Inr (), c3)
                   | (False, c3) \<Rightarrow> (Inl NegWrite, c3))
                else (Inl NegNoAcceptable, snd (tWrite [socksVersion, methodNoAcceptable] c2)))
      | (_, c1) \<Rightarrow> (Inl NegGreeting, c1))"

definition twriteReply :: "tconn \<Rightarrow> byte \<Rightarrow> AddrPort \<Rightarrow> bool \<times> tconn" where
  "twriteReply c rep bound = tWrite (reply_bytes rep bound) c"

definition tread_address :: "byte \<Rightarrow> tconn \<Rightarrow> (req_err + string \<times> Addr) \<times> tconn" where
  "tread_address atyp c =
     (if atyp = atypIPv4 then
        (case tReadFull 4 c of
           (Some b, c1) \<Rightarrow> (Inr ([], Addr4 b), c1)
         | (None, c1) \<Rightarrow> (Inl ReqIPv4, c1))
      else if atyp = atypIPv6 then
        (case tReadFull 16 c of
           (Some b, c1) \<Rightarrow> (Inr ([], Addr6 b []), c1)
         | (None, c1) \<Rightarrow> (Inl ReqIPv6, c1))
      else if atyp = atypDomain then
        (case tReadFull 1 c of
           (Some [l], c1) \<Rightarrow>
             if l = 0 then (Inl ReqEmptyDomain, c1)
             else (case tReadFull (unat l) c1 of
                 (Some nm, c2) \<Rightarrow> (Inr (host_dest (string_of_bytes nm)), c2)
               | (None, c2) \<Rightarrow> (Inl ReqDomain, c2))
         | (_, c1) \<Rightarrow> (Inl ReqDomainLen, c1))
      else (Inl (ReqAtyp atyp), snd (twriteReply c repAddrTypeNotSupported AddrPort0)))"

definition treadRequest :: "tconn \<Rightarrow> (req_err + byte \<times> destination) \<times> tconn" where
  "treadRequest c =
     (case tReadFull 4 c of
        (Some [ver, cmd, rsv, atyp], c1) \<Rightarrow>
          if ver \<noteq> socksVersion then (Inl (ReqVersion ver), c1)
          else (case tread_address atyp c1 of
              (Inl e, c2) \<Rightarrow> (Inl e, c2)
            | (Inr (host, addr), c2) \<Rightarrow>
                (case tReadFull 2 c2 of
                   (Some [hi, lo], c3) \<Rightarrow>
                     (Inr (cmd, \<lparr>d_host = host, d_addr = addr, d_port = be16 hi lo\<rparr>), c3)
                 | (_, c3) \<Rightarrow> (Inl ReqPort, c3)))
      | (_, c1) \<Rightarrow> (Inl ReqHeader, c1))"

definition reply :: "tconn \<Rightarrow> byte \<Rightarrow> AddrPort \<Rightarrow> bool \<times> tconn" where
  "reply c rep bound =
     (case twriteReply (SetWriteDeadline (Some (t_now c + replyTimeout)) c) rep bound of
        (ok, c1) \<Rightarrow> (ok, SetWriteDeadline None c1))"

text \<open>
  A session with its client socket: what it did, when it ended or began to relay, and
  whether a deadline was set on the socket while it relayed.
\<close>

record 'w tsession =
  ts_out :: "'w session"
  ts_at :: int
  ts_cut :: bool

definition tended :: "tconn \<Rightarrow> Server \<times> 'w \<Rightarrow> 'w tsession" where
  "tended c sw = \<lparr>ts_out = ended (t_conn c) sw, ts_at = t_now c, ts_cut = False\<rparr>"

definition relaying :: "tconn \<Rightarrow> 'w session \<Rightarrow> 'w tsession" where
  "relaying c r = \<lparr>ts_out = r, ts_at = t_now c, ts_cut = (t_rd c \<noteq> None \<or> t_wd c \<noteq> None)\<rparr>"

text \<open>\<open>took\<close> is how long the egress attempt took.\<close>

definition thandleConnect ::
  "nat \<Rightarrow> ('w, 'p) Dialer \<Rightarrow> destination \<Rightarrow> tconn \<Rightarrow> Server \<times> 'w \<Rightarrow> 'w tsession" where
  "thandleConnect took d dest c2 sw =
     (case connect d dest sw of
        ((remote, target, rep), s1, w1) \<Rightarrow>
          (let c3 = wait took (SetDeadline None c2) in
           if rep \<noteq> repSuccess then tended (snd (reply c3 rep AddrPort0)) (fail1 s1, w1)
           else (case remote of
               None \<Rightarrow> (tended c3 (s1, w1))\<lparr>ts_out := (ended (t_conn c3) (s1, w1))\<lparr>o_panic := True\<rparr>\<rparr>
             | Some rc \<Rightarrow>
                 (case reply c3 repSuccess target of
                    (False, c4) \<Rightarrow> (tended c4 (s1, w1))\<lparr>ts_out := (ended (t_conn c4) (s1, w1))\<lparr>o_remote := Some (CloseConn rc)\<rparr>\<rparr>
                  | (True, c4) \<Rightarrow>
                      (case relay (t_conn c4, rc, s1) of
                         (c5, rc', s2) \<Rightarrow> relaying c4 ((ended c5 (s2, w1))\<lparr>o_remote := Some (CloseConn rc')\<rparr>))))))"

definition thandleUDPAssociate ::
  "nat \<Rightarrow> ('w, 'p) Dialer \<Rightarrow> os_net \<Rightarrow> meanwhile \<Rightarrow> udp_event list \<Rightarrow> tconn \<Rightarrow> destination \<Rightarrow> Server \<times> 'w \<Rightarrow> 'w tsession" where
  "thandleUDPAssociate took d os mw evs c2 declared sw =
     (case sw of (s, w) \<Rightarrow>
        if \<not> s_udpEnabled s then tended (snd (reply c2 repCommandNotSupported AddrPort0)) (s, w)
        else (case newUDPRelay os (t_now c2) (declared_expect declared) of
            Inl e \<Rightarrow> tended (snd (reply c2 repGeneralFailure AddrPort0)) (fail1 s, w)
          | Inr r \<Rightarrow>
              (case warmUp d mw (r, w) of
                 (Some e, r1, w1) \<Rightarrow>
                   tended (snd (reply (wait took c2) (replyForError (Some e) repNetworkUnreachable) AddrPort0))
                     (fail1 s, snd (relay_Close d (r1, w1)))
               | (None, r1, w1) \<Rightarrow>
                   (case reply (wait took c2) repSuccess (LocalAddrPort r1) of
                      (False, c3) \<Rightarrow> tended c3 (assoc_add (- 1) (assoc_add 1 s), snd (relay_Close d (r1, w1)))
                    | (True, c3) \<Rightarrow>
                        (let c4 = SetDeadline None c3;
                             st = udp_run d os evs
                               \<lparr>us_srv = assoc_add 1 s, us_relay = r1, us_w = w1, us_out = []\<rparr>;
                             st1 = st_Close d (st\<lparr>us_srv := assoc_add (- 1) (us_srv st)\<rparr>)
                         in relaying c4
                              ((ended ((t_conn c4)\<lparr>c_in := []\<rparr>) (us_srv st1, us_w st1))\<lparr>o_udp := us_out st1\<rparr>))))))"

definition thandle ::
  "nat \<Rightarrow> ('w, 'p) Dialer \<Rightarrow> os_net \<Rightarrow> meanwhile \<Rightarrow> udp_event list \<Rightarrow> tconn \<Rightarrow> Server \<times> 'w \<Rightarrow> 'w tsession" where
  "thandle took d os mw evs client sw =
     (if c_closed (t_conn client) then tended client sw
      else (case tnegotiate (SetDeadline (Some (t_now client + handshakeTimeout)) client) of
          (Inl e, c1) \<Rightarrow> tended c1 sw
        | (Inr _, c1) \<Rightarrow>
            (case treadRequest c1 of
               (Inl e, c2) \<Rightarrow> tended c2 sw
             | (Inr (cmd, dest), c2) \<Rightarrow>
                 if cmd = cmdConnect then
                   (if d_port dest = 0 then tended (snd (reply c2 repGeneralFailure AddrPort0)) sw
                    else thandleConnect took d dest c2 sw)
                 else if cmd = cmdUDPAssociate then thandleUDPAssociate took d os mw evs c2 dest sw
                 else tended (snd (reply c2 repCommandNotSupported AddrPort0)) sw)))"

section \<open>Negotiation ends in time\<close>

text \<open>A socket under the negotiation deadline \<open>dl\<close>, and not past it.\<close>

definition under :: "int \<Rightarrow> (int \<Rightarrow> nat) \<Rightarrow> tconn \<Rightarrow> bool" where
  "under dl st c \<longleftrightarrow> t_rd c = Some dl \<and> t_wd c = Some dl \<and> t_stall c = st \<and> t_now c \<le> dl"

lemma tReadFull_under: "under dl st c \<Longrightarrow> under dl st (snd (tReadFull n c))"
  by (auto simp: under_def tReadFull_def Let_def)

lemma tWrite_under: "under dl st c \<Longrightarrow> under dl st (snd (tWrite bs c))"
  by (auto simp: under_def tWrite_def Let_def)

lemma tReadFull_under': "tReadFull n c = (x, c') \<Longrightarrow> under dl st c \<Longrightarrow> under dl st c'"
  using tReadFull_under [of dl st c n] by simp

lemma tWrite_under': "tWrite bs c = (x, c') \<Longrightarrow> under dl st c \<Longrightarrow> under dl st c'"
  using tWrite_under [of dl st c bs] by simp

lemma tnegotiate_under: "tnegotiate c = (x, c') \<Longrightarrow> under dl st c \<Longrightarrow> under dl st c'"
  unfolding tnegotiate_def
  by (auto split: prod.splits option.splits list.splits if_splits bool.splits intro: tWrite_under dest: tReadFull_under' tWrite_under')

lemma tread_address_under: "tread_address atyp c = (x, c') \<Longrightarrow> under dl st c \<Longrightarrow> under dl st c'"
  unfolding tread_address_def twriteReply_def
  by (auto split: prod.splits option.splits list.splits if_splits intro: tWrite_under dest: tReadFull_under')

lemma treadRequest_under: "treadRequest c = (x, c') \<Longrightarrow> under dl st c \<Longrightarrow> under dl st c'"
  unfolding treadRequest_def
  by (auto split: prod.splits option.splits list.splits if_splits sum.splits dest: tReadFull_under' tread_address_under)

lemma SetDeadline_under: "under (t_now c + handshakeTimeout) (t_stall c) (SetDeadline (Some (t_now c + handshakeTimeout)) c)"
  by (simp add: under_def SetDeadline_def handshakeTimeout_def)

section \<open>What is done in time is done as without deadlines\<close>

lemma tReadFull_untimed: "tReadFull n c = (Some bs, c') \<Longrightarrow> ReadFull n (t_conn c) = (Some bs, t_conn c')"
  by (auto simp: tReadFull_def ReadFull_def Let_def split: if_splits)

lemma tWrite_untimed: "tWrite bs c = (True, c') \<Longrightarrow> Write bs (t_conn c) = (True, t_conn c')"
  by (auto simp: tWrite_def Write_def Let_def split: if_splits)

lemma tnegotiate_untimed: "tnegotiate c = (Inr u, c') \<Longrightarrow> negotiate (t_conn c) = (Inr u, t_conn c')"
  unfolding tnegotiate_def
  by (auto simp: negotiate_def dest!: tReadFull_untimed tWrite_untimed
      split: prod.split_asm option.split_asm list.split_asm if_split_asm bool.split_asm)

lemma tread_address_untimed: "tread_address atyp c = (Inr u, c') \<Longrightarrow> read_address atyp (t_conn c) = (Inr u, t_conn c')"
  unfolding tread_address_def
  by (auto simp: read_address_def dest!: tReadFull_untimed
      split: prod.split_asm option.split_asm list.split_asm if_split_asm)

lemma treadRequest_untimed: "treadRequest c = (Inr u, c') \<Longrightarrow> readRequest (t_conn c) = (Inr u, t_conn c')"
  unfolding treadRequest_def
  by (auto simp: readRequest_def dest!: tReadFull_untimed tread_address_untimed
      split: prod.split_asm option.split_asm list.split_asm if_split_asm sum.split_asm)

lemma reply_deadline:
  assumes "reply c rep bound = (ok, c')"
  shows "t_wd c' = None" and "t_rd c' = t_rd c" and "t_now c' \<le> t_now c + replyTimeout"
  using assms by (auto simp: reply_def twriteReply_def SetWriteDeadline_def tWrite_def Let_def replyTimeout_def split: if_splits)

lemma reply_untimed:
  assumes "\<forall>t. int (t_stall c t) < replyTimeout" and "reply c rep bound = (ok, c')"
  shows "writeReply (t_conn c) rep bound = (ok, t_conn c')"
  using assms(2) spec [OF assms(1), of "t_now c"]
  by (auto simp: reply_def twriteReply_def writeReply_def SetWriteDeadline_def tWrite_def Write_def Let_def split: if_splits)

lemma reply_untimed_snd:
  assumes "\<forall>t. int (t_stall c t) < replyTimeout"
  shows "t_conn (snd (reply c rep bound)) = snd (writeReply (t_conn c) rep bound)"
  using reply_untimed [OF assms, of rep bound] by (cases "reply c rep bound") auto

lemma wait_frame [simp]:
  "t_conn (wait n c) = t_conn c" "t_stall (wait n c) = t_stall c" "t_rd (wait n c) = t_rd c" "t_wd (wait n c) = t_wd c"
  "t_now (wait n c) = t_now c + int n"
  by (simp_all add: wait_def)

lemma SetDeadline_frame [simp]:
  "t_conn (SetDeadline dl c) = t_conn c" "t_stall (SetDeadline dl c) = t_stall c" "t_now (SetDeadline dl c) = t_now c"
  "t_rd (SetDeadline dl c) = dl" "t_wd (SetDeadline dl c) = dl"
  by (simp_all add: SetDeadline_def)

lemma thandleConnect_untimed:
  assumes "\<forall>t. int (t_stall c t) < replyTimeout"
  shows "ts_out (thandleConnect took d dest c sw) = handleConnect d dest (t_conn c) sw"
proof -
  let ?c3 = "wait took (SetDeadline None c)"
  have st: "\<forall>t. int (t_stall ?c3 t) < replyTimeout" using assms by simp
  show ?thesis
    using reply_untimed_snd [OF st] reply_untimed [OF st]
    by (auto simp: thandleConnect_def handleConnect_def tended_def relaying_def Let_def split: prod.splits option.splits bool.splits)
qed

lemma thandleUDPAssociate_untimed:
  assumes "\<forall>t. int (t_stall c t) < replyTimeout"
  shows "ts_out (thandleUDPAssociate took d os mw evs c dest sw) =
    (case handleUDPAssociate d os (t_now c) mw evs (t_conn c) dest sw of (c3, sw', out) \<Rightarrow> (ended c3 sw')\<lparr>o_udp := out\<rparr>)"
proof -
  have st: "\<forall>t. int (t_stall (wait took c) t) < replyTimeout" using assms by simp
  show ?thesis
    using reply_untimed_snd [OF st] reply_untimed [OF st] reply_untimed_snd [OF assms]
    by (auto simp: thandleUDPAssociate_def handleUDPAssociate_def tended_def relaying_def ended_def Let_def
        split: prod.splits option.splits bool.splits sum.splits)
qed

section \<open>The time before relaying\<close>

definition within :: "int \<Rightarrow> 'w tsession \<Rightarrow> bool" where
  "within t r \<longleftrightarrow> ts_at r \<le> t \<and> \<not> ts_cut r"

lemma reply_within: "within (t_now c + replyTimeout) (tended (snd (reply c rep bound)) sw)"
  using reply_deadline(3) [of c rep bound] by (cases "reply c rep bound") (simp add: within_def tended_def)

lemma thandleConnect_within: "within (t_now c + int took + replyTimeout) (thandleConnect took d dest c sw)"
proof -
  let ?c3 = "wait took (SetDeadline None c)"
  note r = reply_deadline [of ?c3] reply_within [of ?c3]
  from r show ?thesis
    by (auto simp: thandleConnect_def Let_def within_def tended_def relaying_def replyTimeout_def split: prod.splits option.splits bool.splits)
qed

lemma tended_later: "within t (tended c sw) \<Longrightarrow> within (t + int n) (tended c sw)"
  by (simp add: within_def)

lemma thandleUDPAssociate_within: "within (t_now c + int took + replyTimeout) (thandleUDPAssociate took d os mw evs c dest sw)"
proof -
  obtain s w where sw: "sw = (s, w)" by (cases sw)
  have e: "within (t_now c + int took + replyTimeout) (tended (snd (reply c rep b)) x)" for rep b and x :: "Server \<times> 'a"
    using tended_later [OF reply_within [of c rep b x], of took] by (simp add: algebra_simps)
  note r = reply_deadline [of "wait took c"] reply_within [of "wait took c"]
  show ?thesis
  proof (cases "s_udpEnabled s \<and> (\<exists>r. newUDPRelay os (t_now c) (declared_expect dest) = (Inr r :: goerr + 'b relay))")
    case True
    then obtain r0 :: "'b relay" where n: "s_udpEnabled s" "newUDPRelay os (t_now c) (declared_expect dest) = Inr r0" by blast
    obtain x r1 w1 where wu: "warmUp d mw (r0, w) = (x, r1, w1)" using prod_cases3 by blast
    show ?thesis
    proof (cases x)
      case None
      with n wu sw r(1,2,3) [of repSuccess "LocalAddrPort r1"] show ?thesis
        by (cases "reply (wait took c) repSuccess (LocalAddrPort r1)")
          (auto simp: thandleUDPAssociate_def Let_def tended_def relaying_def within_def split: bool.splits)
    next
      case (Some err)
      with n wu sw r(4) show ?thesis by (simp add: thandleUDPAssociate_def)
    qed
  next
    case False
    with e sw show ?thesis by (auto simp: thandleUDPAssociate_def split: sum.splits)
  qed
qed

lemma negotiation_within:
  assumes "tnegotiate (SetDeadline (Some (t_now client + handshakeTimeout)) client) = (x, c1)"
  shows "under (t_now client + handshakeTimeout) (t_stall client) c1"
    and "treadRequest c1 = (y, c2) \<Longrightarrow> under (t_now client + handshakeTimeout) (t_stall client) c2"
  using tnegotiate_under [OF assms SetDeadline_under] treadRequest_under by blast+

lemma within_mono: "within t r \<Longrightarrow> t \<le> u \<Longrightarrow> within u r"
  by (auto simp: within_def)

lemma under_within: "under dl st c \<Longrightarrow> dl \<le> u \<Longrightarrow> within u (tended c sw)"
  by (auto simp: within_def tended_def under_def)


text \<open>
  C14: the deadlines change nothing for a client that speaks in time. When the greeting and the
  request are read within the negotiation deadline and the client takes each reply
  within ten seconds, the session does exactly what \<open>handle\<close> does, however long the egress
  attempt takes: an attempt that outlives the negotiation deadline still gets its reply.
\<close>

theorem deadlines_spare_sessions:
  assumes "\<not> c_closed (t_conn client)" and "\<forall>t. int (t_stall client t) < replyTimeout"
    and "tnegotiate (SetDeadline (Some (t_now client + handshakeTimeout)) client) = (Inr (), c1)"
    and "treadRequest c1 = (Inr (cmd, dest), c2)"
  shows "ts_out (thandle took d os mw evs client sw) = handle d os (t_now c2) mw evs (t_conn client) sw"
proof -
  have "t_stall c2 = t_stall client" using negotiation_within(2) [OF assms(3,4)] by (simp add: under_def)
  with assms(2) have st: "\<forall>t. int (t_stall c2 t) < replyTimeout" by simp
  have n: "negotiate (t_conn client) = (Inr (), t_conn c1)" using tnegotiate_untimed [OF assms(3)] by simp
  note q = treadRequest_untimed [OF assms(4)]
  show ?thesis
    using assms n q by (simp add: thandle_def handle_def tended_def reply_untimed_snd [OF st] thandleConnect_untimed [OF st]
        thandleUDPAssociate_untimed [OF st])
qed

definition demo_tconn :: "byte list \<Rightarrow> tconn" where
  "demo_tconn bs = \<lparr>t_conn = demo_conn bs, t_now = 0, t_arrive = map (\<lambda>_. 1000000000) bs, t_eof = 60000000000,
     t_stall = (\<lambda>_. 1000), t_rd = None, t_wd = None\<rparr>"


theorem deadlines_spare_sessions_witness:
  "o_client (ts_out (thandle 15000000000 demo_dialer demo_os Nothing [] (demo_tconn [5, 1, 0, 5, 1, 0, 1, 1, 2, 3, 4, 0, 80]) (New [] 0, 0))) =
     (demo_conn [])\<lparr>c_out := [5, 0, 5, 0, 0, 1, 1, 2, 3, 4, 0, 80], c_wok := False, c_wshut := True\<rparr>"
proof -
  let ?c = "demo_tconn [5, 1, 0, 5, 1, 0, 1, 1, 2, 3, 4, 0, 80]"
  let ?c1 = "(demo_tconn [5, 1, 0, 1, 1, 2, 3, 4, 0, 80])\<lparr>t_conn := (demo_conn [5, 1, 0, 1, 1, 2, 3, 4, 0, 80])\<lparr>c_out := [5, 0]\<rparr>,
      t_now := 1000001000, t_rd := Some 10000000000, t_wd := Some 10000000000\<rparr>"
  let ?c2 = "(demo_tconn [])\<lparr>t_conn := (demo_conn [])\<lparr>c_out := [5, 0]\<rparr>,
      t_now := 1000001000, t_rd := Some 10000000000, t_wd := Some 10000000000\<rparr>"
  have 1: "\<not> c_closed (t_conn ?c)" "\<forall>t. int (t_stall ?c t) < replyTimeout"
    by (simp_all add: demo_tconn_def demo_conn_def replyTimeout_def)
  have 2: "tnegotiate (SetDeadline (Some (t_now ?c + handshakeTimeout)) ?c) = (Inr (), ?c1)"
    by (simp add: tnegotiate_def tReadFull_def tWrite_def demo_tconn_def demo_conn_def SetDeadline_def handshakeTimeout_def)
  have 3: "treadRequest ?c1 = (Inr (cmdConnect, \<lparr>d_host = [], d_addr = Addr4 [1, 2, 3, 4], d_port = 80\<rparr>), ?c2)"
    by (simp add: treadRequest_def tread_address_def tReadFull_def tWrite_def demo_tconn_def demo_conn_def be16_def)
  have h: "o_client (handle demo_dialer demo_os t Nothing [] (demo_conn [5, 1, 0, 5, 1, 0, 1, 1, 2, 3, 4, 0, 80]) (New [] 0, 0)) =
      (demo_conn [])\<lparr>c_out := [5, 0, 5, 0, 0, 1, 1, 2, 3, 4, 0, 80], c_wok := False, c_wshut := True\<rparr>" for t by code_simp
  show ?thesis unfolding deadlines_spare_sessions [OF 1 2 3] by (simp add: h demo_tconn_def)
qed

end
