(* ===== verification/Spec2Isabelle.thy ===== *)
theory Spec2Isabelle
  imports Cmd_Console Service_Watch Netstack_Batch Logging_Device Service_System Socks5_Deadline
begin

text \<open>
  AWGSocks runs an AmneziaWG tunnel in user space and offers it to local programs as a
  SOCKS5 proxy, on Windows, as a service. This development models the program's own Go code
  (\<open>src/internal\<close>, \<open>src/cmd\<close>) and proves that it keeps the promises its documentation
  makes: nothing leaves except through the tunnel, nothing but loopback clients get in, no
  key leaks into logs, reports or readable files, and the service survives every order of
  commands, network events and failures with its state intact.

  \<^bold>\<open>How the program is put together.\<close> The command line (\<open>cmd/awgsocks\<close>) installs and controls
  the Windows service or runs the manager in the foreground. The service
  (\<open>service/service_windows.go\<close>) hosts the manager (\<open>service/manager.go\<close>), which reads
  \<open>config.json\<close> and the tunnel configuration (\<open>config\<close>), brings the tunnel up
  (\<open>awg/tunnel.go\<close>), retries, pauses and resumes it, and opens the SOCKS5 listener
  (\<open>socks5\<close>). A session asks the tunnel, as its \<open>Dialer\<close>, for connections, UDP sockets and
  names; names go through the caching resolver (\<open>dns/resolver.go\<close>). Management commands
  arrive on a named pipe (\<open>ipc\<close>).

  \<^bold>\<open>The theories\<close>, bottom up, each with the code it models.

  \<^item> \<open>Awg_Prelude\<close>, \<open>Go_Strings\<close>, \<open>Netip\<close>, \<open>Awg_Errors\<close>: reachable states and the locales
    \<open>invariant\<close> and \<open>simulation\<close>; Go's string functions on byte strings; \<open>net/netip\<close>; errors as
    records of a text and the sentinels they wrap.
  \<^item> \<open>Socks5_Wire\<close>, \<open>Socks5_Core\<close>: the wire formats of \<open>socks5/server.go\<close> and \<open>udp.go\<close> with
    their round trips, the server record and the \<open>Dialer\<close> interface (locale \<open>fail_closed\<close>).
    \<open>Socks5_Udp\<close>: an association with its sockets, pumps, first client and closing.
    \<open>Socks5_Server\<close>: \<open>handle\<close>, \<open>connect\<close>, \<open>relay\<close>. \<open>Socks5_Deadline\<close>: the same session over a
    client socket with a clock and the deadlines of \<open>handle\<close>, \<open>reply\<close> and \<open>handleUDPAssociate\<close>.
    \<open>Socks5_Calls\<close>: a session reaches the outside only through calls of the interface (locale
    \<open>dialer_calls\<close>). \<open>Socks5_Listener\<close>: \<open>Start\<close>, the accept loop
    and \<open>Stop\<close> as a step relation over all interleavings of clients, sessions and \<open>Stop\<close>.
  \<^item> \<open>Dns_Resolver\<close>: cache, single flight, concurrency limit and flush, as a step relation of
    concurrent lookups.
  \<^item> \<open>Config_Params\<close>, \<open>Config_Scan\<close>, \<open>Config_Tunnel\<close>, \<open>Config_App\<close>: the two configuration
    files: decoding, scanning, the policy of \<open>validateScan\<close>, finalisation, MTU, and loading,
    normalising and saving \<open>config.json\<close>.
  \<^item> \<open>Awg_Stats\<close>, \<open>Awg_Tunnel\<close>, \<open>Awg_Tunnel_Props\<close>: the tunnel record and every operation of
    \<open>awg/tunnel.go\<close>, \<open>dryrun.go\<close>, \<open>bind.go\<close>, \<open>stats.go\<close> and \<open>localdns\<close>: \<open>Start\<close>, \<open>Stop\<close>,
    \<open>Reload\<close>, \<open>WaitReady\<close>, the egress operations, lookups and the supervisor.
    \<open>Netstack_Batch\<close>: the batching adapter of \<open>awg/netstack.go\<close>.
  \<^item> \<open>Logging_Redact\<close>, \<open>Logging_Log\<close>, \<open>Logging_Device\<close>: redaction with its regular expressions,
    levels, rotation and pruning.
  \<^item> \<open>Service_Conflict\<close>, \<open>Service_Manager\<close>, \<open>Service_Manager_Props\<close>, \<open>Service_Steps\<close>,
    \<open>Service_Reload\<close>: the manager's record, its commands, events and retry, the step relation
    \<open>mstep\<close> of whole operations with the invariant \<open>mgr_inv\<close>. \<open>Service_Races\<close>: pausing,
    starting and reloading at the granularity of the locks. \<open>Service_Watch\<close>: the address
    watcher and its debounce. \<open>Service_Status\<close>: accessors, versions and the status report.
    \<open>Service_System\<close>: the manager, its tunnel and the calls of the proxy's sessions as one step
    relation, with the invariant of the listener.
  \<^item> \<open>Ipc_Pipe\<close>: the protocol, the pipe server and the client. \<open>Service_Windows\<close>: the service's
    \<open>Execute\<close>. \<open>Winsys_Sid\<close>, \<open>Winsys_Acl\<close>: the service SID (with SHA-1) and the access
    control lists. \<open>Service_Control\<close>, \<open>Service_Install\<close>: install, repair, uninstall, start and
    stop over a model of files, access control lists and the registration.
    \<open>Cmd_Status\<close>, \<open>Cmd_Main\<close>, \<open>Cmd_Console\<close>: the command line, its help and its console.

  \<^bold>\<open>How state and effects are modelled.\<close> A struct is a record with the source's fields, a
  goroutine that matters is a step of a relation, a lock section is one step. Everything
  that is not in the repository is an argument: the upstream device and network stack
  (\<open>upstream\<close>, over a world of type \<open>'w\<close> they change), the upstream configuration parser,
  JSON, the file system, the clock and the Windows API. What the code relies on of them
  is a hypothesis of the theorem that needs it. In \<open>Service_Control\<close> every system
  call can fail (\<open>we_fail\<close>), and a failed write or removal leaves a part behind.

  \<^bold>\<open>What is shown.\<close>

  \<^item> Egress: a session over a tunnel that is down gets an answer and opens nothing; no session
    dials an unspecified address; UDP replies stay on loopback; lookups never leave the
    tunnel except for loopback servers that are configured. Composed with the manager, in every
    reachable state of the service: a session over a paused or stopped tunnel leaves
    everything outside untouched, and a bound listener is the configured loopback one.
  \<^item> Time: a client holds a session for no longer than the negotiation, the egress attempt and
    the reply may take, and the deadlines never change what a client that speaks in time gets.
  \<^item> Life cycle: the tunnel, the manager, the listener, the resolver, the pipe, the watcher and
    the batching adapter each have an invariant, proved by an interpretation of
    \<open>invariant\<close> for every reachable state; no device and no socket leaks; a reload is
    transactional and its report exact; a pause wins over every overlapping start; the
    service always ends stopped.
  \<^item> Interfaces: \<open>fail_closed\<close> is what the proxy needs of the tunnel, interpreted in
    \<open>Service_System\<close> on \<open>tunnel_dialer\<close>, as is \<open>dialer_calls\<close>; \<open>pipe_handler\<close> is what the pipe needs of the manager; \<open>simulation\<close> relates
    the batching adapter to a queue.
  \<^item> Parsing and formats: round trips of the request format and of a printed configuration,
    the policy every accepted configuration satisfies.
  \<^item> Secrets: redacted text contains no key, the status report does not depend on secret lines,
    the access control lists grant exactly what is listed, and an installation applies them.
  \<^item> Command line: what every command may change, and that its exit code tells the truth.

  \<^bold>\<open>Bounds and termination.\<close> No definition uses fuel, with one exception: a loop that reads
  what the environment supplies takes that supply as a list (the datagrams of an association, the
  requests of the service, the attempts of a lookup), so it ends with the list. \<open>waitForState\<close>
  is a \<open>function\<close> whose measure is the time to the deadline, \<open>human_loop\<close> one on the
  quotient. Machine integers are words where the code's wrap-around is observable (ports, byte
  counters, checkpoints); durations and sizes are integers.

  \<^bold>\<open>Not modelled\<close>: messages printed on the console apart from the help, the status report
  and the result of \<open>check\<close>; log lines and the functions that only format them; the texts of configuration
  errors in \<open>Service_Control\<close>; how long an egress attempt takes (an argument of the timed session);
  the lookup of the Program Data folder, JSON, regular file operations and the named pipe, which are
  arguments; the upstream device. The code in \<open>tests\<close>, scripts and benchmarks is left out.
\<close>

section \<open>The proxy over the tunnel\<close>

lemma tunnel_dialer_HasDNS: "HasDNS (tunnel_dialer up ce) (t, w) = Tunnel_HasDNS t"
  by (simp add: tunnel_dialer_def)

text \<open>
  C1: the proxy fails closed. While the tunnel is not running, a client that asks for a
  connection (to an address, or to a name when servers are configured) or for a UDP
  association is told that the network is unreachable, the failure is counted, no
  connection and no socket is opened for it, and the tunnel and everything outside it
  are left as they were.
\<close>

theorem down_tunnel_fails_closed:
  assumes "\<not> tn_running t" and "\<not> c_closed client" and "negotiate client = (Inr (), c1)"
    and "readRequest c1 = (Inr (cmd, dest), c2)"
    and "cmd = cmdConnect \<and> d_port dest \<noteq> 0 \<and>
           (if d_host dest = [] then \<not> IsUnspecified (Unmap (d_addr dest)) else Tunnel_HasDNS t)
         \<or> cmd = cmdUDPAssociate \<and> s_udpEnabled s \<and> (\<exists>a. os_ListenUDP os = Inr a)"
    and "r = handle (tunnel_dialer up ce) os now Nothing evs client (s, (t, w))"
  shows "o_w r = (t, w) \<and> o_remote r = None \<and> o_udp r = [] \<and>
    o_client r = snd (writeReply c2 repNetworkUnreachable AddrPort0) \<and> statFailed (o_srv r) = statFailed s + 1"
  using tdl.session_down [of "(t, w)" t w client c1 cmd dest c2 up ce s os now evs, unfolded tunnel_dialer_HasDNS] assms
  by simp

definition demo_client :: "byte list \<Rightarrow> conn" where
  "demo_client bs = demo_conn ([5, 1, 0] @ bs)"

theorem down_tunnel_fails_closed_witness:
  "o_client (handle (tunnel_dialer demo_up demo_call) demo_os 0 Nothing []
      (demo_client [5, 1, 0, 1, 1, 2, 3, 4, 0, 80]) (New [] 0, NewWithBind (Some demo_tunnel_cfg) BindStd, 0)) =
    (demo_conn [])\<lparr>c_out := [5, 0] @ [5, 3, 0, 1, 0, 0, 0, 0, 0, 0]\<rparr>"
proof -
  let ?c2 = "(demo_conn [])\<lparr>c_out := [5, 0]\<rparr>"
  have 1: "\<not> tn_running (NewWithBind (Some demo_tunnel_cfg) BindStd)" by (simp add: NewWithBind_def)
  have 2: "\<not> c_closed (demo_client [5, 1, 0, 1, 1, 2, 3, 4, 0, 80])" by (simp add: demo_client_def demo_conn_def)
  have 3: "negotiate (demo_client [5, 1, 0, 1, 1, 2, 3, 4, 0, 80]) =
      (Inr (), (demo_conn [5, 1, 0, 1, 1, 2, 3, 4, 0, 80])\<lparr>c_out := [5, 0]\<rparr>)" by code_simp
  have 4: "readRequest ((demo_conn [5, 1, 0, 1, 1, 2, 3, 4, 0, 80])\<lparr>c_out := [5, 0]\<rparr>) =
      (Inr (cmdConnect, \<lparr>d_host = [], d_addr = Addr4 [1, 2, 3, 4], d_port = 80\<rparr>), ?c2)" by code_simp
  have "o_client (handle (tunnel_dialer demo_up demo_call) demo_os 0 Nothing []
      (demo_client [5, 1, 0, 1, 1, 2, 3, 4, 0, 80]) (New [] 0, NewWithBind (Some demo_tunnel_cfg) BindStd, 0)) =
      snd (writeReply ?c2 repNetworkUnreachable AddrPort0)"
    using down_tunnel_fails_closed [OF 1 2 3 4 disjI1 refl, of demo_up demo_call demo_os 0 "[]" "New [] 0" 0]
    by (simp add: IsUnspecified_def IPv4Unspecified_def IPv6Unspecified_def)
  also have "\<dots> = (demo_conn [])\<lparr>c_out := [5, 0] @ [5, 3, 0, 1, 0, 0, 0, 0, 0, 0]\<rparr>" by code_simp
  finally show ?thesis .
qed

end
